(* ===== verification/Prelude.thy ===== *)
theory Prelude
  imports Main "HOL-Library.Mapping" "HOL-Library.AList_Mapping"
    "HOL-Library.List_Lexorder" "HOL-Library.Char_ord"
begin

text \<open>
  What every component shares: the collections the proofs feed to the simplifier, Go's
  64-bit signed integers, instants and durations of package \<open>time\<close>, the two views of a Go
  map (\<open>m[k]\<close> with its zero value, and the comma-ok form).
\<close>

named_theorems arith64 "facts on wrapped and saturated 64-bit arithmetic"
named_theorems step_simps "equations that evaluate one operation of a component"

section \<open>Signed 64-bit integers\<close>

text \<open>
  Go's \<open>int\<close> and \<open>int64\<close> on a 64-bit platform: an unbounded result is reduced to the
  signed range by \<open>i64\<close>.  Code that multiplies or adds without a guard is modelled with it.
\<close>

definition i64 :: "int \<Rightarrow> int" where
  "i64 x = signed_take_bit 63 x"

abbreviation max_int64 :: int where "max_int64 \<equiv> 9223372036854775807"
abbreviation min_int64 :: int where "min_int64 \<equiv> - 9223372036854775808"

definition in_i64 :: "int \<Rightarrow> bool" where
  "in_i64 x \<longleftrightarrow> min_int64 \<le> x \<and> x \<le> max_int64"

lemma i64_id [arith64]: "in_i64 x \<Longrightarrow> i64 x = x"
  unfolding i64_def in_i64_def
  by (rule signed_take_bit_int_eq_self) simp_all

lemma i64_in_range [arith64]: "in_i64 (i64 x)"
proof -
  have "- (2 ^ 63) \<le> signed_take_bit 63 x"
    by (rule signed_take_bit_int_greater_eq_minus_exp)
  moreover have "signed_take_bit 63 x < 2 ^ 63"
    by (rule signed_take_bit_int_less_exp)
  ultimately show ?thesis by (simp add: i64_def in_i64_def)
qed

lemma in_i64I: "min_int64 \<le> x \<Longrightarrow> x \<le> max_int64 \<Longrightarrow> in_i64 x"
  by (simp add: in_i64_def)

section \<open>Instants and durations\<close>

text \<open>
  An instant is the number of nanoseconds since 1 January of the year 1, UTC, so Go's zero
  \<open>time.Time\<close> is \<open>0\<close>.  A duration is an \<open>int64\<close> of nanoseconds.  \<open>Time.Sub\<close> saturates;
  \<open>Time.Add\<close> does not wrap on the instants reachable here.
\<close>

type_synonym instant = int
type_synonym duration = int

definition time_sub :: "instant \<Rightarrow> instant \<Rightarrow> duration" where
  "time_sub t u = max min_int64 (min max_int64 (t - u))"

definition time_add :: "instant \<Rightarrow> duration \<Rightarrow> instant" where
  "time_add t d = t + d"

abbreviation second :: duration where "second \<equiv> 1000000000"

lemma time_sub_less_iff [arith64]:
  "min_int64 < d \<Longrightarrow> d \<le> max_int64 \<Longrightarrow> time_sub t u < d \<longleftrightarrow> t - u < d"
  by (auto simp: time_sub_def)

lemma time_sub_exact [arith64]: "in_i64 (t - u) \<Longrightarrow> time_sub t u = t - u"
  by (auto simp: time_sub_def in_i64_def)

lemma time_sub_pos [arith64]: "0 < time_sub t u \<longleftrightarrow> u < t"
  by (auto simp: time_sub_def)

lemma time_sub_le [arith64]: "min_int64 \<le> t - u \<Longrightarrow> time_sub t u \<le> t - u"
  by (auto simp: time_sub_def)

lemma in_i64_time_sub [arith64]: "in_i64 (time_sub t u)"
  by (auto simp: time_sub_def in_i64_def)

section \<open>Go maps\<close>

text \<open>
  A Go map is \<open>('k, 'v) mapping\<close>; a nil map is \<open>None\<close>.  Reading a missing key gives the
  zero value, here the empty string.
\<close>

type_synonym strmap = "(string, string) mapping"

definition map_get :: "strmap option \<Rightarrow> string \<Rightarrow> string" where
  "map_get m k = (case m of None \<Rightarrow> [] | Some m \<Rightarrow>
     (case Mapping.lookup m k of None \<Rightarrow> [] | Some v \<Rightarrow> v))"

text \<open>Reading, not nil-ness, is what \<open>equality.Semantic.DeepEqual\<close> compares.\<close>

definition map_norm :: "strmap option \<Rightarrow> strmap" where
  "map_norm m = (case m of None \<Rightarrow> Mapping.empty | Some m \<Rightarrow> m)"

lemma map_get_None [simp]: "map_get None k = []"
  by (simp add: map_get_def)

lemma map_get_update [simp]:
  "map_get (Some (Mapping.update k v m)) k' = (if k = k' then v else map_get (Some m) k')"
  by (simp add: map_get_def lookup_update')

lemma map_get_delete [simp]:
  "map_get (Some (Mapping.delete k m)) k' = (if k = k' then [] else map_get (Some m) k')"
  by (auto simp: map_get_def lookup_delete Mapping.lookup_delete_neq)

lemma map_get_empty [simp]: "map_get (Some Mapping.empty) k = []"
  by (simp add: map_get_def lookup_empty)

end
