(* ===== verification/Rfc3339.thy ===== *)
theory Rfc3339
  imports Prelude
begin

text \<open>
  Package \<open>time\<close> as src/pkg/meta/meta.go and src/pkg/ratelimit/governor.go use it:
  \<open>Time.Format(time.RFC3339)\<close> and \<open>time.Parse(time.RFC3339, s)\<close>, with the civil calendar they
  need, and \<open>fmt\<close>'s decimal rendering of integers.  A \<open>time.Time\<close> is an instant and the offset
  (in seconds) of the zone it is printed in.  The parser covers what \<open>time.Parse\<close> accepts for
  this layout, also beyond RFC 3339: a one-digit hour, a fraction of a second after a dot or a
  comma, and the offset hour 24 and minute 60.  The round trip at the end is what the create
  handshake stands on: a written marker reads back as the written time, whole seconds only.
\<close>

datatype gotime = Time (inst: instant) (zone: int)

definition zero_time :: gotime where "zero_time = Time 0 0"

definition is_zero :: "gotime \<Rightarrow> bool" where "is_zero t \<longleftrightarrow> inst t = 0"

definition after :: "gotime \<Rightarrow> gotime \<Rightarrow> bool" where "after t u \<longleftrightarrow> inst u < inst t"

text \<open>The instant without its fraction of a second.\<close>

definition trunc_second :: "instant \<Rightarrow> instant" where
  "trunc_second t = t div second * second"

section \<open>Decimal digits\<close>

definition digit :: "nat \<Rightarrow> char" where "digit n = char_of (48 + n)"

fun dec_nat :: "nat \<Rightarrow> string" where
  "dec_nat n = (if n < 10 then [digit n] else dec_nat (n div 10) @ [digit (n mod 10)])"

declare dec_nat.simps [simp del]

definition dec_int :: "int \<Rightarrow> string" where
  "dec_int i = (if i < 0 then CHR ''-'' # dec_nat (nat (- i)) else dec_nat (nat i))"

text \<open>\<open>appendInt(b, x, width)\<close>: at least \<open>width\<close> digits, zero padded, the sign in front.\<close>

definition append_int :: "int \<Rightarrow> nat \<Rightarrow> string" where
  "append_int x width =
     (let ds = dec_nat (nat \<bar>x\<bar>)
      in (if x < 0 then ''-'' else []) @ replicate (width - length ds) (CHR ''0'') @ ds)"

definition digit_val :: "char \<Rightarrow> int option" where
  "digit_val c = (let n = of_char c :: nat in if 48 \<le> n \<and> n \<le> 57 then Some (int n - 48) else None)"

definition is_digit :: "char \<Rightarrow> bool" where "is_digit c \<longleftrightarrow> digit_val c \<noteq> None"

section \<open>The civil calendar\<close>

definition leap :: "int \<Rightarrow> bool" where
  "leap y \<longleftrightarrow> y mod 4 = 0 \<and> (y mod 100 \<noteq> 0 \<or> y mod 400 = 0)"

definition month_lengths :: "int \<Rightarrow> int list" where
  "month_lengths y = [31, if leap y then 29 else 28, 31, 30, 31, 30, 31, 31, 30, 31, 30, 31]"

definition days_in :: "int \<Rightarrow> int \<Rightarrow> int" where
  "days_in m y = month_lengths y ! nat (m - 1)"

text \<open>Days from 1 January of the year 1 to 1 January of \<open>y\<close>.\<close>

definition days_before_year :: "int \<Rightarrow> int" where
  "days_before_year y = 365 * (y - 1) + (y - 1) div 4 - (y - 1) div 100 + (y - 1) div 400"

definition days_of_civil :: "int \<Rightarrow> int \<Rightarrow> int \<Rightarrow> int" where
  "days_of_civil y m d =
     days_before_year y + sum_list (take (nat (m - 1)) (month_lengths y)) + (d - 1)"

text \<open>The year of a day, and the day's index in it: cycles of 400, 100, 4 and 1 years.\<close>

definition year_of_days :: "int \<Rightarrow> int \<times> int" where
  "year_of_days d =
     (let n400 = d div 146097; r = d mod 146097;
          n100 = min 3 (r div 36524); r = r - 36524 * n100;
          n4 = r div 1461; r = r mod 1461;
          n1 = min 3 (r div 365)
      in (400 * n400 + 100 * n100 + 4 * n4 + n1 + 1, r - 365 * n1))"

fun month_day :: "int list \<Rightarrow> int \<Rightarrow> int \<Rightarrow> int \<times> int" where
  "month_day [] m d = (m, d + 1)"
| "month_day (n # ns) m d = (if d < n then (m, d + 1) else month_day ns (m + 1) (d - n))"

definition civil_of_days :: "int \<Rightarrow> int \<times> int \<times> int" where
  "civil_of_days d =
     (let (y, yd) = year_of_days d; (m, md) = month_day (month_lengths y) 1 yd in (y, m, md))"

section \<open>Format\<close>

text \<open>The layout \<open>2006-01-02T15:04:05Z07:00\<close>.\<close>

definition format_zone :: "int \<Rightarrow> string" where
  "format_zone off =
     (if off = 0 then ''Z''
      else let mins = \<bar>off\<bar> div 60
           in (if off < 0 then ''-'' else ''+'') @ append_int (mins div 60) 2
              @ '':'' @ append_int (mins mod 60) 2)"

definition format_rfc3339 :: "gotime \<Rightarrow> string" where
  "format_rfc3339 t =
     (let secs = inst t div second + zone t;
          (y, m, d) = civil_of_days (secs div 86400);
          sod = secs mod 86400
      in append_int y 4 @ ''-'' @ append_int m 2 @ ''-'' @ append_int d 2 @ ''T''
         @ append_int (sod div 3600) 2 @ '':'' @ append_int (sod mod 3600 div 60) 2
         @ '':'' @ append_int (sod mod 60) 2 @ format_zone (zone t))"

section \<open>Parse\<close>

definition expect :: "char \<Rightarrow> string \<Rightarrow> string option" where
  "expect c s = (case s of [] \<Rightarrow> None | x # r \<Rightarrow> if x = c then Some r else None)"

text \<open>\<open>getnum(s, fixed)\<close>: two digits, or one when not \<open>fixed\<close>.\<close>

fun getnum :: "bool \<Rightarrow> string \<Rightarrow> (int \<times> string) option" where
  "getnum fixed [] = None"
| "getnum fixed [a] =
     (case digit_val a of None \<Rightarrow> None | Some x \<Rightarrow> if fixed then None else Some (x, []))"
| "getnum fixed (a # b # r) =
     (case digit_val a of None \<Rightarrow> None
      | Some x \<Rightarrow> (case digit_val b of
            None \<Rightarrow> if fixed then None else Some (x, b # r)
          | Some y \<Rightarrow> Some (10 * x + y, r)))"

definition parse_year :: "string \<Rightarrow> (int \<times> string) option" where
  "parse_year s =
     (case getnum True s of None \<Rightarrow> None
      | Some (hi, r) \<Rightarrow> (case getnum True r of None \<Rightarrow> None
          | Some (lo, r) \<Rightarrow> Some (100 * hi + lo, r)))"

fun digits_val :: "int \<Rightarrow> string \<Rightarrow> int" where
  "digits_val acc [] = acc"
| "digits_val acc (c # cs) =
     digits_val (10 * acc + (case digit_val c of None \<Rightarrow> 0 | Some x \<Rightarrow> x)) cs"

text \<open>A fraction of a second the layout does not name: digits past the ninth are dropped.\<close>

definition parse_frac :: "string \<Rightarrow> int \<times> string" where
  "parse_frac s =
     (case s of a # b # r \<Rightarrow>
        if (a = CHR ''.'' \<or> a = CHR '','') \<and> is_digit b
        then (let ds = take 9 (takeWhile is_digit (b # r))
              in (digits_val 0 ds * 10 ^ (9 - length ds), dropWhile is_digit (b # r)))
        else (0, s)
      | _ \<Rightarrow> (0, s))"

definition parse_zone :: "string \<Rightarrow> int option" where
  "parse_zone s =
     (case s of [] \<Rightarrow> None
      | c # r \<Rightarrow>
          if c = CHR ''Z'' then (if r = [] then Some 0 else None)
          else
            Option.bind (getnum True r) (\<lambda>(hr, r).
            Option.bind (expect (CHR '':'') r) (\<lambda>r.
            Option.bind (getnum True r) (\<lambda>(mm, r).
              if hr > 24 \<or> mm > 60 \<or> r \<noteq> [] then None
              else if c = CHR ''+'' then Some ((hr * 60 + mm) * 60)
              else if c = CHR ''-'' then Some (- ((hr * 60 + mm) * 60))
              else None))))"

definition parse_rfc3339 :: "string \<Rightarrow> gotime option" where
  "parse_rfc3339 s =
     Option.bind (parse_year s) (\<lambda>(y, s).
     Option.bind (expect (CHR ''-'') s) (\<lambda>s.
     Option.bind (getnum True s) (\<lambda>(mo, s).
     if mo \<le> 0 \<or> 12 < mo then None else
     Option.bind (expect (CHR ''-'') s) (\<lambda>s.
     Option.bind (getnum True s) (\<lambda>(d, s).
     Option.bind (expect (CHR ''T'') s) (\<lambda>s.
     Option.bind (getnum False s) (\<lambda>(h, s).
     if h < 0 \<or> 24 \<le> h then None else
     Option.bind (expect (CHR '':'') s) (\<lambda>s.
     Option.bind (getnum True s) (\<lambda>(mi, s).
     if mi < 0 \<or> 60 \<le> mi then None else
     Option.bind (expect (CHR '':'') s) (\<lambda>s.
     Option.bind (getnum True s) (\<lambda>(sc, s).
     if sc < 0 \<or> 60 \<le> sc then None else
     (case parse_frac s of (nsec, s) \<Rightarrow>
     Option.bind (parse_zone s) (\<lambda>off.
     if d < 1 \<or> days_in mo y < d then None
     else Some (Time ((days_of_civil y mo d * 86400 + h * 3600 + mi * 60 + sc - off) * second + nsec)
                     off))))))))))))))"

text \<open>What a marker must be for the layout to print it: years 0 to 9999, offset in whole minutes.\<close>

definition valid_zone :: "int \<Rightarrow> bool" where
  "valid_zone off \<longleftrightarrow> off mod 60 = 0 \<and> \<bar>off\<bar> < 90000"

definition civil_year :: "gotime \<Rightarrow> int" where
  "civil_year t = fst (civil_of_days ((inst t div second + zone t) div 86400))"

definition printable :: "gotime \<Rightarrow> bool" where
  "printable t \<longleftrightarrow> 0 \<le> civil_year t \<and> civil_year t < 10000 \<and> valid_zone (zone t)"

section \<open>The calendar is exact\<close>

lemma year_of_days_correct:
  assumes "year_of_days d = (y, yd)"
  shows "d = days_before_year y + yd" and "0 \<le> yd" and "yd < (if leap y then 366 else 365)"
proof -
  define a where "a = d div 146097"
  define r where "r = d mod 146097"
  define b where "b = min 3 (r div 36524)"
  define r1 where "r1 = r - 36524 * b"
  define c where "c = r1 div 1461"
  define r2 where "r2 = r1 mod 1461"
  define e where "e = min 3 (r2 div 365)"
  have d: "d = 146097 * a + r" and r: "0 \<le> r" "r < 146097"
    by (simp_all add: a_def r_def)
  have b: "0 \<le> b" "b \<le> 3" "0 \<le> r1" "r1 \<le> 36524" "b < 3 \<Longrightarrow> r1 < 36524"
    using r unfolding b_def r1_def by (auto simp: min_def)
  have c: "r1 = 1461 * c + r2" "0 \<le> r2" "r2 < 1461"
    by (simp_all add: c_def r2_def)
  have c': "0 \<le> c" "c \<le> 24"
    using b(3) zdiv_mono1[OF b(4), of 1461] by (simp_all add: c_def pos_imp_zdiv_nonneg_iff)
  have c24: "r2 < 1460" if "c = 24" "b < 3"
    using b(5)[OF that(2)] c(1) that(1) by simp
  have e: "0 \<le> e" "e \<le> 3" "0 \<le> r2 - 365 * e" "e < 3 \<Longrightarrow> r2 - 365 * e < 365"
    "r2 - 365 * e \<le> 365"
    using c unfolding e_def by (auto simp: min_def)
  have eq: "y = 400 * a + 100 * b + 4 * c + e + 1" "yd = r2 - 365 * e"
    using assms by (simp_all only: year_of_days_def Let_def prod.inject
        flip: a_def r_def b_def r1_def c_def r2_def e_def)
  have q4: "(y - 1) div 4 = 100 * a + 25 * b + c"
    by (rule int_div_pos_eq[where r = e]) (use eq e in simp_all)
  have q100: "(y - 1) div 100 = 4 * a + b"
    by (rule int_div_pos_eq[where r = "4 * c + e"]) (use eq e c' in simp_all)
  have q400: "(y - 1) div 400 = a"
    by (rule int_div_pos_eq[where r = "100 * b + 4 * c + e"]) (use eq e c' b in simp_all)
  show "d = days_before_year y + yd"
    unfolding days_before_year_def q4 q100 q400 using eq d c r1_def by simp
  show "0 \<le> yd" using e eq by simp
  have "leap y" if "e = 3" "c < 24 \<or> b = 3"
  proof -
    have y: "y = 4 * (c + 1) + 100 * (4 * a + b)" "y = 4 * (100 * a + 25 * b + c + 1)"
      using eq that by simp_all
    have "y mod 100 = 4 * (c + 1) mod 100" unfolding y(1) by (rule mod_mult_self2)
    then have "y mod 100 \<noteq> 0" if "c < 24" using that c' by simp
    moreover have "y mod 400 = 0" if "c = 24" "b = 3"
    proof -
      have "y = 400 * (a + 1)" using y(1) that by simp
      then show ?thesis by simp
    qed
    moreover have "y mod 4 = 0" unfolding y(2) by simp
    ultimately show ?thesis using that c' unfolding leap_def by force
  qed
  moreover have "yd < 365" if "e = 3" "c = 24" "b < 3"
    using that c24 eq by simp
  ultimately show "yd < (if leap y then 366 else 365)"
    using e eq c' b(1,2) by (cases "e = 3") (force, auto)
qed

lemma nat_pred_diff: "nat (x - (m + 1)) = nat (x - m) - Suc 0"
  by arith

lemma month_day_correct:
  assumes "month_day ns m d = (m', d')" and "0 \<le> d" and "d < sum_list ns" 
  shows "m \<le> m'" and "m' < m + int (length ns)" and "1 \<le> d'" and "d' \<le> ns ! nat (m' - m)"
    and "sum_list (take (nat (m' - m)) ns) + (d' - 1) = d"
  using assms
proof (induction ns arbitrary: m d)
  case (Cons n ns)
  {
    case 1
    then show ?case using Cons.IH(1)[of "m + 1" "d - n"] by (auto split: if_splits)
  next
    case 2
    then show ?case using Cons.IH(2)[of "m + 1" "d - n"] by (auto split: if_splits)
  next
    case 3
    then show ?case using Cons.IH(3)[of "m + 1" "d - n"] by (auto split: if_splits)
  next
    case 4
    then show ?case
      using Cons.IH(1)[of "m + 1" "d - n"] Cons.IH(4)[of "m + 1" "d - n"]
      by (auto split: if_splits simp: nth_Cons' nat_pred_diff)
  next
    case 5
    then show ?case
      using Cons.IH(1)[of "m + 1" "d - n"] Cons.IH(5)[of "m + 1" "d - n"]
      by (auto split: if_splits simp: take_Cons' nat_pred_diff)
  }
qed auto

lemma civil_of_days_correct:
  assumes "civil_of_days n = (y, m, d)"
  shows "1 \<le> m" "m \<le> 12" "1 \<le> d" "d \<le> days_in m y" "days_of_civil y m d = n"
proof -
  obtain yd where yd: "year_of_days n = (y, yd)" and md: "month_day (month_lengths y) 1 yd = (m, d)"
    using assms by (auto simp: civil_of_days_def split: prod.splits)
  note Y = year_of_days_correct[OF yd]
  have "yd < sum_list (month_lengths y)"
    using Y(3) by (auto simp: month_lengths_def split: if_splits)
  note M = month_day_correct[OF md Y(2) this]
  show "1 \<le> m" "1 \<le> d" "d \<le> days_in m y" using M by (simp_all add: days_in_def)
  show "m \<le> 12" using M(2) by (simp add: month_lengths_def)
  show "days_of_civil y m d = n" using M(5) Y(1) by (simp add: days_of_civil_def)
qed

section \<open>The round trip\<close>

lemma digit_val_digit [simp]: "n < 10 \<Longrightarrow> digit_val (digit n) = Some (int n)"
  by (auto simp: digit_val_def digit_def Let_def)

lemma dec_nat_2: "n < 100 \<Longrightarrow> dec_nat n =
  (if n < 10 then [digit n] else [digit (n div 10), digit (n mod 10)])"
  by (subst dec_nat.simps, subst dec_nat.simps) auto

lemma append_int_2:
  assumes "0 \<le> x" "x < 100"
  shows "append_int x 2 = [digit (nat x div 10), digit (nat x mod 10)]"
proof -
  have "digit 0 = CHR ''0''" by code_simp
  then show ?thesis using assms by (auto simp: append_int_def Let_def dec_nat_2)
qed

lemma replicate_small: "replicate 2 x = [x, x]" "replicate 3 x = [x, x, x]"
  by (simp_all add: numeral_eq_Suc)

lemma mod_100: "n mod 100 div 10 = n div 10 mod 10" "n mod 100 mod 10 = n mod 10" for n :: nat
  using mod_mult2_eq[of n 10 10] by (simp_all add: mod_mod_cancel)

lemma append_int_4:
  assumes "0 \<le> x" "x < 10000"
  shows "append_int x 4 = append_int (x div 100) 2 @ append_int (x mod 100) 2"
proof -
  have z: "digit 0 = CHR ''0''" by code_simp
  have "append_int x 4 = [digit (nat x div 1000), digit (nat x div 100 mod 10),
      digit (nat x div 10 mod 10), digit (nat x mod 10)]"
  proof -
    define n where "n = nat x"
    have n: "n < 10000" "append_int x 4 = (let ds = dec_nat n in replicate (4 - length ds) (CHR ''0'') @ ds)"
      using assms by (auto simp: n_def append_int_def Let_def)
    have "dec_nat n = (if n < 100 then dec_nat n else if n < 1000
        then [digit (n div 100), digit (n div 10 mod 10), digit (n mod 10)]
        else [digit (n div 1000), digit (n div 100 mod 10), digit (n div 10 mod 10), digit (n mod 10)])"
    proof (cases "n < 1000")
      case True
      have "dec_nat n = dec_nat (n div 10) @ [digit (n mod 10)]" if "\<not> n < 100"
        using that by (subst dec_nat.simps) simp
      then show ?thesis using True by (auto simp: dec_nat_2 div_mult2_eq[symmetric])
    next
      case False
      have "dec_nat n = dec_nat (n div 10) @ [digit (n mod 10)]"
        using False by (subst dec_nat.simps) simp
      also have "dec_nat (n div 10) = dec_nat (n div 10 div 10) @ [digit (n div 10 mod 10)]"
      proof -
        have "\<not> n div 10 < 10" using False by linarith
        then show ?thesis by (subst dec_nat.simps) simp
      qed
      finally have "dec_nat n = dec_nat (n div 10 div 10) @ [digit (n div 10 mod 10), digit (n mod 10)]"
        by simp
      moreover have "n div 10 div 10 = n div 100" by (simp add: div_mult2_eq[symmetric])
      moreover have "\<not> n div 100 < 10" "n div 100 < 100" using False n(1) by simp_all
      ultimately show ?thesis using False by (simp add: dec_nat_2 div_mult2_eq[symmetric])
    qed
    then show ?thesis
      using n z by (auto simp: Let_def dec_nat_2 n_def[symmetric] replicate_small split: if_splits)
  qed
  moreover have "append_int (x div 100) 2 = [digit (nat x div 1000), digit (nat x div 100 mod 10)]"
    using assms zdiv_mono1[of x 9999 100]
    by (subst append_int_2) (simp_all add: nat_div_distrib div_mult2_eq[symmetric] pos_imp_zdiv_nonneg_iff)
  moreover have "append_int (x mod 100) 2 = [digit (nat x div 10 mod 10), digit (nat x mod 10)]"
    using assms mod_100[of "nat x"] by (simp add: append_int_2 nat_mod_distrib)
  ultimately show ?thesis by simp

qed

lemma getnum_append_int [simp]:
  assumes "0 \<le> x" "x < 100"
  shows "getnum f (append_int x 2 @ r) = Some (x, r)"
proof -
  have "10 * int (nat x div 10) + int (nat x mod 10) = int (10 * (nat x div 10) + nat x mod 10)"
    by (simp only: of_nat_add of_nat_mult of_nat_numeral)
  also have "\<dots> = x" using assms by (simp only: mult_div_mod_eq int_nat_eq if_True)
  finally have "10 * int (nat x div 10) + int (nat x mod 10) = x" .
  moreover have "nat x div 10 < 10" using assms by linarith
  ultimately show ?thesis using assms by (simp add: append_int_2)
qed

lemma parse_year_append_int [simp]:
  "0 \<le> y \<Longrightarrow> y < 10000 \<Longrightarrow> parse_year (append_int y 4 @ r) = Some (y, r)"
  by (simp add: parse_year_def append_int_4)

lemma expect_Cons [simp]: "expect c (c # r) = Some r"
  by (simp add: expect_def)

lemma parse_frac_zone [simp]: "parse_frac (format_zone off) = (0, format_zone off)"
  by (auto simp: parse_frac_def format_zone_def Let_def split: list.split)

lemma parse_zone_format [simp]:
  assumes "valid_zone off"
  shows "parse_zone (format_zone off) = Some off"
proof (cases "off = 0")
  case True
  then show ?thesis by (simp add: parse_zone_def format_zone_def)
next
  case False
  define m where "m = \<bar>off\<bar> div 60"
  have m: "0 \<le> m" "m < 1500" "\<bar>off\<bar> = m * 60"
    using assms unfolding m_def valid_zone_def by (auto simp: abs_if)
  have "append_int (m mod 60) 2 = append_int (m mod 60) 2 @ []" by simp
  then have "getnum True (append_int (m mod 60) 2) = Some (m mod 60, [])"
    using getnum_append_int[of "m mod 60" True "[]"] by simp
  moreover have "m div 60 * 60 + m mod 60 = m" by simp
  ultimately show ?thesis using False m
    by (auto simp: parse_zone_def format_zone_def Let_def m_def[symmetric])
qed

lemma days_in_le: "1 \<le> m \<Longrightarrow> m \<le> 12 \<Longrightarrow> days_in m y \<le> 31"
proof -
  assume "1 \<le> m" "m \<le> 12"
  then have "nat (m - 1) < length (month_lengths y)" by (simp add: month_lengths_def)
  then have "days_in m y \<in> set (month_lengths y)" unfolding days_in_def by (rule nth_mem)
  then show ?thesis by (auto simp: month_lengths_def split: if_splits)
qed

lemma parse_parts:
  assumes "0 \<le> y" "y < 10000" "1 \<le> m" "m \<le> 12" "1 \<le> d" "d \<le> days_in m y"
    "0 \<le> h" "h < 24" "0 \<le> mi" "mi < 60" "0 \<le> s" "s < 60" "valid_zone off"
  shows "parse_rfc3339 (append_int y 4 @ ''-'' @ append_int m 2 @ ''-'' @ append_int d 2 @ ''T''
      @ append_int h 2 @ '':'' @ append_int mi 2 @ '':'' @ append_int s 2 @ format_zone off)
    = Some (Time ((days_of_civil y m d * 86400 + h * 3600 + mi * 60 + s - off) * second) off)"
proof -
  have "d < 100" "m < 100" "h < 100" "mi < 100" "s < 100"
    using assms days_in_le[of m y] by simp_all
  then show ?thesis using assms by (simp add: parse_rfc3339_def)
qed

lemma parse_format:
  assumes "printable t"
  shows "parse_rfc3339 (format_rfc3339 t) = Some (Time (trunc_second (inst t)) (zone t))"
proof -
  define secs where "secs = inst t div second + zone t"
  obtain y m d where c: "civil_of_days (secs div 86400) = (y, m, d)"
    by (metis prod_cases3)
  define sod where "sod = secs mod 86400"
  note C = civil_of_days_correct[OF c]
  have y: "0 \<le> y" "y < 10000" and z: "valid_zone (zone t)"
    using assms c by (auto simp: printable_def civil_year_def secs_def)
  have d: "d < 100" using C days_in_le[of m y] by simp
  have s: "0 \<le> sod div 3600" "sod div 3600 < 24" "0 \<le> sod mod 3600 div 60"
    "sod mod 3600 div 60 < 60" "0 \<le> sod mod 60" "sod mod 60 < 60" "sod mod 60 < 100"
    by (auto simp: sod_def)
  have "sod mod 3600 div 60 * 60 + sod mod 60 = sod mod 3600"
    using div_mult_mod_eq[of "sod mod 3600" 60] by (simp add: mod_mod_cancel)
  then have "sod div 3600 * 3600 + sod mod 3600 div 60 * 60 + sod mod 60 = sod"
    using div_mult_mod_eq[of sod 3600] by linarith
  then have "secs div 86400 * 86400 + sod div 3600 * 3600 + sod mod 3600 div 60 * 60 + sod mod 60
      - zone t = inst t div second"
    using div_mult_mod_eq[of secs 86400] secs_def unfolding sod_def by linarith
  then have eq: "(days_of_civil y m d * 86400 + sod div 3600 * 3600 + sod mod 3600 div 60 * 60
      + sod mod 60 - zone t) * second = trunc_second (inst t)"
    by (simp only: C(5) trunc_second_def)
  have "format_rfc3339 t = append_int y 4 @ ''-'' @ append_int m 2 @ ''-'' @ append_int d 2 @ ''T''
      @ append_int (sod div 3600) 2 @ '':'' @ append_int (sod mod 3600 div 60) 2
      @ '':'' @ append_int (sod mod 60) 2 @ format_zone (zone t)"
    by (simp only: format_rfc3339_def Let_def c prod.case flip: secs_def sod_def)
  then show ?thesis
    by (simp only: parse_parts[OF y C(1-4) s(1-6) z] eq)
qed

end
