(* ===== verification/Meta.thy ===== *)
theory Meta
  imports Rfc3339
begin

text \<open>
  Package \<open>meta\<close> (src/pkg/meta/meta.go): finalizers, labels and annotations of an object's
  metadata, the create handshake (the pending, succeeded and failed markers), the pause and
  verbose switches and the management and deletion policies.  A nil map is \<open>None\<close>.  When the
  object's map is nil the code stores the caller's own map; that sharing is not modelled.
\<close>

record object_meta =
  om_name :: string
  om_namespace :: string
  om_uid :: string
  om_resource_version :: string
  om_labels :: "strmap option"
  om_annotations :: "strmap option"
  om_finalizers :: "string list"
  om_deletion :: "gotime option"
  om_creation :: gotime

section \<open>Keys and policies\<close>

definition key_external_name :: string where
  "key_external_name = ''krateo.io/external-name''"
definition key_create_pending :: string where
  "key_create_pending = ''krateo.io/external-create-pending''"
definition key_create_succeeded :: string where
  "key_create_succeeded = ''krateo.io/external-create-succeeded''"
definition key_create_failed :: string where
  "key_create_failed = ''krateo.io/external-create-failed''"
definition key_paused :: string where
  "key_paused = ''krateo.io/paused''"
definition key_verbose :: string where
  "key_verbose = ''krateo.io/connector-verbose''"
definition key_management_policy :: string where
  "key_management_policy = ''krateo.io/management-policy''"
definition key_deletion_policy :: string where
  "key_deletion_policy = ''krateo.io/deletion-policy''"

definition policy_default :: string where "policy_default = ''default''"
definition policy_observe_create_update :: string where
  "policy_observe_create_update = ''observe-create-update''"
definition policy_observe_delete :: string where "policy_observe_delete = ''observe-delete''"
definition policy_observe :: string where "policy_observe = ''observe''"
definition deletion_orphan :: string where "deletion_orphan = ''orphan''"
definition deletion_delete :: string where "deletion_delete = ''delete''"
definition action_create :: string where "action_create = ''create''"
definition action_update :: string where "action_update = ''update''"
definition action_delete :: string where "action_delete = ''delete''"

lemmas key_defs = key_external_name_def key_create_pending_def key_create_succeeded_def
  key_create_failed_def key_paused_def key_verbose_def key_management_policy_def
  key_deletion_policy_def

lemmas policy_defs = policy_default_def policy_observe_create_update_def
  policy_observe_delete_def policy_observe_def deletion_orphan_def deletion_delete_def
  action_create_def action_update_def action_delete_def

section \<open>Finalizers\<close>

definition finalizer_exists :: "'a object_meta_scheme \<Rightarrow> string \<Rightarrow> bool" where
  "finalizer_exists ob f \<longleftrightarrow> list_ex (\<lambda>e. e = f) (om_finalizers ob)"

definition add_finalizer :: "'a object_meta_scheme \<Rightarrow> string \<Rightarrow> 'a object_meta_scheme" where
  "add_finalizer ob f =
     (if list_ex (\<lambda>e. e = f) (om_finalizers ob) then ob
      else ob\<lparr>om_finalizers := om_finalizers ob @ [f]\<rparr>)"

text \<open>
  \<open>RemoveFinalizer\<close> ranges over the slice it shrinks.  The range reads the backing array
  (\<open>arr\<close>) at every index of the original slice, while \<open>append(f[:i], f[i+1:]...)\<close> moves the
  tail down in that same array and shortens the slice (\<open>n\<close> is its length).  Taking \<open>f[i+1:]\<close>
  past the shortened length panics: \<open>None\<close>.
\<close>

fun remove_loop :: "string \<Rightarrow> nat \<Rightarrow> nat \<Rightarrow> string list \<Rightarrow> nat \<Rightarrow> string list option" where
  "remove_loop x i 0 arr n = Some (take n arr)"
| "remove_loop x i (Suc k) arr n =
     (if arr ! i = x
      then (if n < i + 1 then None
            else remove_loop x (i + 1) k
                   (take i arr @ drop (i + 1) (take n arr) @ drop (n - 1) arr) (n - 1))
      else remove_loop x (i + 1) k arr n)"

definition remove_finalizer ::
  "'a object_meta_scheme \<Rightarrow> string \<Rightarrow> 'a object_meta_scheme option" where
  "remove_finalizer ob f =
     (let fs = om_finalizers ob
      in map_option (\<lambda>fs'. ob\<lparr>om_finalizers := fs'\<rparr>)
           (remove_loop f 0 (length fs) fs (length fs)))"

section \<open>Labels and annotations\<close>

text \<open>\<open>for k, v := range new { m[k] = v }\<close>\<close>

definition map_merge :: "strmap \<Rightarrow> strmap option \<Rightarrow> strmap" where
  "map_merge m new = Mapping.combine (\<lambda>_ v. v) m (map_norm new)"

definition map_remove :: "strmap \<Rightarrow> string list \<Rightarrow> strmap" where
  "map_remove m ks = fold Mapping.delete ks m"

definition add_labels :: "'a object_meta_scheme \<Rightarrow> strmap option \<Rightarrow> 'a object_meta_scheme" where
  "add_labels ob labels =
     (case om_labels ob of None \<Rightarrow> ob\<lparr>om_labels := labels\<rparr>
      | Some l \<Rightarrow> ob\<lparr>om_labels := Some (map_merge l labels)\<rparr>)"

definition remove_labels :: "'a object_meta_scheme \<Rightarrow> string list \<Rightarrow> 'a object_meta_scheme" where
  "remove_labels ob ks =
     (case om_labels ob of None \<Rightarrow> ob | Some l \<Rightarrow> ob\<lparr>om_labels := Some (map_remove l ks)\<rparr>)"

definition add_annotations ::
  "'a object_meta_scheme \<Rightarrow> strmap option \<Rightarrow> 'a object_meta_scheme" where
  "add_annotations ob anns =
     (case om_annotations ob of None \<Rightarrow> ob\<lparr>om_annotations := anns\<rparr>
      | Some a \<Rightarrow> ob\<lparr>om_annotations := Some (map_merge a anns)\<rparr>)"

definition remove_annotations ::
  "'a object_meta_scheme \<Rightarrow> string list \<Rightarrow> 'a object_meta_scheme" where
  "remove_annotations ob ks =
     (case om_annotations ob of None \<Rightarrow> ob
      | Some a \<Rightarrow> ob\<lparr>om_annotations := Some (map_remove a ks)\<rparr>)"

abbreviation annotation :: "'a object_meta_scheme \<Rightarrow> string \<Rightarrow> string" where
  "annotation ob k \<equiv> map_get (om_annotations ob) k"

definition singleton_map :: "string \<Rightarrow> string \<Rightarrow> strmap option" where
  "singleton_map k v = Some (Mapping.update k v Mapping.empty)"

section \<open>Life of the object\<close>

definition was_deleted :: "'a object_meta_scheme \<Rightarrow> bool" where
  "was_deleted ob \<longleftrightarrow> \<not> (case om_deletion ob of None \<Rightarrow> True | Some t \<Rightarrow> is_zero t)"

definition was_created :: "'a object_meta_scheme \<Rightarrow> bool" where
  "was_created ob \<longleftrightarrow> \<not> is_zero (om_creation ob)"

definition get_external_name :: "'a object_meta_scheme \<Rightarrow> string" where
  "get_external_name ob = annotation ob key_external_name"

definition set_external_name :: "'a object_meta_scheme \<Rightarrow> string \<Rightarrow> 'a object_meta_scheme" where
  "set_external_name ob n = add_annotations ob (singleton_map key_external_name n)"

section \<open>The create handshake\<close>

definition marker_time :: "string \<Rightarrow> gotime" where
  "marker_time s = (case parse_rfc3339 s of None \<Rightarrow> zero_time | Some t \<Rightarrow> t)"

definition get_create_pending :: "'a object_meta_scheme \<Rightarrow> gotime" where
  "get_create_pending ob = marker_time (annotation ob key_create_pending)"

definition set_create_pending :: "'a object_meta_scheme \<Rightarrow> gotime \<Rightarrow> 'a object_meta_scheme" where
  "set_create_pending ob t =
     add_annotations ob (singleton_map key_create_pending (format_rfc3339 t))"

definition get_create_succeeded :: "'a object_meta_scheme \<Rightarrow> gotime" where
  "get_create_succeeded ob = marker_time (annotation ob key_create_succeeded)"

definition set_create_succeeded :: "'a object_meta_scheme \<Rightarrow> gotime \<Rightarrow> 'a object_meta_scheme" where
  "set_create_succeeded ob t =
     add_annotations ob (singleton_map key_create_succeeded (format_rfc3339 t))"

definition get_create_failed :: "'a object_meta_scheme \<Rightarrow> gotime" where
  "get_create_failed ob = marker_time (annotation ob key_create_failed)"

definition set_create_failed :: "'a object_meta_scheme \<Rightarrow> gotime \<Rightarrow> 'a object_meta_scheme" where
  "set_create_failed ob t =
     add_annotations ob (singleton_map key_create_failed (format_rfc3339 t))"

text \<open>The comparison of \<open>ExternalCreateIncomplete\<close> on the three times.\<close>

definition incomplete_markers :: "gotime \<Rightarrow> gotime \<Rightarrow> gotime \<Rightarrow> bool" where
  "incomplete_markers pending succeeded failed =
     (if is_zero pending then False
      else let latest = (if after failed succeeded then failed else succeeded)
           in after pending latest)"

definition external_create_incomplete :: "'a object_meta_scheme \<Rightarrow> bool" where
  "external_create_incomplete ob =
     incomplete_markers (get_create_pending ob) (get_create_succeeded ob) (get_create_failed ob)"

definition create_succeeded_during :: "instant \<Rightarrow> 'a object_meta_scheme \<Rightarrow> duration \<Rightarrow> bool" where
  "create_succeeded_during now ob d =
     (let t = get_create_succeeded ob
      in if is_zero t then False else time_sub now (inst t) < d)"

definition create_pending_during :: "instant \<Rightarrow> 'a object_meta_scheme \<Rightarrow> duration \<Rightarrow> bool" where
  "create_pending_during now ob d =
     (let t = get_create_pending ob
      in if is_zero t then False else time_sub now (inst t) < d)"

section \<open>Switches and policies\<close>

definition is_paused :: "'a object_meta_scheme \<Rightarrow> bool" where
  "is_paused ob \<longleftrightarrow> annotation ob key_paused = ''true''"

definition is_verbose :: "'a object_meta_scheme \<Rightarrow> bool" where
  "is_verbose ob \<longleftrightarrow> annotation ob key_verbose = ''true''"

text \<open>The first lines of the policy functions: an absent or empty policy is the default one.\<close>

definition management_policy :: "'a object_meta_scheme \<Rightarrow> string" where
  "management_policy ob =
     (let p = annotation ob key_management_policy in if p = [] then policy_default else p)"

definition deletion_policy :: "'a object_meta_scheme \<Rightarrow> string" where
  "deletion_policy ob =
     (let p = annotation ob key_deletion_policy in if p = [] then deletion_delete else p)"

definition is_action_allowed :: "'a object_meta_scheme \<Rightarrow> string \<Rightarrow> bool" where
  "is_action_allowed ob action =
     (let p = management_policy ob
      in if action = action_create \<or> action = action_update
         then p = policy_default \<or> p = policy_observe_create_update
         else p = policy_default \<or> p = policy_observe_delete)"

definition should_delete :: "'a object_meta_scheme \<Rightarrow> bool" where
  "should_delete ob =
     (let mp = management_policy ob; dp = deletion_policy ob
      in if dp = deletion_delete \<and> mp = policy_default then True
         else if mp = policy_observe_delete then True
         else False)"

definition should_only_observe :: "'a object_meta_scheme \<Rightarrow> bool" where
  "should_only_observe ob \<longleftrightarrow> management_policy ob = policy_observe"

definition should_create :: "'a object_meta_scheme \<Rightarrow> bool" where
  "should_create ob =
     (let mp = management_policy ob in mp = policy_default \<or> mp = policy_observe_create_update)"

definition should_update :: "'a object_meta_scheme \<Rightarrow> bool" where
  "should_update ob =
     (let mp = management_policy ob in mp = policy_default \<or> mp = policy_observe_create_update)"

section \<open>Maps and annotations\<close>

lemma lookup_map_merge:
  "Mapping.lookup (map_merge m new) k =
     (case Mapping.lookup (map_norm new) k of None \<Rightarrow> Mapping.lookup m k | Some v \<Rightarrow> Some v)"
  by (cases "Mapping.lookup (map_norm new) k"; cases "Mapping.lookup m k")
    (simp_all add: map_merge_def lookup_combine combine_options_def)

lemma lookup_map_remove:
  "Mapping.lookup (map_remove m ks) k = (if k \<in> set ks then None else Mapping.lookup m k)"
  unfolding map_remove_def
  by (induction ks arbitrary: m) (auto simp: Mapping.lookup_delete_neq)

lemma map_get_add_annotations:
  "map_get (om_annotations (add_annotations ob anns)) k =
     (case Mapping.lookup (map_norm anns) k of None \<Rightarrow> annotation ob k | Some v \<Rightarrow> v)"
  by (auto simp: add_annotations_def map_get_def map_norm_def lookup_map_merge lookup_empty
      split: option.splits)

lemma annotation_add_single [simp]:
  "map_get (om_annotations (add_annotations ob (singleton_map k v))) k' =
     (if k = k' then v else annotation ob k')"
  by (simp add: map_get_add_annotations singleton_map_def map_norm_def lookup_update' lookup_empty)

lemma annotation_remove [simp]:
  "map_get (om_annotations (remove_annotations ob ks)) k =
     (if k \<in> set ks then [] else annotation ob k)"
  by (auto simp: remove_annotations_def map_get_def lookup_map_remove split: option.splits)

lemma annotations_only [simp]:
  "om_deletion (add_annotations ob anns) = om_deletion ob"
  "om_finalizers (add_annotations ob anns) = om_finalizers ob"
  "object_meta.more (add_annotations ob anns) = object_meta.more ob"
  "om_deletion (remove_annotations ob ks) = om_deletion ob"
  "om_finalizers (remove_annotations ob ks) = om_finalizers ob"
  "object_meta.more (remove_annotations ob ks) = object_meta.more ob"
  by (simp_all add: add_annotations_def remove_annotations_def split: option.split)

section \<open>The create handshake\<close>

text \<open>What a written marker reads back as.\<close>

definition stored_marker :: "gotime \<Rightarrow> gotime" where
  "stored_marker t = Time (trunc_second (inst t)) (zone t)"

lemma marker_time_format: "printable t \<Longrightarrow> marker_time (format_rfc3339 t) = stored_marker t"
  by (simp add: marker_time_def stored_marker_def parse_format)

lemma marker_time_Nil [simp]: "marker_time [] = zero_time"
  by (simp add: marker_time_def parse_rfc3339_def parse_year_def)

lemma trunc_second_mono: "a \<le> b \<Longrightarrow> trunc_second a \<le> trunc_second b"
  by (simp add: trunc_second_def zdiv_mono1)

lemma trunc_second_bounds: "trunc_second a \<le> a" "a < trunc_second a + second"
  using div_mult_mod_eq[of a second] by (simp_all add: trunc_second_def)

text \<open>
  Three markers, each read back as it was stored and none touched by writing another: all that
  the reasoning about the handshake needs of the object.
\<close>

locale create_markers =
  fixes get_p get_s get_f :: "'o \<Rightarrow> gotime"
    and set_p set_s set_f :: "'o \<Rightarrow> gotime \<Rightarrow> 'o"
  assumes p_p: "printable t \<Longrightarrow> get_p (set_p ob t) = stored_marker t"
    and s_p: "get_s (set_p ob t) = get_s ob"
    and f_p: "get_f (set_p ob t) = get_f ob"
    and p_s: "get_p (set_s ob t) = get_p ob"
    and s_s: "printable t \<Longrightarrow> get_s (set_s ob t) = stored_marker t"
    and f_s: "get_f (set_s ob t) = get_f ob"
    and p_f: "get_p (set_f ob t) = get_p ob"
    and s_f: "get_s (set_f ob t) = get_s ob"
    and f_f: "printable t \<Longrightarrow> get_f (set_f ob t) = stored_marker t"
begin

definition unresolved :: "'o \<Rightarrow> bool" where
  "unresolved ob \<longleftrightarrow> incomplete_markers (get_p ob) (get_s ob) (get_f ob)"

lemma unresolved_iff:
  "unresolved ob \<longleftrightarrow> inst (get_p ob) \<noteq> 0
     \<and> inst (get_s ob) < inst (get_p ob) \<and> inst (get_f ob) < inst (get_p ob)"
  by (auto simp: unresolved_def incomplete_markers_def is_zero_def after_def Let_def)

lemma open_handshake:
  assumes "printable t" and "trunc_second (inst t) \<noteq> 0"
  shows "unresolved (set_p ob t) \<longleftrightarrow>
    inst (get_s ob) < trunc_second (inst t) \<and> inst (get_f ob) < trunc_second (inst t)"
  using assms by (simp add: unresolved_iff p_p s_p f_p stored_marker_def)

lemma close_succeeded:
  assumes "printable t" "printable t'" "inst t \<le> inst t'"
  shows "\<not> unresolved (set_s (set_p ob t) t')"
  using assms trunc_second_mono[OF assms(3)]
  by (simp add: unresolved_iff p_s p_p s_s stored_marker_def)

lemma close_failed:
  assumes "printable t" "printable t'" "inst t \<le> inst t'"
  shows "\<not> unresolved (set_f (set_p ob t) t')"
  using assms trunc_second_mono[OF assms(3)]
  by (simp add: unresolved_iff p_f p_p f_f stored_marker_def)

lemma adopt:
  assumes "printable t'" "inst (get_p ob) = trunc_second (inst (get_p ob))"
    and "inst (get_p ob) \<le> inst t'"
  shows "\<not> unresolved (set_s ob t')"
  using assms trunc_second_mono[OF assms(3)]
  by (simp add: unresolved_iff p_s s_s stored_marker_def)

end

lemma marker_keys_distinct [simp]:
  "key_create_pending \<noteq> key_create_succeeded" "key_create_succeeded \<noteq> key_create_pending"
  "key_create_pending \<noteq> key_create_failed" "key_create_failed \<noteq> key_create_pending"
  "key_create_succeeded \<noteq> key_create_failed" "key_create_failed \<noteq> key_create_succeeded"
  by (simp_all add: key_defs)

lemmas marker_defs = get_create_pending_def get_create_succeeded_def get_create_failed_def
  set_create_pending_def set_create_succeeded_def set_create_failed_def

interpretation markers: create_markers get_create_pending get_create_succeeded get_create_failed
  set_create_pending set_create_succeeded set_create_failed
  by unfold_locales (simp_all add: marker_defs marker_time_format)

lemma unresolved_is_incomplete [simp]: "markers.unresolved ob = external_create_incomplete ob"
  by (simp add: markers.unresolved_def external_create_incomplete_def)

section \<open>Finalizers\<close>

lemma finalizer_exists_iff: "finalizer_exists ob f \<longleftrightarrow> f \<in> set (om_finalizers ob)"
  by (auto simp: finalizer_exists_def list_ex_iff)

lemma remove_loop_absent:
  assumes "i + k = length arr" "\<And>j. i \<le> j \<Longrightarrow> j < length arr \<Longrightarrow> arr ! j \<noteq> x"
  shows "remove_loop x i k arr n = Some (take n arr)"
  using assms by (induction k arbitrary: i) auto

text \<open>
  What the removal keeps: every copy goes, but the element after a removed one is stepped over.
\<close>

fun skim :: "'a \<Rightarrow> 'a list \<Rightarrow> 'a list" where
  "skim x [] = []"
| "skim x [y] = (if y = x then [] else [y])"
| "skim x (y # z # zs) = (if y = x then z # skim x zs else y # skim x (z # zs))"

lemma skim_absent: "x \<notin> set xs \<Longrightarrow> skim x xs = xs"
  by (induction x xs rule: skim.induct) auto

lemma skim_distinct: "distinct xs \<Longrightarrow> skim x xs = removeAll x xs"
  by (induction x xs rule: skim.induct) (auto simp: skim_absent removeAll_id)

text \<open>A copy stays exactly when two copies are neighbours.\<close>

fun twins :: "'a \<Rightarrow> 'a list \<Rightarrow> bool" where
  "twins x (y # z # zs) \<longleftrightarrow> y = x \<and> z = x \<or> twins x (z # zs)"
| "twins x _ \<longleftrightarrow> False"

lemma twins_iff: "twins x xs \<longleftrightarrow> (\<exists>pre post. xs = pre @ x # x # post)"
  by (induction x xs rule: twins.induct) (auto simp: Cons_eq_append_conv)

lemma skim_leaves: "x \<in> set (skim x xs) \<longleftrightarrow> twins x xs"
proof (induction x xs rule: skim.induct)
  case (3 x y z zs)
  then show ?case by (cases zs) auto
qed auto

text \<open>
  The backing array is what is kept, what is still to read and one stale copy of the last element
  for each removal so far.  The loop reads those too: when the last element is the finalizer and
  something has been removed before it, it cuts past the end.
\<close>

lemma remove_loop_result:
  assumes "rest \<noteq> [] \<Longrightarrow> 0 < d \<Longrightarrow> z = last rest"
  shows "remove_loop x (length done) (length rest + d) (done @ rest @ replicate d z) (length done + length rest)
    = (if (if rest = [] then 0 < d \<and> z = x else last rest = x \<and> (0 < d \<or> 2 \<le> count_list rest x))
       then None else Some (done @ skim x rest))"
  using assms
proof (induction x rest arbitrary: "done" d z rule: skim.induct)
  case (1 x)
  show ?case
  proof (cases "z = x")
    case True
    then show ?thesis by (cases d) (simp_all add: nth_append)
  next
    case False
    then show ?thesis
      using remove_loop_absent[of "length done" d "done @ replicate d z" x "length done"] by (simp add: nth_append)
  qed
next
  case (2 x y)
  show ?case
  proof (cases "y = x")
    case True
    with 2 show ?thesis by (cases d) (simp_all add: nth_append)
  next
    case False
    then show ?thesis using 2 remove_loop_absent[of "Suc (length done)" d "done @ y # replicate d z" x "Suc (length done)"]
      by (cases d) (auto simp: nth_append nth_Cons')
  qed
next
  case (3 x y w zs)
  let ?arr = "done @ (y # w # zs) @ replicate d z" and ?i = "length done" and ?n = "length done + length (y # w # zs)"
  show ?case
  proof (cases "y = x")
    case True
    let ?arr' = "take ?i ?arr @ drop (?i + 1) (take ?n ?arr) @ drop (?n - 1) ?arr"
    have z: "z = last (w # zs)" if "0 < d" using 3(3) that by simp
    have "?arr' = (done @ [w]) @ zs @ replicate (Suc d) (last (w # zs))"
      using z by (cases zs rule: rev_cases; cases d) (simp_all add: numeral_eq_Suc)
    then have "remove_loop x ?i (length (y # w # zs) + d) ?arr ?n
        = remove_loop x (length (done @ [w])) (length zs + Suc d)
            ((done @ [w]) @ zs @ replicate (Suc d) (last (w # zs))) (length (done @ [w]) + length zs)"
      using True by simp
    also have "\<dots> = (if (if zs = [] then 0 < Suc d \<and> last (w # zs) = x else last zs = x \<and> (0 < Suc d \<or> 2 \<le> count_list zs x))
        then None else Some ((done @ [w]) @ skim x zs))"
      using True by (intro 3(1)) auto
    finally show ?thesis using True by (auto simp: count_list_0_iff Suc_le_eq)
  next
    case False
    then show ?thesis using 3(2)[of d z "done @ [y]"] 3(3) by (simp del: skim.simps(2))
  qed
qed

lemma remove_finalizer_eq:
  "remove_finalizer ob f = (let fs = om_finalizers ob in
     if 2 \<le> count_list fs f \<and> last fs = f then None else Some (ob\<lparr>om_finalizers := skim f fs\<rparr>))"
  using remove_loop_result[of "om_finalizers ob" 0 undefined f "[]"]
  by (auto simp: remove_finalizer_def Let_def)

lemma remove_finalizer_distinct:
  assumes "distinct (om_finalizers ob)"
  shows "remove_finalizer ob f = Some (ob\<lparr>om_finalizers := removeAll f (om_finalizers ob)\<rparr>)"
proof -
  have "count_list xs f \<le> 1" if "distinct xs" for xs using that by (induction xs) auto
  from this[OF assms] have "\<not> 2 \<le> count_list (om_finalizers ob) f" by simp
  then show ?thesis by (simp add: remove_finalizer_eq skim_distinct assms Let_def)
qed

section \<open>Policies\<close>

lemmas policy_simps = is_action_allowed_def should_delete_def should_only_observe_def
  should_create_def should_update_def policy_defs Let_def

lemma should_update_iff_create: "should_update ob = should_create ob"
  by (simp add: should_update_def should_create_def)

lemma only_observe_excludes:
  "should_only_observe ob \<Longrightarrow> \<not> should_create ob"
  "should_only_observe ob \<Longrightarrow> \<not> should_update ob"
  "should_only_observe ob \<Longrightarrow> \<not> should_delete ob"
  by (auto simp: policy_simps)

end
