(* ===== verification/Conditions.thy ===== *)
theory Conditions
  imports Rfc3339
begin

text \<open>
  The condition model of src/apis/common/v1/condition.go (\<open>Condition\<close>, \<open>ConditionedStatus\<close> and
  the constructors the runtime uses) and the slice helpers of src/pkg/resource/conditions.go.
  \<open>metav1.Now()\<close> is the argument \<open>now\<close> of the constructors.
\<close>

record condition =
  c_type :: string
  c_status :: string
  c_last_transition :: gotime
  c_reason :: string
  c_message :: string

definition type_ready :: string where "type_ready = ''Ready''"
definition type_synced :: string where "type_synced = ''Synced''"

definition status_true :: string where "status_true = ''True''"
definition status_false :: string where "status_false = ''False''"
definition status_unknown :: string where "status_unknown = ''Unknown''"

definition reason_available :: string where "reason_available = ''Available''"
definition reason_unavailable :: string where "reason_unavailable = ''Unavailable''"
definition reason_creating :: string where "reason_creating = ''Creating''"
definition reason_deleting :: string where "reason_deleting = ''Deleting''"
definition reason_not_observed :: string where "reason_not_observed = ''NotObserved''"
definition reason_reconcile_success :: string where "reason_reconcile_success = ''ReconcileSuccess''"
definition reason_reconcile_error :: string where "reason_reconcile_error = ''ReconcileError''"
definition reason_reconcile_paused :: string where "reason_reconcile_paused = ''ReconcilePaused''"
definition reason_reconcile_deferred :: string where "reason_reconcile_deferred = ''ReconcileDeferred''"

lemmas condition_consts = type_ready_def type_synced_def status_true_def status_false_def
  status_unknown_def reason_available_def reason_unavailable_def reason_creating_def
  reason_deleting_def reason_not_observed_def reason_reconcile_success_def
  reason_reconcile_error_def reason_reconcile_paused_def reason_reconcile_deferred_def

definition condition_equal :: "condition \<Rightarrow> condition \<Rightarrow> bool" where
  "condition_equal c d \<longleftrightarrow> c_type c = c_type d \<and> c_status c = c_status d \<and>
     c_reason c = c_reason d \<and> c_message c = c_message d"

definition with_condition_message :: "condition \<Rightarrow> string \<Rightarrow> condition" where
  "with_condition_message c msg = c\<lparr>c_message := msg\<rparr>"

section \<open>The conditioned status\<close>

fun get_condition :: "condition list \<Rightarrow> string \<Rightarrow> condition" where
  "get_condition [] ct = \<lparr>c_type = ct, c_status = status_unknown, c_last_transition = zero_time,
     c_reason = [], c_message = []\<rparr>"
| "get_condition (c # cs) ct = (if c_type c = ct then c else get_condition cs ct)"

text \<open>The inner loop of \<open>SetConditions\<close>: every condition of the type is replaced unless equal.\<close>

definition set_condition :: "condition \<Rightarrow> condition list \<Rightarrow> condition list" where
  "set_condition new cs =
     (let cs' = map (\<lambda>e. if c_type e \<noteq> c_type new then e
                         else if condition_equal e new then e else new) cs
      in if list_ex (\<lambda>e. c_type e = c_type new) cs then cs' else cs' @ [new])"

definition set_conditions :: "condition list \<Rightarrow> condition list \<Rightarrow> condition list" where
  "set_conditions cs new = fold set_condition new cs"

definition new_conditioned_status :: "condition list \<Rightarrow> condition list" where
  "new_conditioned_status new = set_conditions [] new"

text \<open>
  \<open>ConditionedStatus.Equal\<close>; a nil receiver or argument is \<open>None\<close>.  \<open>sort.Slice\<close> is not stable:
  on two conditions of one type the code's order is unspecified, the model's is the stable one.
\<close>

definition status_equal :: "condition list option \<Rightarrow> condition list option \<Rightarrow> bool" where
  "status_equal s other =
     (case (s, other) of
        (Some sc, Some oc) \<Rightarrow>
          length oc = length sc \<and>
          list_all2 condition_equal (sort_key c_type sc) (sort_key c_type oc)
      | _ \<Rightarrow> s = None \<and> other = None)"

section \<open>Constructors\<close>

definition mk_condition :: "string \<Rightarrow> string \<Rightarrow> string \<Rightarrow> string \<Rightarrow> gotime \<Rightarrow> condition" where
  "mk_condition ct st reason msg now = \<lparr>c_type = ct, c_status = st, c_last_transition = now,
     c_reason = reason, c_message = msg\<rparr>"

definition cond_creating :: "gotime \<Rightarrow> condition" where
  "cond_creating = mk_condition type_ready status_false reason_creating []"
definition cond_deleting :: "gotime \<Rightarrow> condition" where
  "cond_deleting = mk_condition type_ready status_false reason_deleting []"
definition cond_available :: "gotime \<Rightarrow> condition" where
  "cond_available = mk_condition type_ready status_true reason_available []"
definition cond_unavailable :: "gotime \<Rightarrow> condition" where
  "cond_unavailable = mk_condition type_ready status_false reason_unavailable []"

definition message_not_observed :: string where
  "message_not_observed =
     ''The external resource could not be observed; see the Synced condition for the error.''"

definition cond_not_observed :: "gotime \<Rightarrow> condition" where
  "cond_not_observed = mk_condition type_ready status_unknown reason_not_observed message_not_observed"
definition cond_reconcile_success :: "gotime \<Rightarrow> condition" where
  "cond_reconcile_success = mk_condition type_synced status_true reason_reconcile_success []"
definition cond_reconcile_error :: "string \<Rightarrow> gotime \<Rightarrow> condition" where
  "cond_reconcile_error msg = mk_condition type_synced status_false reason_reconcile_error msg"
definition cond_reconcile_deferred :: "string \<Rightarrow> gotime \<Rightarrow> condition" where
  "cond_reconcile_deferred msg = mk_condition type_synced status_false reason_reconcile_deferred msg"
definition cond_reconcile_paused :: "gotime \<Rightarrow> condition" where
  "cond_reconcile_paused = mk_condition type_synced status_false reason_reconcile_paused []"

lemmas condition_ctor_defs = cond_creating_def cond_deleting_def cond_available_def
  cond_unavailable_def cond_not_observed_def cond_reconcile_success_def
  cond_reconcile_error_def cond_reconcile_deferred_def cond_reconcile_paused_def mk_condition_def

section \<open>The slice helpers of package resource\<close>

fun upsert_condition :: "condition \<Rightarrow> condition list \<Rightarrow> condition list" where
  "upsert_condition c [] = [c]"
| "upsert_condition c (e # es) = (if c_type e = c_type c then c # es else e # upsert_condition c es)"

fun upsert_condition_message :: "condition \<Rightarrow> condition list \<Rightarrow> condition list" where
  "upsert_condition_message c [] = [c]"
| "upsert_condition_message c (e # es) =
     (if c_type e = c_type c then e\<lparr>c_message := c_message e @ '', '' @ c_message c\<rparr> # es
      else e # upsert_condition_message c es)"

definition join_conditions :: "condition list \<Rightarrow> condition list \<Rightarrow> condition list" where
  "join_conditions cs others = fold upsert_condition others cs"

fun remove_condition :: "string \<Rightarrow> condition list \<Rightarrow> condition list" where
  "remove_condition ct [] = []"
| "remove_condition ct (e # es) = (if c_type e = ct then es else e # remove_condition ct es)"

section \<open>A store with one condition per type\<close>

text \<open>
  What the reconciler relies on: what it writes reads back (up to the transition time, which an
  unchanged condition keeps), other types are left alone, and types stay unique.
\<close>

locale condition_store =
  fixes put :: "condition \<Rightarrow> 'cs \<Rightarrow> 'cs"
    and get :: "'cs \<Rightarrow> string \<Rightarrow> condition"
    and wf :: "'cs \<Rightarrow> bool"
  assumes get_put: "condition_equal (get (put c s) (c_type c)) c"
    and get_put_other: "ct \<noteq> c_type c \<Longrightarrow> get (put c s) ct = get s ct"
    and put_wf: "wf s \<Longrightarrow> wf (put c s)"
begin

lemma get_fold_other:
  "(\<And>c. c \<in> set new \<Longrightarrow> ct \<noteq> c_type c) \<Longrightarrow> get (fold put new s) ct = get s ct"
  by (induction new arbitrary: s) (simp_all add: get_put_other)

lemma get_fold_last:
  assumes "c_type d \<noteq> c_type c"
  shows "condition_equal (get (fold put [c, d] s) (c_type c)) c"
  using assms get_put[of c s] by (simp add: get_put_other)

lemma fold_wf: "wf s \<Longrightarrow> wf (fold put new s)"
  by (induction new arbitrary: s) (simp_all add: put_wf)

end

definition unique_types :: "condition list \<Rightarrow> bool" where
  "unique_types cs \<longleftrightarrow> distinct (map c_type cs)"

lemma condition_equal_refl [simp]: "condition_equal c c"
  by (simp add: condition_equal_def)

lemma condition_equal_sym: "condition_equal c d \<Longrightarrow> condition_equal d c"
  by (simp add: condition_equal_def)

lemma c_type_get_condition [simp]: "c_type (get_condition cs ct) = ct"
  by (induction cs) auto

lemma get_condition_in: "\<exists>c\<in>set cs. c_type c = ct \<Longrightarrow> get_condition cs ct \<in> set cs"
  by (induction cs) auto

lemma get_condition_append:
  "get_condition (cs @ ds) ct =
     (if \<exists>c\<in>set cs. c_type c = ct then get_condition cs ct else get_condition ds ct)"
  by (induction cs) auto

lemma get_map_replace:
  "get_condition (map (\<lambda>e. if c_type e \<noteq> c_type new then e
     else if condition_equal e new then e else new) cs) ct =
   (if ct = c_type new \<and> (\<exists>e\<in>set cs. c_type e = ct)
    then (if condition_equal (get_condition cs ct) new then get_condition cs ct else new)
    else get_condition cs ct)"
  by (induction cs) auto

lemma get_condition_absent:
  "\<not> (\<exists>c\<in>set cs. c_type c = ct) \<Longrightarrow> get_condition cs ct = get_condition [] ct"
  by (induction cs) auto

lemma get_set_condition:
  "get_condition (set_condition new cs) ct =
     (if ct = c_type new
      then (if (\<exists>e\<in>set cs. c_type e = ct) \<and> condition_equal (get_condition cs ct) new
            then get_condition cs ct else new)
      else get_condition cs ct)"
proof (cases "\<exists>e\<in>set cs. c_type e = c_type new")
  case True
  then have "list_ex (\<lambda>e. c_type e = c_type new) cs" by (auto simp: list_ex_iff)
  then show ?thesis using True unfolding set_condition_def Let_def by (auto simp: get_map_replace)
next
  case False
  then have "set_condition new cs = cs @ [new]"
    by (auto simp: set_condition_def Let_def list_ex_iff intro: map_idI)
  then show ?thesis using False get_condition_absent[of cs ct] by (auto simp: get_condition_append)
qed

lemma types_set_condition:
  "map c_type (set_condition new cs) =
     (if \<exists>e\<in>set cs. c_type e = c_type new then map c_type cs else map c_type cs @ [c_type new])"
  by (auto simp: set_condition_def Let_def list_ex_iff)

lemma unique_set_condition: "unique_types cs \<Longrightarrow> unique_types (set_condition new cs)"
  by (auto simp: unique_types_def types_set_condition)

interpretation conds: condition_store set_condition get_condition unique_types
  by unfold_locales (auto simp: get_set_condition unique_set_condition)

lemma get_upsert_condition:
  "get_condition (upsert_condition new cs) ct =
     (if ct = c_type new then new else get_condition cs ct)"
  by (induction cs) auto

lemma types_upsert_condition:
  "map c_type (upsert_condition new cs) =
     (if \<exists>e\<in>set cs. c_type e = c_type new then map c_type cs else map c_type cs @ [c_type new])"
  by (induction cs) auto

interpretation upserts: condition_store upsert_condition get_condition unique_types
  by unfold_locales (auto simp: get_upsert_condition unique_types_def types_upsert_condition)

section \<open>Equality of two statuses\<close>

lemma get_condition_member:
  "unique_types cs \<Longrightarrow> c \<in> set cs \<Longrightarrow> get_condition cs (c_type c) = c"
  by (induction cs) (auto simp: unique_types_def)

lemma sorted_types_unique:
  assumes "unique_types a" "unique_types b" "c_type ` set a = c_type ` set b"
  shows "map c_type (sort_key c_type a) = map c_type (sort_key c_type b)"
proof (rule sorted_distinct_set_unique)
  show "distinct (map c_type (sort_key c_type a))" "distinct (map c_type (sort_key c_type b))"
    using assms(1,2) by (simp_all add: unique_types_def distinct_map)
qed (use assms(3) in simp_all)

lemma status_equal_same_types:
  assumes "unique_types a" "unique_types b" "c_type ` set a = c_type ` set b"
    and "\<forall>ct. condition_equal (get_condition a ct) (get_condition b ct)"
  shows "status_equal (Some a) (Some b)"
proof -
  let ?a = "sort_key c_type a" and ?b = "sort_key c_type b"
  have eq: "map c_type ?a = map c_type ?b" by (rule sorted_types_unique) fact+
  then have len: "length ?a = length ?b" by (metis length_map)
  have "condition_equal (?a ! i) (?b ! i)" if "i < length ?a" for i
  proof -
    have "?a ! i \<in> set a" "?b ! i \<in> set b"
      using that len by (metis nth_mem set_sort)+
    moreover have "c_type (?a ! i) = c_type (?b ! i)"
      using eq that len by (metis nth_map)
    ultimately show ?thesis
      using assms(4) get_condition_member[OF assms(1)] get_condition_member[OF assms(2)] by metis
  qed
  then show ?thesis using len by (simp add: status_equal_def list_all2_conv_all_nth)
qed

lemma status_equal_conditions:
  assumes "unique_types a" "unique_types b" "status_equal (Some a) (Some b)"
  shows "c_type ` set a = c_type ` set b"
    and "condition_equal (get_condition a ct) (get_condition b ct)"
proof -
  let ?a = "sort_key c_type a" and ?b = "sort_key c_type b"
  have all: "list_all2 condition_equal ?a ?b" using assms(3) by (simp add: status_equal_def)
  then have "map c_type ?a = map c_type ?b"
    by (induction rule: list_all2_induct) (auto simp: condition_equal_def)
  then have "set (map c_type ?a) = set (map c_type ?b)" by (rule arg_cong)
  then show types: "c_type ` set a = c_type ` set b" by simp
  show "condition_equal (get_condition a ct) (get_condition b ct)"
  proof (cases "ct \<in> c_type ` set a")
    case True
    then obtain c where c: "c \<in> set ?a" "c_type c = ct" by auto
    then obtain i where i: "i < length ?a" "?a ! i = c" by (meson in_set_conv_nth)
    define d where "d = ?b ! i"
    have d: "d \<in> set ?b" "condition_equal c d"
      using list_all2_nthD[OF all i(1)] list_all2_lengthD[OF all] i by (auto simp: d_def simp del: set_sort)
    then have "c_type d = ct" using c by (simp add: condition_equal_def)
    then have "get_condition a ct = c" "get_condition b ct = d"
      using get_condition_member[OF assms(1), of c] get_condition_member[OF assms(2), of d] c d
      by simp_all
    then show ?thesis using d by simp
  next
    case False
    then have "get_condition a ct = get_condition [] ct" "get_condition b ct = get_condition [] ct"
      using types by (intro get_condition_absent; auto)+
    then show ?thesis by simp
  qed
qed

end
