(* ===== verification/Errors.thy ===== *)
theory Errors
  imports Prelude
begin

text \<open>
  Package \<open>errors\<close> (src/pkg/errors/errors.go), the error filters of src/pkg/resource/resource.go
  and the \<open>ReadyAssessed\<close> marker of src/pkg/reconciler/ready.go.

  A non-nil error is an \<open>err\<close>, a possibly-nil one an \<open>err option\<close>.  The errors this module makes
  are \<open>Wrapped\<close> (\<open>fmt.Errorf\<close> with one \<open>%w\<close>) and \<open>Assessed\<close>; \<open>Foreign\<close> and \<open>ForeignWrap\<close> stand
  for the errors of a provider or of a library, without and with an \<open>Unwrap\<close> method (which may
  return nil).  Joined errors (\<open>Unwrap() []error\<close>) are not modelled: no code here makes one.
\<close>

datatype err =
    Foreign nat string
  | ForeignWrap nat string "err option"
  | Wrapped string err
  | Assessed err

primrec err_msg :: "err \<Rightarrow> string" where
  "err_msg (Foreign _ m) = m"
| "err_msg (ForeignWrap _ m _) = m"
| "err_msg (Wrapped m e) = m @ '': '' @ err_msg e"
| "err_msg (Assessed e) = err_msg e"

text \<open>An interface assertion to \<open>interface { Unwrap() error }\<close>: \<open>None\<close> when there is no method.\<close>

fun unwrap_method :: "err \<Rightarrow> err option option" where
  "unwrap_method (Foreign _ _) = None"
| "unwrap_method (ForeignWrap _ _ e) = Some e"
| "unwrap_method (Wrapped _ e) = Some (Some e)"
| "unwrap_method (Assessed e) = Some (Some e)"

definition unwrap :: "err option \<Rightarrow> err option" where
  "unwrap e = (case e of None \<Rightarrow> None | Some e \<Rightarrow>
     (case unwrap_method e of None \<Rightarrow> None | Some e' \<Rightarrow> e'))"

definition with_message :: "err option \<Rightarrow> string \<Rightarrow> err option" where
  "with_message e m = (case e of None \<Rightarrow> None | Some e \<Rightarrow> Some (Wrapped m e))"

definition wrap :: "err option \<Rightarrow> string \<Rightarrow> err option" where
  "wrap e m = with_message e m"

text \<open>\<open>fmt.Sprintf\<close> is the parameter \<open>sprintf\<close>.\<close>

definition with_messagef :: "(string \<Rightarrow> 'a list \<Rightarrow> string) \<Rightarrow> err option \<Rightarrow> string \<Rightarrow> 'a list \<Rightarrow> err option" where
  "with_messagef sprintf e fmt args = (case e of None \<Rightarrow> None | Some e \<Rightarrow> Some (Wrapped (sprintf fmt args) e))"

definition wrapf :: "(string \<Rightarrow> 'a list \<Rightarrow> string) \<Rightarrow> err option \<Rightarrow> string \<Rightarrow> 'a list \<Rightarrow> err option" where
  "wrapf sprintf e fmt args = with_messagef sprintf e fmt args"

text \<open>\<open>Cause\<close>'s loop: it follows \<open>Unwrap\<close> until an error without the method, or nil.\<close>

fun cause :: "err \<Rightarrow> err option" where
  "cause (Foreign i m) = Some (Foreign i m)"
| "cause (ForeignWrap _ _ None) = None"
| "cause (ForeignWrap _ _ (Some e)) = cause e"
| "cause (Wrapped _ e) = cause e"
| "cause (Assessed e) = cause e"

definition cause_of :: "err option \<Rightarrow> err option" where
  "cause_of e = Option.bind e cause"

text \<open>The chain \<open>errors.As\<close> and \<open>errors.Is\<close> visit: the error and what it unwraps to.\<close>

fun chain :: "err \<Rightarrow> err list" where
  "chain (Foreign i m) = [Foreign i m]"
| "chain (ForeignWrap i m None) = [ForeignWrap i m None]"
| "chain (ForeignWrap i m (Some e)) = ForeignWrap i m (Some e) # chain e"
| "chain (Wrapped m e) = Wrapped m e # chain e"
| "chain (Assessed e) = Assessed e # chain e"

section \<open>The filters of package resource\<close>

definition ignore :: "(err option \<Rightarrow> bool) \<Rightarrow> err option \<Rightarrow> err option" where
  "ignore is_err e = (if is_err e then None else e)"

fun ignore_any :: "err option \<Rightarrow> (err option \<Rightarrow> bool) list \<Rightarrow> err option" where
  "ignore_any e [] = e"
| "ignore_any e (f # fs) = (if f e then None else ignore_any e fs)"

definition ignore_not_found :: "(err \<Rightarrow> bool) \<Rightarrow> err option \<Rightarrow> err option" where
  "ignore_not_found is_not_found e =
     ignore (\<lambda>e. case e of None \<Rightarrow> False | Some e \<Rightarrow> is_not_found e) e"

text \<open>
  \<open>IsAPIError\<close> asserts the outermost error only; \<open>IsAPIErrorWrapped\<close> asks its cause.  The type
  assertion against \<open>kerrors.APIStatus\<close> is the parameter \<open>api_status\<close>.
\<close>

definition is_api_error :: "(err \<Rightarrow> bool) \<Rightarrow> err option \<Rightarrow> bool" where
  "is_api_error api_status e = (case e of None \<Rightarrow> False | Some e \<Rightarrow> api_status e)"

definition is_api_error_wrapped :: "(err \<Rightarrow> bool) \<Rightarrow> err option \<Rightarrow> bool" where
  "is_api_error_wrapped api_status e = is_api_error api_status (cause_of e)"

section \<open>The ReadyAssessed marker\<close>

definition ready_assessed :: "err option \<Rightarrow> err option" where
  "ready_assessed e = (case e of None \<Rightarrow> None | Some e \<Rightarrow> Some (Assessed e))"

fun is_assessed :: "err \<Rightarrow> bool" where
  "is_assessed (Assessed _) = True"
| "is_assessed _ = False"

definition is_ready_assessed :: "err option \<Rightarrow> bool" where
  "is_ready_assessed e = (case e of None \<Rightarrow> False | Some e \<Rightarrow> list_ex is_assessed (chain e))"

section \<open>Facts\<close>

lemma chain_not_Nil [simp]: "chain e \<noteq> []"
  by (induction e rule: chain.induct) auto

lemma hd_chain [simp]: "hd (chain e) = e"
  by (induction e rule: chain.induct) auto

lemma wrap_simps [simp]:
  "wrap None m = None" "wrap (Some e) m = Some (Wrapped m e)"
  by (simp_all add: wrap_def with_message_def)

lemma wrap_eq_None [simp]: "wrap e m = None \<longleftrightarrow> e = None"
  by (cases e) simp_all

lemma cause_is_last_of_chain:
  "cause e = (if unwrap_method (last (chain e)) = None then Some (last (chain e)) else None)"
  by (induction e rule: cause.induct) auto

lemma is_ready_assessed_wrap [simp]: "is_ready_assessed (wrap e m) = is_ready_assessed e"
  by (cases e) (simp_all add: is_ready_assessed_def)

lemma is_ready_assessed_mark [simp]:
  "is_ready_assessed (ready_assessed e) \<longleftrightarrow> e \<noteq> None"
  by (cases e) (simp_all add: is_ready_assessed_def ready_assessed_def)

lemma ignore_any_eq: "ignore_any e fs = (if list_ex (\<lambda>f. f e) fs then None else e)"
  by (induction fs) auto

lemma ignore_not_found_simps [simp]:
  "ignore_not_found nf None = None"
  "ignore_not_found nf (Some e) = (if nf e then None else Some e)"
  by (simp_all add: ignore_not_found_def ignore_def)

end
