(* ===== verification/Data_Props.thy ===== *)
theory Data_Props
  imports Meta Conditions Errors
begin

text \<open>
  The properties of the data the reconciler keeps on the managed resource: the markers of the
  create handshake, finalizers, policies, conditions; and of the error values it handles.
\<close>

definition blank_meta :: object_meta where
  "blank_meta = \<lparr>om_name = ''n'', om_namespace = [], om_uid = ''u'', om_resource_version = ''1'',
     om_labels = None, om_annotations = None, om_finalizers = [], om_deletion = None,
     om_creation = zero_time\<rparr>"

abbreviation noon :: gotime where "noon \<equiv> Time 63896774400000000000 0"

section \<open>The create handshake\<close>

text \<open>
  C37: a creation marked pending is unresolved exactly while its time, in whole seconds, is later
  than both the succeeded and the failed marker; marking it succeeded or failed at that time or
  later resolves it.
\<close>

theorem handshake_lifecycle:
  assumes "printable t" "printable t'" "inst t \<le> inst t'" "trunc_second (inst t) \<noteq> 0"
  shows "(external_create_incomplete (set_create_pending ob t) \<longleftrightarrow>
       inst (get_create_succeeded ob) < trunc_second (inst t)
         \<and> inst (get_create_failed ob) < trunc_second (inst t))
    \<and> \<not> external_create_incomplete (set_create_succeeded (set_create_pending ob t) t')
    \<and> \<not> external_create_incomplete (set_create_failed (set_create_pending ob t) t')"
  using markers.open_handshake[OF assms(1,4), of ob] markers.close_succeeded[OF assms(1-3), of ob]
    markers.close_failed[OF assms(1-3), of ob] by simp

theorem handshake_lifecycle_witness:
  "external_create_incomplete (set_create_pending blank_meta noon)
    \<and> \<not> external_create_incomplete (set_create_failed (set_create_pending blank_meta noon) noon)"
proof -
  have p: "printable noon" "trunc_second (inst noon) \<noteq> 0" by code_simp+
  have "get_create_succeeded blank_meta = zero_time" "get_create_failed blank_meta = zero_time"
    by (simp_all add: marker_defs blank_meta_def)
  with handshake_lifecycle[OF p(1) p(1) order.refl p(2), of blank_meta] show ?thesis
    by (simp add: zero_time_def trunc_second_def)
qed

text \<open>
  A creation that starts in the second in which the last one failed is not seen as unresolved:
  RFC 3339 keeps whole seconds only.
\<close>

lemma handshake_loses_subseconds:
  "\<not> external_create_incomplete
     (set_create_pending (set_create_failed blank_meta noon) (Time (inst noon + 999999999) 0))"
proof -
  have p: "printable noon" "printable (Time (inst noon + 999999999) 0)"
    "trunc_second (inst noon + 999999999) = inst noon" "inst noon \<noteq> 0" by code_simp+
  have "inst (get_create_failed (set_create_failed blank_meta noon)) = inst noon"
    using markers.f_f[OF p(1), of blank_meta] by (simp add: stored_marker_def trunc_second_def)
  then show ?thesis
    using markers.open_handshake[OF p(2), of "set_create_failed blank_meta noon"] p(3,4) by simp
qed

text \<open>
  C39: each marker reads back as it was written, to the second and in its zone, and writing any of
  the three leaves the other two, the external name and the finalizers as they were.
\<close>

theorem markers_round_trip:
  assumes "printable t"
  shows "get_create_pending (set_create_pending ob t) = Time (trunc_second (inst t)) (zone t)
    \<and> get_create_succeeded (set_create_pending ob t) = get_create_succeeded ob
    \<and> get_create_failed (set_create_pending ob t) = get_create_failed ob
    \<and> get_create_pending (set_create_succeeded ob t) = get_create_pending ob
    \<and> get_create_succeeded (set_create_succeeded ob t) = Time (trunc_second (inst t)) (zone t)
    \<and> get_create_failed (set_create_succeeded ob t) = get_create_failed ob
    \<and> get_create_pending (set_create_failed ob t) = get_create_pending ob
    \<and> get_create_succeeded (set_create_failed ob t) = get_create_succeeded ob
    \<and> get_create_failed (set_create_failed ob t) = Time (trunc_second (inst t)) (zone t)
    \<and> (\<forall>ob' \<in> {set_create_pending ob t, set_create_succeeded ob t, set_create_failed ob t}.
         get_external_name ob' = get_external_name ob \<and> om_finalizers ob' = om_finalizers ob)"
  using markers.p_p[OF assms, of ob] markers.s_s[OF assms, of ob] markers.f_f[OF assms, of ob]
    markers.s_p[of ob t] markers.f_p[of ob t] markers.p_s[of ob t] markers.p_f[of ob t]
    markers.f_s[of ob t] markers.s_f[of ob t]
  by (simp add: stored_marker_def get_external_name_def set_create_pending_def set_create_succeeded_def
      set_create_failed_def key_defs)

theorem markers_round_trip_witness:
  "get_create_pending (set_create_pending blank_meta noon) = noon"
proof -
  have p: "printable noon" "trunc_second (inst noon) = inst noon" by code_simp+
  with markers_round_trip[OF p(1), of blank_meta] show ?thesis by simp
qed

section \<open>Finalizers and policies\<close>

text \<open>
  On an object with no repeated finalizer, adding one that is absent and removing it again
  gives the object back, adding twice adds once, and removing removes exactly it.
\<close>

theorem finalizer_round_trip:
  assumes "distinct (om_finalizers ob)"
  shows "finalizer_exists (add_finalizer ob f) f \<and> distinct (om_finalizers (add_finalizer ob f))
    \<and> add_finalizer (add_finalizer ob f) f = add_finalizer ob f
    \<and> (\<not> finalizer_exists ob f \<longrightarrow> remove_finalizer (add_finalizer ob f) f = Some ob)
    \<and> (\<exists>ob'. remove_finalizer ob f = Some ob' \<and> (\<forall>g. finalizer_exists ob' g \<longleftrightarrow> g \<noteq> f \<and> finalizer_exists ob g))"
proof -
  have *: "om_finalizers (add_finalizer ob f) =
      (if f \<in> set (om_finalizers ob) then om_finalizers ob else om_finalizers ob @ [f])"
    by (auto simp: add_finalizer_def list_ex_iff)
  then have d: "distinct (om_finalizers (add_finalizer ob f))" using assms by simp
  show ?thesis
    using assms d * remove_finalizer_distinct[OF assms, of f] remove_finalizer_distinct[OF d, of f]
    by (auto simp: finalizer_exists_iff add_finalizer_def list_ex_iff)
qed

theorem finalizer_round_trip_witness:
  "remove_finalizer (add_finalizer (blank_meta\<lparr>om_finalizers := [''a'', ''b'']\<rparr>) ''c'') ''c''
     = Some (blank_meta\<lparr>om_finalizers := [''a'', ''b'']\<rparr>)"
  using finalizer_round_trip[of "blank_meta\<lparr>om_finalizers := [''a'', ''b'']\<rparr>" "''c''"]
  by (simp add: finalizer_exists_iff)

text \<open>
  C40: what removing a finalizer does to any list.  It panics exactly when the list ends with the finalizer
  and holds it a second time.  Otherwise it changes the list only: every copy goes but those stepped
  over because they directly follow a removed one, so a copy stays exactly when two are neighbours.
\<close>

theorem remove_finalizer_outcome:
  "let fs = om_finalizers ob in case remove_finalizer ob f of
     None \<Rightarrow> 2 \<le> count_list fs f \<and> last fs = f
   | Some ob' \<Rightarrow> \<not> (2 \<le> count_list fs f \<and> last fs = f) \<and> ob' = ob\<lparr>om_finalizers := skim f fs\<rparr>
       \<and> (finalizer_exists ob' f \<longleftrightarrow> (\<exists>pre post. fs = pre @ f # f # post))"
  by (simp add: remove_finalizer_eq finalizer_exists_iff skim_leaves twins_iff Let_def)

text \<open>One list for each outcome: a panic, a copy that stays, two copies gone.\<close>

lemma repeated_finalizers:
  "remove_finalizer (blank_meta\<lparr>om_finalizers := [''x'', ''x'']\<rparr>) ''x'' = None
   \<and> remove_finalizer (blank_meta\<lparr>om_finalizers := [''x'', ''x'', ''y'']\<rparr>) ''x''
     = Some (blank_meta\<lparr>om_finalizers := [''x'', ''y'']\<rparr>)
   \<and> remove_finalizer (blank_meta\<lparr>om_finalizers := [''x'', ''y'', ''x'', ''z'']\<rparr>) ''x''
     = Some (blank_meta\<lparr>om_finalizers := [''y'', ''z'']\<rparr>)"
  by (simp add: remove_finalizer_def blank_meta_def)

text \<open>
  What the two policies allow.  Creating and updating need the default or the
  observe-create-update policy, deleting the observe-delete policy, or the default one with a
  deletion policy that is absent or delete; observing only excludes all three, and so does a
  policy the code does not know.
\<close>

theorem policies_allow:
  fixes ob :: "'a object_meta_scheme"
  defines "mp \<equiv> annotation ob key_management_policy" and "dp \<equiv> annotation ob key_deletion_policy"
  shows "(should_create ob \<longleftrightarrow> mp \<in> {[], policy_default, policy_observe_create_update})
    \<and> (should_update ob \<longleftrightarrow> should_create ob)
    \<and> (should_delete ob \<longleftrightarrow> mp = policy_observe_delete
          \<or> mp \<in> {[], policy_default} \<and> dp \<in> {[], deletion_delete})
    \<and> (should_only_observe ob \<longleftrightarrow> mp = policy_observe)
    \<and> (should_only_observe ob \<longrightarrow> \<not> should_create ob \<and> \<not> should_update ob \<and> \<not> should_delete ob)
    \<and> (mp \<notin> {[], policy_default, policy_observe_create_update, policy_observe_delete, policy_observe}
        \<longrightarrow> \<not> should_create ob \<and> \<not> should_delete ob \<and> \<not> should_only_observe ob)"
  unfolding mp_def dp_def
  by (auto simp: policy_simps management_policy_def deletion_policy_def)

theorem policies_allow_witness:
  "should_only_observe (add_annotations blank_meta (singleton_map key_management_policy policy_observe))
   \<and> \<not> should_create (add_annotations blank_meta (singleton_map key_management_policy policy_observe))"
  using policies_allow[of "add_annotations blank_meta (singleton_map key_management_policy policy_observe)"]
  by (simp add: policy_defs)

section \<open>Conditions and errors\<close>

text \<open>A condition whose message alone changed takes the time of the change, though its status did not move.\<close>

lemma message_moves_transition:
  assumes "c_message new \<noteq> c_message (get_condition cs (c_type new))"
  shows "get_condition (set_conditions cs [new]) (c_type new) = new"
  using assms by (auto simp: set_conditions_def get_set_condition condition_equal_def)

text \<open>
  Setting conditions keeps one condition of each type, makes each type that was set read back
  as the last condition set for it, up to the transition time, leaves the other types alone, and
  an unchanged condition keeps its old transition time.
\<close>

theorem set_conditions_reads_back:
  assumes "unique_types cs"
  shows "unique_types (set_conditions cs (new @ [c]))
    \<and> condition_equal (get_condition (set_conditions cs (new @ [c])) (c_type c)) c
    \<and> (\<forall>ct. ct \<notin> c_type ` set (new @ [c]) \<longrightarrow>
         get_condition (set_conditions cs (new @ [c])) ct = get_condition cs ct)
    \<and> (\<forall>old \<in> set cs. condition_equal old c \<longrightarrow> get_condition (set_conditions cs [c]) (c_type c) = old)"
proof -
  have "get_condition (set_conditions cs [c]) (c_type c) = old" if "old \<in> set cs" "condition_equal old c" for old
    using get_condition_member[OF assms that(1)] that
    by (auto simp: set_conditions_def get_set_condition condition_equal_def)
  then show ?thesis
    using conds.fold_wf[OF assms, of "new @ [c]"] conds.get_put[of c "fold set_condition new cs"]
      conds.get_fold_other[of "new @ [c]" _ cs]
    by (auto simp: set_conditions_def)
qed

theorem set_conditions_reads_back_witness:
  "unique_types (set_conditions [] [cond_creating noon, cond_reconcile_success noon])
   \<and> condition_equal (get_condition (set_conditions [] [cond_creating noon, cond_reconcile_success noon])
        type_synced) (cond_reconcile_success noon)"
  using set_conditions_reads_back[of "[]" "[cond_creating noon]" "cond_reconcile_success noon"]
  by (simp add: unique_types_def condition_ctor_defs)

text \<open>
  Two statuses with one condition per type are equal exactly when they have the same types
  and agree on each, whatever the order and the transition times.
\<close>

theorem status_equal_iff:
  assumes "unique_types a" "unique_types b"
  shows "status_equal (Some a) (Some b) \<longleftrightarrow> c_type ` set a = c_type ` set b
    \<and> (\<forall>ct. condition_equal (get_condition a ct) (get_condition b ct))"
  using assms status_equal_same_types status_equal_conditions by blast

theorem status_equal_iff_witness:
  "status_equal (Some [cond_creating noon, cond_reconcile_success noon])
     (Some [cond_reconcile_success zero_time, cond_creating noon])"
proof -
  have "get_condition [cond_creating noon, cond_reconcile_success noon] ct
      = (if ct = type_ready then cond_creating noon else if ct = type_synced
         then cond_reconcile_success noon else get_condition [] ct)"
    "get_condition [cond_reconcile_success zero_time, cond_creating noon] ct
      = (if ct = type_ready then cond_creating noon else if ct = type_synced
         then cond_reconcile_success zero_time else get_condition [] ct)" for ct
    by (auto simp: condition_ctor_defs condition_consts)
  then show ?thesis
    by (subst status_equal_iff)
      (auto simp: unique_types_def condition_ctor_defs condition_consts condition_equal_def)
qed

text \<open>
  The assessment mark survives wrapping and is never invented: an error is marked exactly
  when one in the chain it wraps was, and wrapping changes neither the mark nor the cause.
\<close>

theorem assessment_survives_wrapping:
  "is_ready_assessed (ready_assessed e) = (e \<noteq> None)
   \<and> is_ready_assessed (wrap e m) = is_ready_assessed e
   \<and> cause_of (wrap e m) = cause_of e \<and> cause_of (ready_assessed e) = cause_of e
   \<and> unwrap (wrap e m) = e"
  by (cases e) (auto simp: is_ready_assessed_def ready_assessed_def cause_of_def unwrap_def)

end
