(* ===== verification/Signals.thy ===== *)
theory Signals
  imports Prelude
begin

text \<open>
  The signal a provider reports (src/pkg/ratelimit/signal.go): its deadline, its classification,
  and \<open>WithSink\<close>/\<open>Report\<close>, by which it reaches the governor.  A context is the sink it carries.
\<close>

record signal =
  sg_key :: string
  sg_retry_after :: duration
  sg_reset_at :: instant
  sg_remaining :: int
  sg_limit :: int
  sg_has_quota :: bool
  sg_throttled :: bool

datatype signal_kind = SignalThrottled | SignalAdvisory | SignalNone

definition advisory_quota_divisor :: int where "advisory_quota_divisor = 4"

definition signal_deadline :: "signal \<Rightarrow> instant \<Rightarrow> instant" where
  "signal_deadline s now =
     (let d = (if sg_retry_after s > 0 then time_add now (sg_retry_after s) else 0)
      in if sg_reset_at s > d then sg_reset_at s else d)"

definition classify :: "signal \<Rightarrow> instant \<Rightarrow> signal_kind" where
  "classify s now =
     (if sg_throttled s then SignalThrottled
      else if sg_has_quota s \<and> sg_limit s > 0
              \<and> i64 (sg_remaining s * advisory_quota_divisor) \<le> sg_limit s then SignalAdvisory
      else if sg_retry_after s > 0 then SignalAdvisory
      else if \<not> sg_has_quota s \<and> sg_reset_at s > now then SignalAdvisory
      else SignalNone)"

type_synonym 'g sink_ctx = "(signal \<Rightarrow> 'g \<Rightarrow> 'g) option"

definition with_sink :: "'g sink_ctx \<Rightarrow> 'g sink_ctx \<Rightarrow> 'g sink_ctx" where
  "with_sink ctx s = (case s of None \<Rightarrow> ctx | Some f \<Rightarrow> Some f)"

definition report :: "'g sink_ctx \<Rightarrow> signal \<Rightarrow> 'g \<Rightarrow> 'g" where
  "report ctx s g =
     (if sg_key s = [] then g else (case ctx of None \<Rightarrow> g | Some f \<Rightarrow> f s g))"

section \<open>Facts\<close>

lemma classify_throttled_iff: "classify s now = SignalThrottled \<longleftrightarrow> sg_throttled s"
  by (simp add: classify_def)

text \<open>The multiplication does not wrap on counters below \<open>2 ^ 61\<close>.\<close>

definition small_counters :: "signal \<Rightarrow> bool" where
  "small_counters s \<longleftrightarrow> \<bar>sg_remaining s\<bar> \<le> 2305843009213693951"

lemma quota_product_exact:
  "small_counters s \<Longrightarrow> i64 (sg_remaining s * advisory_quota_divisor) = 4 * sg_remaining s"
  unfolding small_counters_def advisory_quota_divisor_def
  by (subst i64_id) (auto simp: in_i64_def abs_if split: if_splits)

lemma signal_deadline_max:
  assumes "0 \<le> now" "0 \<le> sg_reset_at s"
  shows "signal_deadline s now =
    max (sg_reset_at s) (if sg_retry_after s > 0 then now + sg_retry_after s else 0)"
  using assms by (simp add: signal_deadline_def time_add_def Let_def max_def)

lemma advisory_needs_news:
  assumes "classify s now = SignalAdvisory"
  shows "sg_has_quota s \<or> now < signal_deadline s now"
  using assms by (auto simp: classify_def signal_deadline_def time_add_def Let_def split: if_splits)

end
