(* ===== verification/Float64.thy ===== *)
theory Float64
  imports Complex_Main Rfc3339
begin

text \<open>
  Go's \<open>float64\<close>: a finite value is an exact rational on the IEEE 754 binary64 grid, and every
  operation rounds its exact result to the nearest grid value, ties to even, and
  overflows to infinity from \<open>2 ^ 1024\<close> on.  The sign of zero
  is not kept: no code modelled here can tell.
\<close>

datatype f64 = NaN | Inf bool | Fin rat

function ilog2 :: "int \<Rightarrow> int" where
  "ilog2 n = (if n \<le> 1 then 0 else ilog2 (n div 2) + 1)"
  by pat_completeness auto
termination
  by (relation "measure nat") auto

declare ilog2.simps [simp del]

definition pow2 :: "int \<Rightarrow> rat" where
  "pow2 e = (if 0 \<le> e then 2 ^ nat e else 1 / 2 ^ nat (- e))"

definition round_half_even :: "rat \<Rightarrow> int" where
  "round_half_even y =
     (let f = \<lfloor>y\<rfloor>; r = y - of_int f
      in if r < 1 / 2 then f else if r > 1 / 2 then f + 1 else if even f then f else f + 1)"

text \<open>The binary exponent of a positive rational: \<open>2 ^ e \<le> x < 2 ^ (e + 1)\<close>.\<close>

definition exponent :: "rat \<Rightarrow> int" where
  "exponent x =
     (let (p, q) = quotient_of x; e = ilog2 p - ilog2 q
      in if pow2 e \<le> x then e else e - 1)"

definition round64 :: "rat \<Rightarrow> f64" where
  "round64 x =
     (if x = 0 then Fin 0
      else let u = max (exponent \<bar>x\<bar> - 52) (- 1074);
               m = round_half_even (\<bar>x\<bar> / pow2 u)
           in if u > 971 \<or> (u = 971 \<and> m \<ge> 9007199254740992) then Inf (x < 0)
              else let v = of_int m * pow2 u in Fin (if x < 0 then - v else v))"

definition f_of_int :: "int \<Rightarrow> f64" where "f_of_int i = round64 (of_int i)"

fun f_mul :: "f64 \<Rightarrow> f64 \<Rightarrow> f64" where
  "f_mul (Fin a) (Fin b) = round64 (a * b)"
| "f_mul (Inf s) (Fin b) = (if b = 0 then NaN else Inf (s \<noteq> (b < 0)))"
| "f_mul (Fin a) (Inf s) = (if a = 0 then NaN else Inf (s \<noteq> (a < 0)))"
| "f_mul (Inf s) (Inf t) = Inf (s \<noteq> t)"
| "f_mul NaN _ = NaN"
| "f_mul _ NaN = NaN"

fun f_div :: "f64 \<Rightarrow> f64 \<Rightarrow> f64" where
  "f_div (Fin a) (Fin b) =
     (if b = 0 then (if a = 0 then NaN else Inf (a < 0)) else round64 (a / b))"
| "f_div (Inf s) (Fin b) = Inf (s \<noteq> (b < 0))"
| "f_div (Fin a) (Inf s) = Fin 0"
| "f_div (Inf s) (Inf t) = NaN"
| "f_div NaN _ = NaN"
| "f_div _ NaN = NaN"

fun f_add :: "f64 \<Rightarrow> f64 \<Rightarrow> f64" where
  "f_add (Fin a) (Fin b) = round64 (a + b)"
| "f_add (Inf s) (Fin b) = Inf s"
| "f_add (Fin a) (Inf s) = Inf s"
| "f_add (Inf s) (Inf t) = (if s = t then Inf s else NaN)"
| "f_add NaN _ = NaN"
| "f_add _ NaN = NaN"

text \<open>\<open>Duration.Seconds\<close>: whole seconds plus the rest, each as a float; Go's \<open>/\<close> and \<open>%\<close> truncate.\<close>

definition duration_seconds :: "duration \<Rightarrow> f64" where
  "duration_seconds d =
     (let q = \<bar>d\<bar> div second; r = \<bar>d\<bar> mod second; sg = (if d < 0 then - 1 else 1)
      in f_add (f_of_int (sg * q)) (f_div (f_of_int (sg * r)) (Fin 1000000000)))"

text \<open>Comparisons: every one with a NaN is false.\<close>

fun f_less :: "f64 \<Rightarrow> f64 \<Rightarrow> bool" where
  "f_less (Fin a) (Fin b) = (a < b)"
| "f_less (Fin a) (Inf s) = (\<not> s)"
| "f_less (Inf s) (Fin b) = s"
| "f_less (Inf s) (Inf t) = (s \<and> \<not> t)"
| "f_less NaN _ = False"
| "f_less _ NaN = False"

fun f_le :: "f64 \<Rightarrow> f64 \<Rightarrow> bool" where
  "f_le (Fin a) (Fin b) = (a \<le> b)"
| "f_le (Fin a) (Inf s) = (\<not> s)"
| "f_le (Inf s) (Fin b) = s"
| "f_le (Inf s) (Inf t) = (s \<or> \<not> t)"
| "f_le NaN _ = False"
| "f_le _ NaN = False"

definition f_eq :: "f64 \<Rightarrow> f64 \<Rightarrow> bool" where
  "f_eq a b \<longleftrightarrow> a = b \<and> a \<noteq> NaN"

text \<open>\<open>strconv.FormatFloat(p, 'f', 0, 64)\<close>.\<close>

fun format_float0 :: "f64 \<Rightarrow> string" where
  "format_float0 NaN = ''NaN''"
| "format_float0 (Inf s) = (if s then ''-Inf'' else ''+Inf'')"
| "format_float0 (Fin p) =
     (if p < 0 then ''-'' else []) @ dec_nat (nat (round_half_even \<bar>p\<bar>))"

text \<open>
  Conversion to \<open>int64\<close> truncates.  Out of range Go leaves the result to the platform: \<open>oob\<close>.
\<close>

definition f_trunc :: "(f64 \<Rightarrow> int) \<Rightarrow> f64 \<Rightarrow> int" where
  "f_trunc oob x =
     (case x of Fin r \<Rightarrow>
        (let n = (if r < 0 then - \<lfloor>- r\<rfloor> else \<lfloor>r\<rfloor>) in if in_i64 n then n else oob x)
      | _ \<Rightarrow> oob x)"

section \<open>Facts\<close>

lemma f_less_imp_le: "f_less a b \<Longrightarrow> f_le a b"
  by (cases a; cases b) auto

lemma f_le_trans: "f_le a b \<Longrightarrow> f_le b c \<Longrightarrow> f_le a c"
  by (cases a; cases b; cases c) auto

lemma f_le_not_less: "f_le a b \<Longrightarrow> \<not> f_less b a"
  by (cases a; cases b) auto

section \<open>Exact results\<close>

lemma pow2_pos [simp]: "0 < pow2 e"
  by (simp add: pow2_def)

lemma pow2_powi: "pow2 e = (2::rat) powi e"
  by (simp add: pow2_def power_int_def inverse_eq_divide power_one_over)

lemma pow2_add: "pow2 (a + b) = pow2 a * pow2 b" and pow2_diff: "pow2 (a - b) = pow2 a / pow2 b"
  by (simp_all add: pow2_powi power_int_add power_int_diff)

lemma pow2_le_iff: "pow2 a \<le> pow2 b \<longleftrightarrow> a \<le> b"
proof -
  have m: "pow2 a < pow2 b" if "a < b" for a b
  proof -
    have "1 < pow2 (b - a)" using that by (simp add: pow2_def)
    then have "pow2 a * 1 < pow2 a * pow2 (b - a)" by (intro mult_strict_left_mono) simp_all
    then show ?thesis by (simp add: pow2_add[symmetric])
  qed
  show ?thesis using m[of a b] m[of b a] by (cases a b rule: linorder_cases) auto
qed

lemma pow2_nat [simp]: "pow2 (int n) = 2 ^ n"
  by (simp add: pow2_def)

lemma ilog2_bounds:
  assumes "1 \<le> n"
  shows "0 \<le> ilog2 n" "2 ^ nat (ilog2 n) \<le> n" "n < 2 ^ (nat (ilog2 n) + 1)"
proof -
  have "0 \<le> ilog2 n \<and> 2 ^ nat (ilog2 n) \<le> n \<and> n < 2 ^ (nat (ilog2 n) + 1)"
    using assms
  proof (induction n rule: ilog2.induct)
    case (1 n)
    show ?case
    proof (cases "n \<le> 1")
      case True
      with 1(2) show ?thesis by (simp add: ilog2.simps)
    next
      case False
      with 1 have IH: "0 \<le> ilog2 (n div 2)" "2 ^ nat (ilog2 (n div 2)) \<le> n div 2"
        "n div 2 < 2 ^ (nat (ilog2 (n div 2)) + 1)" by auto
      have "ilog2 n = ilog2 (n div 2) + 1" using False by (subst ilog2.simps) simp
      moreover have "nat (ilog2 (n div 2) + 1) = Suc (nat (ilog2 (n div 2)))"
        using IH(1) by (simp add: nat_add_distrib)
      ultimately show ?thesis using IH by (simp) linarith
    qed
  qed
  then show "0 \<le> ilog2 n" "2 ^ nat (ilog2 n) \<le> n" "n < 2 ^ (nat (ilog2 n) + 1)" by blast+
qed

lemma ilog2_pow2:
  assumes "1 \<le> n"
  shows "pow2 (ilog2 n) \<le> of_int n" "of_int n < pow2 (ilog2 n + 1)"
proof -
  have "(of_int (2 ^ nat (ilog2 n)) :: rat) \<le> of_int n" "(of_int n :: rat) < of_int (2 ^ (nat (ilog2 n) + 1))"
    using ilog2_bounds[OF assms] by (simp_all only: of_int_le_iff of_int_less_iff)
  then show "pow2 (ilog2 n) \<le> of_int n" "of_int n < pow2 (ilog2 n + 1)"
    using ilog2_bounds(1)[OF assms] by (simp_all add: pow2_def nat_add_distrib)
qed

lemma exponent_bounds:
  assumes "0 < x"
  shows "pow2 (exponent x) \<le> x" "x < pow2 (exponent x + 1)"
proof -
  obtain p q where pq: "quotient_of x = (p, q)" by fastforce
  have q: "1 \<le> q" using quotient_of_denom_pos[OF pq] by simp
  have x: "x = of_int p / of_int q" by (rule quotient_of_div[OF pq])
  have p: "1 \<le> p"
  proof -
    have "0 < (of_int p :: rat)" using assms q x by (simp add: zero_less_divide_iff)
    then show ?thesis by simp
  qed
  let ?e = "ilog2 p - ilog2 q"
  have lo: "pow2 (?e - 1) < x"
  proof -
    have "pow2 (?e - 1) = pow2 (ilog2 p) / pow2 (ilog2 q + 1)"
      by (simp add: pow2_diff[symmetric] algebra_simps)
    also have "\<dots> < of_int p / of_int q"
      using ilog2_pow2[OF p] ilog2_pow2[OF q] q by (intro frac_less2) auto
    finally show ?thesis by (simp add: x)
  qed
  have hi: "x < pow2 (?e + 1)"
  proof -
    have "of_int p / of_int q < pow2 (ilog2 p + 1) / pow2 (ilog2 q)"
      using ilog2_pow2[OF p] ilog2_pow2[OF q] q p by (intro frac_less) auto
    also have "\<dots> = pow2 (?e + 1)" by (simp add: pow2_diff[symmetric] algebra_simps)
    finally show ?thesis by (simp add: x)
  qed
  show "pow2 (exponent x) \<le> x" "x < pow2 (exponent x + 1)"
    using lo hi by (auto simp: exponent_def pq Let_def)
qed

lemma round_half_even_int [simp]: "round_half_even (of_int m) = m"
  by (simp add: round_half_even_def)

lemma round64_grid:
  assumes "0 < x" "u = max (exponent x - 52) (- 1074)" "x / pow2 u = of_int k"
    and "\<not> (u > 971 \<or> (u = 971 \<and> k \<ge> 9007199254740992))"
  shows "round64 x = Fin x"
proof -
  have "pow2 u \<noteq> 0" using pow2_pos[of u] by linarith
  then have "x / pow2 u * pow2 u = x" by simp
  then have "of_int k * pow2 u = x" unfolding assms(3) .
  then show ?thesis using assms(1,4) by (simp add: round64_def assms(2)[symmetric] assms(3) Let_def)
qed

text \<open>A value of at most 53 significant bits in the normal range is on the grid.\<close>

lemma round64_exact:
  assumes "0 < m" "m < 9007199254740992" "- 1074 \<le> e" "e \<le> 971"
  shows "round64 (of_int m * pow2 e) = Fin (of_int m * pow2 e)"
proof -
  let ?x = "of_int m * pow2 e :: rat"
  have x: "0 < ?x" using assms(1) by simp
  define u where "u = max (exponent ?x - 52) (- 1074)"
  have "?x < pow2 (53 + e)"
  proof -
    have "(of_int m :: rat) < of_int 9007199254740992" using assms(2) by (simp only: of_int_less_iff)
    then have "(of_int m :: rat) < pow2 53" by (simp add: pow2_def)
    then show ?thesis unfolding pow2_add by (intro mult_strict_right_mono) simp_all
  qed
  then have "pow2 (exponent ?x) < pow2 (53 + e)" using exponent_bounds(1)[OF x] by linarith
  then have "exponent ?x < 53 + e" using pow2_le_iff[of "53 + e" "exponent ?x"] by linarith
  then have u: "u \<le> e" using assms(3) by (simp add: u_def)
  let ?k = "m * 2 ^ nat (e - u)"
  have k: "?x / pow2 u = of_int ?k"
  proof -
    have "pow2 e / pow2 u = pow2 (e - u)" by (simp only: pow2_diff)
    also have "\<dots> = 2 ^ nat (e - u)" using u by (simp add: pow2_def)
    finally have "of_int m * (pow2 e / pow2 u) = of_int m * 2 ^ nat (e - u)" by (rule arg_cong)
    then show ?thesis by (simp add: times_divide_eq_right[symmetric] del: times_divide_eq_right)
  qed
  have "\<not> (u > 971 \<or> (u = 971 \<and> ?k \<ge> 9007199254740992))" using u assms(2,4) by auto
  from round64_grid[OF x u_def k this] show ?thesis .
qed

lemma round64_int:
  assumes "0 \<le> m" "m < 9007199254740992"
  shows "round64 (of_int m) = Fin (of_int m)"
  using round64_exact[of m 0] assms by (cases "m = 0") (simp_all add: pow2_def round64_def)

lemma f_of_int_exact: "0 \<le> m \<Longrightarrow> m < 9007199254740992 \<Longrightarrow> f_of_int m = Fin (of_int m)"
  by (simp add: f_of_int_def round64_int)

lemma round_half_even_ge: "of_int k \<le> y \<Longrightarrow> k \<le> round_half_even y"
proof -
  assume "of_int k \<le> y"
  then have "k \<le> \<lfloor>y\<rfloor>" by (simp add: le_floor_iff)
  then show "k \<le> round_half_even y" by (simp add: round_half_even_def Let_def)
qed

text \<open>Rounding does not fall below a power of two.\<close>

lemma round64_ge_pow2:
  assumes "pow2 e \<le> x" "- 1022 \<le> e"
  shows "f_le (Fin (pow2 e)) (round64 x)"
proof -
  have x: "0 < x" using assms(1) pow2_pos[of e] by linarith
  have "pow2 e < pow2 (exponent x + 1)" using exponent_bounds(2)[OF x] assms(1) by linarith
  then have e: "e \<le> exponent x" using pow2_le_iff[of "exponent x + 1" e] by linarith
  define u where "u = max (exponent x - 52) (- 1074)"
  have u: "u = exponent x - 52" using e assms(2) by (simp add: u_def)
  define m where "m = round_half_even (x / pow2 u)"
  have "of_int 4503599627370496 \<le> x / pow2 u"
  proof -
    have "pow2 52 * pow2 u = pow2 (exponent x)" unfolding u pow2_add[symmetric] by simp
    then have "pow2 52 * pow2 u \<le> x" using exponent_bounds(1)[OF x] by simp
    then show ?thesis by (simp add: pos_le_divide_eq) (simp add: pow2_def)
  qed
  then have m: "4503599627370496 \<le> m" using x unfolding m_def by (intro round_half_even_ge) simp
  have "pow2 e \<le> of_int m * pow2 u"
  proof -
    have "pow2 e \<le> pow2 52 * pow2 u" using e unfolding u pow2_add[symmetric] by (simp add: pow2_le_iff)
    also have "\<dots> \<le> of_int m * pow2 u"
    proof (rule mult_right_mono)
      have "(of_int 4503599627370496 :: rat) \<le> of_int m" using m by (simp only: of_int_le_iff)
      then show "pow2 52 \<le> of_int m" by (simp add: pow2_def)
    qed (simp add: less_imp_le)
    finally show ?thesis .
  qed
  then show ?thesis using x by (auto simp: round64_def u_def[symmetric] m_def[symmetric] Let_def)
qed

lemma round_half_even_le: "y \<le> of_int k \<Longrightarrow> round_half_even y \<le> k"
proof -
  assume y: "y \<le> of_int k"
  then have "\<lfloor>y\<rfloor> \<le> k" by linarith
  moreover have "\<lfloor>y\<rfloor> = k \<Longrightarrow> y = of_int k" using y by linarith
  ultimately show "round_half_even y \<le> k"
    by (cases "\<lfloor>y\<rfloor> = k") (auto simp: round_half_even_def Let_def)
qed

text \<open>Nor does it rise above one.\<close>

lemma round64_le_pow2:
  assumes "0 \<le> x" "x \<le> pow2 e" "- 1074 \<le> e" "e \<le> 1000"
  shows "\<exists>v. round64 x = Fin v \<and> 0 \<le> v \<and> v \<le> pow2 e"
proof (cases "x = 0")
  case True
  then show ?thesis by (simp add: round64_def less_imp_le)
next
  case False
  then have x: "0 < x" using assms(1) by simp
  define u where "u = max (exponent x - 52) (- 1074)"
  define m where "m = round_half_even (x / pow2 u)"
  have "pow2 (exponent x) \<le> pow2 e" using exponent_bounds(1)[OF x] assms(2) by linarith
  then have "exponent x \<le> e" by (simp add: pow2_le_iff)
  then have u: "u \<le> e" "u \<le> 970" using assms(3,4) by (simp_all add: u_def)
  have p: "pow2 e = of_int (2 ^ nat (e - u)) * pow2 u"
  proof -
    have "pow2 e = pow2 (e - u) * pow2 u" by (simp add: pow2_add[symmetric])
    then show ?thesis using u(1) by (simp add: pow2_def)
  qed
  have "m \<le> 2 ^ nat (e - u)" unfolding m_def
    using assms(2) by (intro round_half_even_le) (simp add: pos_divide_le_eq p)
  then have "of_int m * pow2 u \<le> pow2 e" unfolding p
    by (intro mult_right_mono) (simp_all only: of_int_le_iff less_imp_le[OF pow2_pos])
  moreover have "0 \<le> of_int m * pow2 u"
  proof -
    have "of_int 0 \<le> x / pow2 u" using x by (simp add: less_imp_le)
    then have "0 \<le> m" unfolding m_def by (rule round_half_even_ge)
    then show ?thesis by (simp add: less_imp_le)
  qed
  ultimately show ?thesis using x u(2) by (simp add: round64_def u_def[symmetric] m_def[symmetric] Let_def)
qed

lemma f_trunc_int:
  assumes "in_i64 n" shows "f_trunc oob (Fin (of_int n)) = n"
proof -
  have "- \<lfloor>- (of_int n :: rat)\<rfloor> = n" by (metis floor_of_int of_int_minus minus_minus)
  then show ?thesis using assms by (simp add: f_trunc_def Let_def)
qed

end
