(* ===== verification/Saturation.thy ===== *)
theory Saturation
  imports Float64
begin

text \<open>
  The saturation input (src/pkg/ratelimit/saturation.go): its options and their defaults, a
  sample's evaluation, the step that moves the local capacity, and the snapshot for metrics.
  The reader is the code's own interface \<open>cgroupReader\<close>: a sample is an argument of \<open>sat_read\<close>, and
  theory Cgroup models the reader of the files.
\<close>

section \<open>Options\<close>

record sat_options =
  so_enabled :: bool
  so_experimental_memory :: bool
  so_cgroup_dir :: string
  so_sample_period :: duration
  so_startup_ramp :: duration
  so_cpu_threshold :: f64
  so_soft_ratio :: f64
  so_hard_ratio :: f64

definition default_sample_period :: duration where "default_sample_period = second"
definition default_startup_ramp :: duration where "default_startup_ramp = 2 * second"
definition default_cpu_threshold :: f64 where "default_cpu_threshold = Fin 50"
definition default_soft_ratio :: f64 where "default_soft_ratio = round64 (80 / 100)"
definition default_hard_ratio :: f64 where "default_hard_ratio = round64 (90 / 100)"

datatype sat_error = BadSamplePeriod | BadStartupRamp | BadCPUThreshold | BadRatios

definition or_default :: "'a \<Rightarrow> 'a \<Rightarrow> 'a \<Rightarrow> 'a" where
  "or_default z d x = (if x = z then d else x)"

definition fill_defaults :: "sat_options \<Rightarrow> sat_options" where
  "fill_defaults opts = opts\<lparr>
     so_sample_period := or_default 0 default_sample_period (so_sample_period opts),
     so_startup_ramp := or_default 0 default_startup_ramp (so_startup_ramp opts),
     so_cpu_threshold := or_default (Fin 0) default_cpu_threshold (so_cpu_threshold opts),
     so_soft_ratio := or_default (Fin 0) default_soft_ratio (so_soft_ratio opts),
     so_hard_ratio := or_default (Fin 0) default_hard_ratio (so_hard_ratio opts)\<rparr>"

definition with_defaults :: "sat_options \<Rightarrow> sat_error + sat_options" where
  "with_defaults opts =
     (let opts = fill_defaults opts
      in if so_sample_period opts < 0 then Inl BadSamplePeriod
         else if so_startup_ramp opts < 0 then Inl BadStartupRamp
         else if f_less (so_cpu_threshold opts) (Fin 0) \<or> f_less (Fin 100) (so_cpu_threshold opts)
           then Inl BadCPUThreshold
         else if f_less (so_soft_ratio opts) (Fin 0) \<or> f_less (Fin 1) (so_hard_ratio opts)
              \<or> f_less (so_hard_ratio opts) (so_soft_ratio opts)
           then Inl BadRatios
         else Inr opts)"

section \<open>Samples\<close>

definition input_cpu_pressure :: string where "input_cpu_pressure = ''cpu_pressure''"
definition input_memory_working_set :: string where
  "input_memory_working_set = ''memory_working_set''"
definition all_inputs :: "string list" where
  "all_inputs = [input_cpu_pressure, input_memory_working_set]"

record reading =
  rd_enabled :: bool
  rd_percent :: f64
  rd_disabled_because :: string

definition disabled :: "string \<Rightarrow> reading" where
  "disabled why = \<lparr>rd_enabled = False, rd_percent = Fin 0, rd_disabled_because = why\<rparr>"

record cgroup_sample =
  cg_cpu_pressure :: reading
  cg_working_set :: reading

definition by_input :: "cgroup_sample \<Rightarrow> string \<Rightarrow> reading" where
  "by_input s input = (if input = input_cpu_pressure then cg_cpu_pressure s else cg_working_set s)"

section \<open>State\<close>

text \<open>\<open>capacityFloor\<close> and \<open>localState\<close> of governor.go, which the step moves.\<close>

definition capacity_floor :: int where "capacity_floor = 1"

record local_state =
  ls_capacity :: int
  ls_cause :: string
  ls_ramping :: bool

record saturation =
  sa_opts :: sat_options
  sa_last :: "cgroup_sample option"
  sa_logged_disabled :: "string list"
  sa_last_step :: instant
  sa_cut :: bool

definition new_saturation :: "sat_options \<Rightarrow> sat_error + saturation" where
  "new_saturation opts =
     (case with_defaults opts of Inl e \<Rightarrow> Inl e
      | Inr opts \<Rightarrow> Inr \<lparr>sa_opts = opts, sa_last = None, sa_logged_disabled = [],
                       sa_last_step = 0, sa_cut = False\<rparr>)"

text \<open>Each input is logged the first time it is found disabled; the second result is what is logged.\<close>

definition log_disabled_once :: "cgroup_sample \<Rightarrow> saturation \<Rightarrow> saturation \<times> string list" where
  "log_disabled_once smp s =
     (let new = filter (\<lambda>i. \<not> (rd_enabled (by_input smp i) \<or> i \<in> set (sa_logged_disabled s))) all_inputs
      in (s\<lparr>sa_logged_disabled := new @ sa_logged_disabled s\<rparr>, new))"

definition sat_read :: "cgroup_sample \<Rightarrow> saturation \<Rightarrow> saturation \<times> string list" where
  "sat_read smp s = log_disabled_once smp (s\<lparr>sa_last := Some smp\<rparr>)"

section \<open>Evaluation\<close>

definition format_percent :: "f64 \<Rightarrow> string" where
  "format_percent p = format_float0 p @ ''%''"

definition join_strings :: "string \<Rightarrow> string list \<Rightarrow> string" where
  "join_strings sep xs = (case xs of [] \<Rightarrow> [] | y # ys \<Rightarrow> y @ concat (map (\<lambda>z. sep @ z) ys))"

definition cpu_saturated :: "sat_options \<Rightarrow> cgroup_sample \<Rightarrow> bool" where
  "cpu_saturated opts smp \<longleftrightarrow> (let r = cg_cpu_pressure smp
     in rd_enabled r \<and> f_less (so_cpu_threshold opts) (rd_percent r))"

definition memory_soft :: "sat_options \<Rightarrow> cgroup_sample \<Rightarrow> bool" where
  "memory_soft opts smp \<longleftrightarrow> (let r = cg_working_set smp
     in rd_enabled r \<and> f_le (f_mul (so_soft_ratio opts) (Fin 100)) (rd_percent r))"

definition evaluate :: "sat_options \<Rightarrow> cgroup_sample \<Rightarrow> bool \<times> bool \<times> string" where
  "evaluate opts smp =
     (let causes1 = (if cpu_saturated opts smp
                     then [''CPU pressure '' @ format_percent (rd_percent (cg_cpu_pressure smp))
                           @ '' (some avg10)'']
                     else []);
          soft = memory_soft opts smp;
          causes2 = (if soft then [''memory working set '' @ format_percent (rd_percent (cg_working_set smp))
                           @ '' of limit'']
                     else []);
          hard = (soft \<and> f_le (f_mul (so_hard_ratio opts) (Fin 100)) (rd_percent (cg_working_set smp)));
          causes = causes1 @ causes2
      in (hard, causes \<noteq> [], join_strings '', '' causes))"

section \<open>The step\<close>

text \<open>Go's integer division by two truncates toward zero.\<close>

definition halve :: "int \<Rightarrow> int" where
  "halve x = (if x < 0 then - ((- x) div 2) else x div 2)"

definition sat_step ::
  "instant \<Rightarrow> cgroup_sample \<Rightarrow> local_state \<Rightarrow> int \<Rightarrow> duration \<Rightarrow> saturation
     \<Rightarrow> saturation \<times> local_state" where
  "sat_step now smp cur ceil recovery s0 =
     (let s = (if sa_last_step s0 = 0 then s0\<lparr>sa_last_step := now\<rparr> else s0);
          (hard, saturated, cause) = evaluate (sa_opts s) smp;
          (s, nxt) =
            (if hard then
               (s\<lparr>sa_cut := True, sa_last_step := now\<rparr>,
                cur\<lparr>ls_capacity := capacity_floor, ls_cause := cause\<rparr>)
             else if saturated then
               (s\<lparr>sa_cut := True, sa_last_step := now\<rparr>,
                cur\<lparr>ls_capacity := max capacity_floor (halve (ls_capacity cur)), ls_cause := cause\<rparr>)
             else
               let nxt = cur\<lparr>ls_cause := []\<rparr>;
                   wait = (if sa_cut s then recovery else so_startup_ramp (sa_opts s))
               in if ls_capacity cur < ceil \<and> wait \<le> time_sub now (sa_last_step s)
                  then (s\<lparr>sa_last_step := now\<rparr>, nxt\<lparr>ls_capacity := ls_capacity cur + 1\<rparr>)
                  else (s, nxt))
      in (s, nxt\<lparr>ls_ramping := \<not> sa_cut s \<and> ls_capacity nxt < ceil\<rparr>))"

record input_snapshot =
  is_input :: string
  is_enabled :: bool
  is_percent :: f64

definition sat_inputs :: "saturation option \<Rightarrow> input_snapshot list" where
  "sat_inputs s =
     map (\<lambda>i. case Option.bind s sa_last of
            None \<Rightarrow> \<lparr>is_input = i, is_enabled = False, is_percent = Fin 0\<rparr>
          | Some smp \<Rightarrow> (let r = by_input smp i
              in if rd_enabled r then \<lparr>is_input = i, is_enabled = True, is_percent = rd_percent r\<rparr>
                 else \<lparr>is_input = i, is_enabled = False, is_percent = Fin 0\<rparr>)) all_inputs"

section \<open>Facts\<close>

definition smp_hard :: "sat_options \<Rightarrow> cgroup_sample \<Rightarrow> bool" where
  "smp_hard opts smp = fst (evaluate opts smp)"

definition smp_saturated :: "sat_options \<Rightarrow> cgroup_sample \<Rightarrow> bool" where
  "smp_saturated opts smp = fst (snd (evaluate opts smp))"

definition smp_cause :: "sat_options \<Rightarrow> cgroup_sample \<Rightarrow> string" where
  "smp_cause opts smp = snd (snd (evaluate opts smp))"

lemma evaluate_eq: "evaluate opts smp = (smp_hard opts smp, smp_saturated opts smp, smp_cause opts smp)"
  by (simp add: smp_hard_def smp_saturated_def smp_cause_def)

lemma smp_saturated_iff: "smp_saturated opts smp \<longleftrightarrow> cpu_saturated opts smp \<or> memory_soft opts smp"
  by (auto simp: smp_saturated_def evaluate_def Let_def)

lemma smp_hard_saturated: "smp_hard opts smp \<Longrightarrow> smp_saturated opts smp"
  by (auto simp: smp_hard_def smp_saturated_def evaluate_def Let_def)

lemma smp_cause_Nil_iff: "smp_cause opts smp = [] \<longleftrightarrow> \<not> smp_saturated opts smp"
  by (auto simp: smp_cause_def smp_saturated_def evaluate_def Let_def join_strings_def)

lemma halve_nonneg [simp]: "0 \<le> x \<Longrightarrow> halve x = x div 2"
  by (simp add: halve_def)

text \<open>The four outcomes of a step, one equation each.\<close>

abbreviation started :: "instant \<Rightarrow> saturation \<Rightarrow> instant" where
  "started now s \<equiv> (if sa_last_step s = 0 then now else sa_last_step s)"

abbreviation raise_wait :: "duration \<Rightarrow> saturation \<Rightarrow> duration" where
  "raise_wait recovery s \<equiv> (if sa_cut s then recovery else so_startup_ramp (sa_opts s))"

lemma sat_step_hard [step_simps]:
  "smp_hard (sa_opts s) smp \<Longrightarrow> sat_step now smp cur ceil recovery s =
     (s\<lparr>sa_cut := True, sa_last_step := now\<rparr>,
      \<lparr>ls_capacity = capacity_floor, ls_cause = smp_cause (sa_opts s) smp, ls_ramping = False\<rparr>)"
  by (simp add: sat_step_def Let_def evaluate_eq)

lemma sat_step_soft [step_simps]:
  "smp_saturated (sa_opts s) smp \<Longrightarrow> \<not> smp_hard (sa_opts s) smp \<Longrightarrow>
   sat_step now smp cur ceil recovery s =
     (s\<lparr>sa_cut := True, sa_last_step := now\<rparr>,
      \<lparr>ls_capacity = max capacity_floor (halve (ls_capacity cur)),
       ls_cause = smp_cause (sa_opts s) smp, ls_ramping = False\<rparr>)"
  by (simp add: sat_step_def Let_def evaluate_eq)

lemma sat_step_clean [step_simps]:
  "\<not> smp_saturated (sa_opts s) smp \<Longrightarrow>
   sat_step now smp cur ceil recovery s =
     (if ls_capacity cur < ceil \<and> raise_wait recovery s \<le> time_sub now (started now s)
      then (s\<lparr>sa_last_step := now\<rparr>,
            \<lparr>ls_capacity = ls_capacity cur + 1, ls_cause = [],
             ls_ramping = (\<not> sa_cut s \<and> ls_capacity cur + 1 < ceil)\<rparr>)
      else (s\<lparr>sa_last_step := started now s\<rparr>,
            \<lparr>ls_capacity = ls_capacity cur, ls_cause = [],
             ls_ramping = (\<not> sa_cut s \<and> ls_capacity cur < ceil)\<rparr>))"
  using smp_hard_saturated[of "sa_opts s" smp]
  by (auto simp: sat_step_def Let_def evaluate_eq)

lemma sat_step_cases [consumes 1, case_names hard soft raise keep]:
  assumes "sat_step now smp cur ceil recovery s = (s', nxt)"
  obtains
    "smp_hard (sa_opts s) smp" "smp_saturated (sa_opts s) smp" "ls_capacity nxt = 1"
    "sa_cut s'" "sa_last_step s' = now" "\<not> ls_ramping nxt"
  | "\<not> smp_hard (sa_opts s) smp" "smp_saturated (sa_opts s) smp"
    "ls_capacity nxt = max 1 (halve (ls_capacity cur))"
    "sa_cut s'" "sa_last_step s' = now" "\<not> ls_ramping nxt"
  | "\<not> smp_saturated (sa_opts s) smp" "ls_capacity cur < ceil"
    "raise_wait recovery s \<le> time_sub now (started now s)"
    "ls_capacity nxt = ls_capacity cur + 1" "sa_cut s' = sa_cut s" "sa_last_step s' = now"
    "ls_ramping nxt = (\<not> sa_cut s \<and> ls_capacity cur + 1 < ceil)"
  | "\<not> smp_saturated (sa_opts s) smp"
    "\<not> (ls_capacity cur < ceil \<and> raise_wait recovery s \<le> time_sub now (started now s))"
    "ls_capacity nxt = ls_capacity cur" "sa_cut s' = sa_cut s" "sa_last_step s' = started now s"
    "ls_ramping nxt = (\<not> sa_cut s \<and> ls_capacity cur < ceil)"
proof -
  consider "smp_hard (sa_opts s) smp" | "\<not> smp_hard (sa_opts s) smp" "smp_saturated (sa_opts s) smp"
    | "\<not> smp_saturated (sa_opts s) smp" by blast
  then show thesis
  proof cases
    case 1
    then show ?thesis using assms by (intro that(1)) (auto simp: step_simps capacity_floor_def smp_hard_saturated)
  next
    case 2
    then show ?thesis using assms by (intro that(2)) (auto simp: step_simps capacity_floor_def)
  next
    case 3
    then show ?thesis
    proof (cases "ls_capacity cur < ceil \<and> raise_wait recovery s \<le> time_sub now (started now s)")
      case True
      then show ?thesis using 3 assms by (intro that(3)) (auto simp: step_simps)
    next
      case False
      then show ?thesis using 3 assms by (intro that(4)) (auto simp: step_simps split: if_splits)
    qed
  qed
qed

lemma sat_step_opts [simp]: "sa_opts (fst (sat_step now smp cur ceil recovery s)) = sa_opts s"
  by (cases "smp_saturated (sa_opts s) smp"; cases "smp_hard (sa_opts s) smp")
    (simp_all add: step_simps smp_hard_saturated)

lemma sat_step_bounds:
  assumes "sat_step now smp cur ceil recovery s = (s', nxt)"
    and "1 \<le> ls_capacity cur" "ls_capacity cur \<le> ceil"
  shows "1 \<le> ls_capacity nxt" "ls_capacity nxt \<le> ceil"
  using assms(1)
  by (cases rule: sat_step_cases; use assms(2,3) in auto)+

text \<open>A step that publishes the startup ramp leaves room to climb, and names no cause.\<close>

lemma sat_step_ramping:
  assumes "sat_step now smp cur ceil recovery s = (s', nxt)" "ls_ramping nxt"
  shows "ls_capacity nxt < ceil" "\<not> sa_cut s'"
  using assms(1) by (cases rule: sat_step_cases; use assms(2) in auto)+

lemma with_defaults_ok:
  assumes "with_defaults opts = Inr opts'"
  shows "0 < so_sample_period opts'" "0 < so_startup_ramp opts'"
    "\<not> f_less (so_cpu_threshold opts') (Fin 0)" "\<not> f_less (Fin 100) (so_cpu_threshold opts')"
    "so_cpu_threshold opts' \<noteq> Fin 0"
  using assms
  by (auto simp: with_defaults_def fill_defaults_def or_default_def Let_def default_sample_period_def
      default_startup_ramp_def default_cpu_threshold_def split: if_splits)

end
