(* ===== verification/Governor.thy ===== *)
theory Governor
  imports Signals Saturation
begin

text \<open>
  The rate-limit governor (src/pkg/ratelimit/governor.go): per-key capacity, in-flight calls and
  holds, the process-wide local capacity, and the operations \<open>New\<close>, \<open>RegisterReconciler\<close>,
  \<open>AcquireAll\<close> and its release, \<open>Observe\<close>, \<open>Capacity\<close>, \<open>Start\<close>, \<open>sample\<close> and \<open>Snapshot\<close>.
  Each operation runs under \<open>g.mu\<close> in the code, so it is one function here.  The clock reading
  is the argument \<open>now\<close>; the jitter, a field of the code's struct, is the argument \<open>jit\<close>, which
  \<open>New\<close> makes \<open>jitter_between\<close> of a random source.  Logging and the metrics recorder are not
  part of the state.
\<close>

section \<open>Deferrals\<close>

datatype defer_reason = DeferThrottled | DeferAtCapacity | DeferSaturated | DeferRamping

fun defer_cause :: "defer_reason \<Rightarrow> string" where
  "defer_cause DeferThrottled = ''throttled''"
| "defer_cause DeferAtCapacity = ''capacity''"
| "defer_cause DeferSaturated = ''saturated''"
| "defer_cause DeferRamping = ''ramping''"

record deferral =
  d_key :: string
  d_reason :: defer_reason
  d_until :: instant
  d_requeue_after :: duration
  d_capacity :: int
  d_local :: bool
  d_cause :: string

text \<open>\<open>formatDeadline\<close>: rounded up to the whole second, in UTC.\<close>

definition ceil_second :: "instant \<Rightarrow> instant" where
  "ceil_second t = (let r = trunc_second t in if r < t then r + second else r)"

definition format_deadline :: "instant \<Rightarrow> string" where
  "format_deadline t = format_rfc3339 (Time (ceil_second t) 0)"

definition allowed_text :: "int \<Rightarrow> string" where
  "allowed_text n = ''('' @ dec_int n @ '' call(s) in flight allowed)''"

definition no_deadline_text :: string where
  "no_deadline_text = ''; no server deadline was given''"

definition deferral_message :: "deferral \<Rightarrow> string" where
  "deferral_message d =
     (case d_reason d of
        DeferThrottled \<Rightarrow> ''reconciliation deferred: '' @ d_key d
          @ '' is rate-limited by the server; next attempt '' @ format_deadline (d_until d)
      | DeferSaturated \<Rightarrow> ''reconciliation deferred: controller saturated: '' @ d_cause d
          @ ''; waiting for capacity '' @ allowed_text (d_capacity d) @ no_deadline_text
      | DeferRamping \<Rightarrow> ''reconciliation deferred: controller ramping up after a start ''
          @ allowed_text (d_capacity d) @ ''; waiting for capacity'' @ no_deadline_text
      | DeferAtCapacity \<Rightarrow>
          if d_local d \<and> d_cause d \<noteq> [] then
            ''reconciliation deferred: '' @ d_cause d @ ''; waiting for capacity ''
            @ allowed_text (d_capacity d) @ no_deadline_text
          else if d_local d then
            ''reconciliation deferred: controller recovering its local concurrency limit ''
            @ allowed_text (d_capacity d) @ ''; waiting for capacity'' @ no_deadline_text
          else
            ''reconciliation deferred: '' @ d_key d @ '' is at its concurrency limit of ''
            @ dec_int (d_capacity d) @ '' call(s); waiting for capacity'' @ no_deadline_text)"

section \<open>State\<close>

definition default_recovery_interval :: duration where "default_recovery_interval = 30 * second"
definition min_capacity_jitter :: duration where "min_capacity_jitter = second"

record key_state =
  ks_capacity :: int
  ks_in_flight :: int
  ks_hold_until :: instant
  ks_last_reduce :: instant
  ks_last_raise :: instant

record governor =
  g_per_controller :: int
  g_ignore_signals :: bool
  g_recovery :: duration
  g_keys :: "(string, key_state) mapping"
  g_local_in_flight :: int
  g_reconcilers :: int
  g_local :: local_state
  g_sat :: "saturation option"
  g_sampler_started :: bool

record gov_options =
  go_max_concurrent :: int
  go_ignore_signals :: bool
  go_recovery :: duration
  go_saturation :: sat_options

datatype gov_error = BadMaxConcurrent | BadRecovery | BadSaturation sat_error

definition new_governor :: "gov_options \<Rightarrow> gov_error + governor" where
  "new_governor opts =
     (if go_max_concurrent opts < 1 then Inl BadMaxConcurrent
      else if go_recovery opts < 0 then Inl BadRecovery
      else
        let recovery = (if go_recovery opts = 0 then default_recovery_interval else go_recovery opts);
            g = \<lparr>g_per_controller = go_max_concurrent opts,
                 g_ignore_signals = go_ignore_signals opts,
                 g_recovery = recovery,
                 g_keys = Mapping.empty,
                 g_local_in_flight = 0,
                 g_reconcilers = 0,
                 g_local = \<lparr>ls_capacity = go_max_concurrent opts, ls_cause = [], ls_ramping = False\<rparr>,
                 g_sat = None,
                 g_sampler_started = False\<rparr>
        in if so_enabled (go_saturation opts)
           then (case new_saturation (go_saturation opts) of
                   Inl e \<Rightarrow> Inl (BadSaturation e)
                 | Inr s \<Rightarrow> Inr (g\<lparr>g_sat := Some s,
                     g_local := \<lparr>ls_capacity = capacity_floor, ls_cause = [], ls_ramping = True\<rparr>\<rparr>))
           else Inr g)"

text \<open>
  \<open>draw n\<close> is \<open>cryptorand.Int(r, n)\<close>: a number below \<open>n\<close>, or \<open>None\<close> when the source fails.
\<close>

definition jitter_between :: "(int \<Rightarrow> int option) \<Rightarrow> duration \<Rightarrow> duration \<Rightarrow> duration" where
  "jitter_between draw lo hi =
     (if hi \<le> lo then hi
      else case draw (hi - lo + 1) of None \<Rightarrow> hi | Some n \<Rightarrow> lo + n)"

definition default_jitter :: "(int \<Rightarrow> int option) \<Rightarrow> duration \<Rightarrow> duration" where
  "default_jitter draw hi = jitter_between draw min_capacity_jitter hi"

definition ceiling_locked :: "governor \<Rightarrow> int" where
  "ceiling_locked g = i64 (g_per_controller g * max 1 (g_reconcilers g))"

definition saturation_enabled :: "governor \<Rightarrow> bool" where
  "saturation_enabled g \<longleftrightarrow> g_sat g \<noteq> None"

definition register_reconciler :: "governor \<Rightarrow> governor" where
  "register_reconciler g =
     (let old = ceiling_locked g;
          g = g\<lparr>g_reconcilers := g_reconcilers g + 1\<rparr>;
          ceil = ceiling_locked g;
          g = g\<lparr>g_keys := Mapping.map_values
                  (\<lambda>_ st. if ks_capacity st = old then st\<lparr>ks_capacity := ceil\<rparr> else st) (g_keys g)\<rparr>
      in if g_sat g = None \<and> ls_capacity (g_local g) = old
         then g\<lparr>g_local := (g_local g)\<lparr>ls_capacity := ceil\<rparr>\<rparr>
         else g)"

section \<open>Key states\<close>

definition fresh_key :: "int \<Rightarrow> key_state" where
  "fresh_key ceil = \<lparr>ks_capacity = ceil, ks_in_flight = 0, ks_hold_until = 0,
     ks_last_reduce = 0, ks_last_raise = 0\<rparr>"

text \<open>\<open>g.state(key)\<close>: the key's state, created at the ceiling; the caller stores it back.\<close>

definition key_state_of :: "governor \<Rightarrow> string \<Rightarrow> key_state" where
  "key_state_of g k =
     (case Mapping.lookup (g_keys g) k of None \<Rightarrow> fresh_key (ceiling_locked g) | Some st \<Rightarrow> st)"

definition put_key :: "string \<Rightarrow> key_state \<Rightarrow> governor \<Rightarrow> governor" where
  "put_key k st g = g\<lparr>g_keys := Mapping.update k st (g_keys g)\<rparr>"

definition maybe_raise :: "int \<Rightarrow> duration \<Rightarrow> instant \<Rightarrow> key_state \<Rightarrow> key_state" where
  "maybe_raise ceil recovery now st =
     (if ks_capacity st \<ge> ceil \<or> now < ks_hold_until st then st
      else
        let clean_since = (if ks_hold_until st > ks_last_reduce st then ks_hold_until st
                           else ks_last_reduce st)
        in if time_sub now clean_since < recovery \<or> time_sub now (ks_last_raise st) < recovery then st
           else st\<lparr>ks_capacity := ks_capacity st + 1, ks_last_raise := now\<rparr>)"

section \<open>Acquire and release\<close>

definition normalize_keys :: "string list \<Rightarrow> string list" where
  "normalize_keys keys = remdups_adj (sort (filter (\<lambda>k. k \<noteq> []) keys))"

definition ramp_left :: "saturation \<Rightarrow> int \<Rightarrow> int \<Rightarrow> duration" where
  "ramp_left s ceil capacity =
     (let step = max (so_startup_ramp (sa_opts s)) (so_sample_period (sa_opts s))
      in i64 ((ceil - capacity) * step))"

definition cause_sampler_not_started :: string where
  "cause_sampler_not_started =
     ''saturation sampler is not running: add the Governor to the manager''"

text \<open>The first loop of \<open>acquire\<close>: raise what is due, remember the latest hold.\<close>

fun touch_keys ::
  "instant \<Rightarrow> string list \<Rightarrow> governor \<Rightarrow> deferral option \<Rightarrow> governor \<times> deferral option" where
  "touch_keys now [] g held = (g, held)"
| "touch_keys now (k # ks) g held =
     (let st = maybe_raise (ceiling_locked g) (g_recovery g) now (key_state_of g k);
          held = (if now < ks_hold_until st
                     \<and> (case held of None \<Rightarrow> True | Some h \<Rightarrow> ks_hold_until st > d_until h)
                  then Some \<lparr>d_key = k, d_reason = DeferThrottled, d_until = ks_hold_until st,
                             d_requeue_after = time_sub (ks_hold_until st) now,
                             d_capacity = 0, d_local = False, d_cause = []\<rparr>
                  else held)
      in touch_keys now ks (put_key k st g) held)"

fun first_full :: "string list \<Rightarrow> governor \<Rightarrow> (string \<times> key_state) option" where
  "first_full [] g = None"
| "first_full (k # ks) g =
     (let st = key_state_of g k
      in if ks_in_flight st \<ge> ks_capacity st then Some (k, st) else first_full ks g)"

definition take_slot :: "string \<Rightarrow> governor \<Rightarrow> governor" where
  "take_slot k g =
     (let st = key_state_of g k in put_key k (st\<lparr>ks_in_flight := ks_in_flight st + 1\<rparr>) g)"

definition local_deferral :: "(duration \<Rightarrow> duration) \<Rightarrow> string list \<Rightarrow> governor \<Rightarrow> deferral" where
  "local_deferral jit keys g =
     (let loc = g_local g;
          key = (case keys of [k] \<Rightarrow> k | _ \<Rightarrow> []);
          d = \<lparr>d_key = key, d_reason = DeferAtCapacity, d_until = 0,
               d_requeue_after = jit (g_recovery g), d_capacity = ls_capacity loc,
               d_local = True, d_cause = ls_cause loc\<rparr>
      in if ls_cause loc \<noteq> [] then d\<lparr>d_reason := DeferSaturated\<rparr>
         else if ls_ramping loc \<and> g_sampler_started g then
           (case g_sat g of None \<Rightarrow> d
            | Some s \<Rightarrow> d\<lparr>d_reason := DeferRamping,
                d_requeue_after := jit (min (g_recovery g)
                  (ramp_left s (ceiling_locked g) (ls_capacity loc)))\<rparr>)
         else if ls_ramping loc then d\<lparr>d_cause := cause_sampler_not_started\<rparr>
         else d)"

definition acquire ::
  "(duration \<Rightarrow> duration) \<Rightarrow> instant \<Rightarrow> string list \<Rightarrow> governor \<Rightarrow> governor \<times> deferral option" where
  "acquire jit now keys g =
     (let (g, held) = touch_keys now keys g None
      in case held of
           Some d \<Rightarrow> (g, Some d)
         | None \<Rightarrow>
             (case first_full keys g of
                Some (k, st) \<Rightarrow>
                  (g, Some \<lparr>d_key = k, d_reason = DeferAtCapacity, d_until = 0,
                            d_requeue_after = jit (g_recovery g), d_capacity = ks_capacity st,
                            d_local = False, d_cause = []\<rparr>)
              | None \<Rightarrow>
                  if g_local_in_flight g \<ge> ls_capacity (g_local g)
                  then (g, Some (local_deferral jit keys g))
                  else
                    let g = fold take_slot keys g
                    in (g\<lparr>g_local_in_flight := g_local_in_flight g + 1\<rparr>, None)))"

text \<open>
  \<open>AcquireAll\<close> returns the deferral, or the release closure over the normalized keys.  \<open>release\<close>
  is the closure's body; \<open>sync.Once\<close> makes the slot \<open>None\<close> after the first call.
\<close>

definition acquire_all ::
  "(duration \<Rightarrow> duration) \<Rightarrow> instant \<Rightarrow> string list \<Rightarrow> governor \<Rightarrow> governor \<times> deferral option" where
  "acquire_all jit now keys g = acquire jit now (normalize_keys keys) g"

definition acquire_one ::
  "(duration \<Rightarrow> duration) \<Rightarrow> instant \<Rightarrow> string \<Rightarrow> governor \<Rightarrow> governor \<times> deferral option" where
  "acquire_one jit now key g = acquire_all jit now [key] g"

definition drop_slot :: "string \<Rightarrow> governor \<Rightarrow> governor" where
  "drop_slot k g =
     (case Mapping.lookup (g_keys g) k of
        None \<Rightarrow> g
      | Some st \<Rightarrow> if ks_in_flight st > 0
                  then put_key k (st\<lparr>ks_in_flight := ks_in_flight st - 1\<rparr>) g else g)"

definition release :: "string list \<Rightarrow> governor \<Rightarrow> governor" where
  "release keys g =
     (let g = fold drop_slot keys g
      in if g_local_in_flight g > 0
         then g\<lparr>g_local_in_flight := g_local_in_flight g - 1\<rparr> else g)"

type_synonym slot = "string list option"

definition release_once :: "slot \<Rightarrow> governor \<Rightarrow> slot \<times> governor" where
  "release_once sl g = (case sl of None \<Rightarrow> (None, g) | Some keys \<Rightarrow> (None, release keys g))"

section \<open>Signals, capacity, sampling, snapshot\<close>

definition observe_signal :: "instant \<Rightarrow> signal \<Rightarrow> governor \<Rightarrow> governor" where
  "observe_signal now s g =
     (if sg_key s = [] \<or> g_ignore_signals g then g
      else
        let kind = classify s now; st = key_state_of g (sg_key s)
        in case kind of
             SignalNone \<Rightarrow> g
           | SignalThrottled \<Rightarrow>
               (let d = signal_deadline s now;
                    st = st\<lparr>ks_capacity := capacity_floor\<rparr>;
                    st = (if d > ks_hold_until st then st\<lparr>ks_hold_until := d\<rparr> else st)
                in put_key (sg_key s) (st\<lparr>ks_last_reduce := now\<rparr>) g)
           | SignalAdvisory \<Rightarrow>
               put_key (sg_key s)
                 (st\<lparr>ks_capacity := max capacity_floor (halve (ks_capacity st)),
                    ks_last_reduce := now\<rparr>) g)"

definition capacity_of :: "instant \<Rightarrow> string \<Rightarrow> governor \<Rightarrow> governor \<times> int" where
  "capacity_of now k g =
     (case Mapping.lookup (g_keys g) k of
        None \<Rightarrow> (g, ceiling_locked g)
      | Some st \<Rightarrow>
          let st = maybe_raise (ceiling_locked g) (g_recovery g) now st
          in (put_key k st g, ks_capacity st))"

definition local_capacity :: "governor \<Rightarrow> int" where
  "local_capacity g = ls_capacity (g_local g)"

text \<open>\<open>Start\<close> marks the sampler running, then takes a sample at once and on every tick.\<close>

definition start_sampler :: "governor \<Rightarrow> governor" where
  "start_sampler g = (if g_sat g = None then g else g\<lparr>g_sampler_started := True\<rparr>)"

definition sample :: "instant \<Rightarrow> cgroup_sample \<Rightarrow> governor \<Rightarrow> governor" where
  "sample now smp g =
     (case g_sat g of None \<Rightarrow> g
      | Some s \<Rightarrow>
          let s = fst (sat_read smp s);
              (s, nxt) = sat_step now smp (g_local g) (ceiling_locked g) (g_recovery g) s
          in g\<lparr>g_sat := Some s, g_local := nxt\<rparr>)"

record key_snapshot =
  sn_key :: string
  sn_capacity :: int
  sn_seconds_to_reset :: f64

record snapshot =
  sn_keys :: "key_snapshot list"
  sn_local_capacity :: int
  sn_inputs :: "input_snapshot list"

definition key_snapshot_of :: "instant \<Rightarrow> string \<Rightarrow> key_state \<Rightarrow> key_snapshot" where
  "key_snapshot_of now k st =
     \<lparr>sn_key = k, sn_capacity = ks_capacity st,
      sn_seconds_to_reset = (if now < ks_hold_until st
        then duration_seconds (time_sub (ks_hold_until st) now) else Fin 0)\<rparr>"

definition take_snapshot :: "instant \<Rightarrow> governor \<Rightarrow> governor \<times> snapshot" where
  "take_snapshot now g =
     (let g = g\<lparr>g_keys := Mapping.map_values
                  (\<lambda>_ st. maybe_raise (ceiling_locked g) (g_recovery g) now st) (g_keys g)\<rparr>
      in (g, \<lparr>sn_keys = map (\<lambda>k. key_snapshot_of now k (key_state_of g k))
                         (Mapping.ordered_keys (g_keys g)),
              sn_local_capacity = local_capacity g,
              sn_inputs = sat_inputs (g_sat g)\<rparr>))"

end
