(* ===== verification/Governor_Facts.thy ===== *)
theory Governor_Facts
  imports Governor "HOL-Library.Multiset"
begin

text \<open>
  What each governor operation does to each field, and the invariant that ties the counters to
  the calls in flight.  A call in flight is its token, the normalized key list its release
  closure holds; the outstanding calls are a multiset of tokens.  The interface
  \<open>call_gate\<close> states what a caller of \<open>AcquireAll\<close> may rely on.
\<close>

section \<open>Fields\<close>

lemma ceiling_put_key [simp]: "ceiling_locked (put_key k st g) = ceiling_locked g"
  by (simp add: ceiling_locked_def put_key_def)

lemma put_key_fields [simp]:
  "g_per_controller (put_key k st g) = g_per_controller g"
  "g_ignore_signals (put_key k st g) = g_ignore_signals g"
  "g_recovery (put_key k st g) = g_recovery g"
  "g_local_in_flight (put_key k st g) = g_local_in_flight g"
  "g_reconcilers (put_key k st g) = g_reconcilers g"
  "g_local (put_key k st g) = g_local g"
  "g_sat (put_key k st g) = g_sat g"
  "g_sampler_started (put_key k st g) = g_sampler_started g"
  by (simp_all add: put_key_def)

lemma key_state_of_put_key [simp]:
  "key_state_of (put_key k st g) k' = (if k = k' then st else key_state_of g k')"
  by (auto simp: key_state_of_def put_key_def ceiling_locked_def lookup_update' split: option.splits)

text \<open>Neither the ceiling nor a key's state depends on the local part of the governor.\<close>

lemma ceiling_updates [simp]:
  "ceiling_locked (g\<lparr>g_local_in_flight := n\<rparr>) = ceiling_locked g"
  "ceiling_locked (g\<lparr>g_local := l\<rparr>) = ceiling_locked g"
  "ceiling_locked (g\<lparr>g_sat := s\<rparr>) = ceiling_locked g"
  "ceiling_locked (g\<lparr>g_sampler_started := b\<rparr>) = ceiling_locked g"
  "ceiling_locked (g\<lparr>g_keys := m\<rparr>) = ceiling_locked g"
  by (simp_all add: ceiling_locked_def)

lemma key_state_of_updates [simp]:
  "key_state_of (g\<lparr>g_local_in_flight := n\<rparr>) = key_state_of g"
  "key_state_of (g\<lparr>g_local := l\<rparr>) = key_state_of g"
  "key_state_of (g\<lparr>g_sat := s\<rparr>) = key_state_of g"
  "key_state_of (g\<lparr>g_sampler_started := b\<rparr>) = key_state_of g"
  by (simp_all add: fun_eq_iff key_state_of_def cong: option.case_cong)

text \<open>The part of the state that no operation on keys touches.\<close>

definition same_frame :: "governor \<Rightarrow> governor \<Rightarrow> bool" where
  "same_frame g h \<longleftrightarrow> g_per_controller g = g_per_controller h \<and> g_ignore_signals g = g_ignore_signals h
     \<and> g_recovery g = g_recovery h \<and> g_reconcilers g = g_reconcilers h \<and> g_local g = g_local h
     \<and> g_sat g = g_sat h \<and> g_sampler_started g = g_sampler_started h"

lemma same_frame_refl [simp]: "same_frame g g"
  by (simp add: same_frame_def)

lemma same_frame_trans: "same_frame f g \<Longrightarrow> same_frame g h \<Longrightarrow> same_frame f h"
  by (simp add: same_frame_def)

lemma same_frame_put_key [simp]: "same_frame (put_key k st g) g"
  by (simp add: same_frame_def)

lemma same_frame_ceiling: "same_frame g h \<Longrightarrow> ceiling_locked g = ceiling_locked h"
  by (simp add: same_frame_def ceiling_locked_def)

lemma same_frame_simps:
  assumes "same_frame g h"
  shows "g_per_controller g = g_per_controller h" "g_recovery g = g_recovery h"
    "g_reconcilers g = g_reconcilers h" "g_local g = g_local h" "g_sat g = g_sat h"
    "g_sampler_started g = g_sampler_started h" "ceiling_locked g = ceiling_locked h"
  using assms by (simp_all add: same_frame_def ceiling_locked_def)

section \<open>Raising a key\<close>

abbreviation raised :: "instant \<Rightarrow> governor \<Rightarrow> string \<Rightarrow> key_state" where
  "raised now g k \<equiv> maybe_raise (ceiling_locked g) (g_recovery g) now (key_state_of g k)"

lemma maybe_raise_fields [simp]:
  "ks_in_flight (maybe_raise c r now st) = ks_in_flight st"
  "ks_hold_until (maybe_raise c r now st) = ks_hold_until st"
  "ks_last_reduce (maybe_raise c r now st) = ks_last_reduce st"
  by (simp_all add: maybe_raise_def Let_def)

lemma maybe_raise_capacity:
  "ks_capacity (maybe_raise c r now st) =
     (if ks_capacity st < c \<and> ks_hold_until st \<le> now
         \<and> r \<le> time_sub now (max (ks_hold_until st) (ks_last_reduce st))
         \<and> r \<le> time_sub now (ks_last_raise st)
      then ks_capacity st + 1 else ks_capacity st)"
  by (auto simp: maybe_raise_def Let_def max_def)

lemma maybe_raise_bounds:
  "1 \<le> ks_capacity st \<Longrightarrow> 1 \<le> ks_capacity (maybe_raise c r now st)"
  "ks_capacity st \<le> c \<Longrightarrow> ks_capacity (maybe_raise c r now st) \<le> c"
  by (simp_all add: maybe_raise_capacity)

lemma maybe_raise_mono: "ks_capacity st \<le> ks_capacity (maybe_raise c r now st)"
  by (simp add: maybe_raise_capacity)

lemma maybe_raise_last_raise:
  "ks_last_raise (maybe_raise c r now st) =
     (if ks_capacity (maybe_raise c r now st) = ks_capacity st then ks_last_raise st else now)"
  by (auto simp: maybe_raise_def Let_def)

lemma maybe_raise_fresh [simp]: "maybe_raise c r now (fresh_key c) = fresh_key c"
  by (simp add: maybe_raise_def fresh_key_def)

section \<open>Keys of a call\<close>

lemma set_normalize_keys [simp]: "set (normalize_keys ks) = {k \<in> set ks. k \<noteq> []}"
  by (auto simp: normalize_keys_def)

lemma sorted_distinct_remdups_adj:
  "sorted xs \<Longrightarrow> sorted (remdups_adj xs) \<and> distinct (remdups_adj xs)"
  by (induction xs rule: remdups_adj.induct) auto

lemma distinct_normalize_keys [simp]: "distinct (normalize_keys ks)"
  by (simp add: normalize_keys_def sorted_distinct_remdups_adj)

lemma sorted_normalize_keys [simp]: "sorted (normalize_keys ks)"
  by (simp add: normalize_keys_def sorted_distinct_remdups_adj)

section \<open>The first loop of acquire\<close>

definition throttled_by :: "instant \<Rightarrow> governor \<Rightarrow> string \<Rightarrow> deferral" where
  "throttled_by now g k =
     \<lparr>d_key = k, d_reason = DeferThrottled, d_until = ks_hold_until (key_state_of g k),
      d_requeue_after = time_sub (ks_hold_until (key_state_of g k)) now,
      d_capacity = 0, d_local = False, d_cause = []\<rparr>"

abbreviation held_now :: "instant \<Rightarrow> governor \<Rightarrow> string \<Rightarrow> bool" where
  "held_now now g k \<equiv> now < ks_hold_until (key_state_of g k)"

lemma touch_keys_frame:
  "same_frame (fst (touch_keys now ks g h)) g
   \<and> g_local_in_flight (fst (touch_keys now ks g h)) = g_local_in_flight g"
  by (induction ks arbitrary: g h)
    (auto simp: Let_def intro: same_frame_trans[OF _ same_frame_put_key])

lemma touch_keys_state:
  "distinct ks \<Longrightarrow> key_state_of (fst (touch_keys now ks g h)) k =
     (if k \<in> set ks then raised now g k else key_state_of g k)"
  by (induction ks arbitrary: g h) (auto simp: Let_def)

lemma touch_keys_None:
  "distinct ks \<Longrightarrow>
   snd (touch_keys now ks g h) = None \<longleftrightarrow> h = None \<and> (\<forall>k \<in> set ks. \<not> held_now now g k)"
  by (induction ks arbitrary: g h) (auto simp: Let_def)

lemma touch_keys_Some:
  "distinct ks \<Longrightarrow> snd (touch_keys now ks g h) = Some d \<Longrightarrow>
     (h = Some d \<or> (\<exists>k \<in> set ks. held_now now g k \<and> d = throttled_by now g k))
     \<and> (\<forall>h'. h = Some h' \<longrightarrow> d_until h' \<le> d_until d)
     \<and> (\<forall>k \<in> set ks. held_now now g k \<longrightarrow> ks_hold_until (key_state_of g k) \<le> d_until d)"
proof (induction ks arbitrary: g h)
  case Nil
  then show ?case by simp
next
  case (Cons k ks)
  define g' where "g' = put_key k (raised now g k) g"
  define h' where "h' = (if held_now now g k
       \<and> (case h of None \<Rightarrow> True | Some h \<Rightarrow> ks_hold_until (key_state_of g k) > d_until h)
     then Some (throttled_by now g k) else h)"
  have step: "touch_keys now (k # ks) g h = touch_keys now ks g' h'"
    by (cases h) (simp_all add: g'_def h'_def throttled_by_def Let_def)
  have same: "x \<in> set ks \<Longrightarrow> key_state_of g' x = key_state_of g x" for x
    using Cons.prems(1) by (auto simp: g'_def)
  from Cons.IH[of g' h'] Cons.prems step have IH:
    "h' = Some d \<or> (\<exists>k \<in> set ks. held_now now g' k \<and> d = throttled_by now g' k)"
    "\<forall>h''. h' = Some h'' \<longrightarrow> d_until h'' \<le> d_until d"
    "\<forall>k \<in> set ks. held_now now g' k \<longrightarrow> ks_hold_until (key_state_of g' k) \<le> d_until d"
    by simp_all
  have A: "h = Some d \<or> (\<exists>x \<in> set (k # ks). held_now now g x \<and> d = throttled_by now g x)"
    using IH(1)
  proof
    assume "h' = Some d"
    then show ?thesis by (auto simp: h'_def split: if_splits)
  next
    assume "\<exists>k \<in> set ks. held_now now g' k \<and> d = throttled_by now g' k"
    then show ?thesis using same by (auto simp: throttled_by_def)
  qed
  have B: "\<forall>h0. h = Some h0 \<longrightarrow> d_until h0 \<le> d_until d"
    using IH(2) by (fastforce simp: h'_def throttled_by_def split: if_splits)
  have C: "held_now now g k \<longrightarrow> ks_hold_until (key_state_of g k) \<le> d_until d"
    using IH(2) by (cases h) (fastforce simp: h'_def throttled_by_def split: if_splits)+
  show ?case using A B C IH(3) same by auto
qed

section \<open>Slots\<close>

lemma take_slot_state [simp]:
  "key_state_of (take_slot k g) k' =
     (if k = k' then (key_state_of g k)\<lparr>ks_in_flight := ks_in_flight (key_state_of g k) + 1\<rparr>
      else key_state_of g k')"
  by (simp add: take_slot_def Let_def)

lemma take_slots:
  "distinct ks \<Longrightarrow> key_state_of (fold take_slot ks g) k =
     (if k \<in> set ks then (key_state_of g k)\<lparr>ks_in_flight := ks_in_flight (key_state_of g k) + 1\<rparr>
      else key_state_of g k)"
  by (induction ks arbitrary: g) auto

lemma take_slots_frame:
  "same_frame (fold take_slot ks g) g
   \<and> g_local_in_flight (fold take_slot ks g) = g_local_in_flight g"
  by (induction ks arbitrary: g)
    (auto simp: take_slot_def Let_def intro: same_frame_trans[OF _ same_frame_put_key])

lemma drop_slot_state:
  "key_state_of (drop_slot k g) k' =
     (if k = k' then (key_state_of g k)\<lparr>ks_in_flight :=
         (if ks_in_flight (key_state_of g k) > 0 then ks_in_flight (key_state_of g k) - 1
          else ks_in_flight (key_state_of g k))\<rparr>
      else key_state_of g k')"
  by (auto simp: drop_slot_def key_state_of_def fresh_key_def put_key_def ceiling_locked_def
      lookup_update' split: option.splits)

lemma drop_slot_frame:
  "same_frame (drop_slot k g) g" "g_local_in_flight (drop_slot k g) = g_local_in_flight g"
  by (auto simp: drop_slot_def split: option.splits)

lemma drop_slots:
  "distinct ks \<Longrightarrow> (\<forall>k \<in> set ks. 0 < ks_in_flight (key_state_of g k)) \<Longrightarrow>
   key_state_of (fold drop_slot ks g) k =
     (if k \<in> set ks then (key_state_of g k)\<lparr>ks_in_flight := ks_in_flight (key_state_of g k) - 1\<rparr>
      else key_state_of g k)"
  by (induction ks arbitrary: g) (auto simp: drop_slot_state)

lemma drop_slots_frame:
  "same_frame (fold drop_slot ks g) g
   \<and> g_local_in_flight (fold drop_slot ks g) = g_local_in_flight g"
  by (induction ks arbitrary: g)
    (auto simp: drop_slot_frame intro: same_frame_trans[OF _ drop_slot_frame(1)])

lemma first_full_None:
  "first_full ks g = None \<longleftrightarrow>
     (\<forall>k \<in> set ks. ks_in_flight (key_state_of g k) < ks_capacity (key_state_of g k))"
  by (induction ks) (auto simp: Let_def)

lemma first_full_Some:
  "first_full ks g = Some (k, st) \<Longrightarrow>
     k \<in> set ks \<and> st = key_state_of g k \<and> ks_capacity st \<le> ks_in_flight st"
  by (induction ks) (auto simp: Let_def split: if_splits)

lemma first_full_before:
  assumes "first_full ks g = r" "sorted ks" "k' \<in> set ks" "\<And>k st. r = Some (k, st) \<Longrightarrow> k' < k"
  shows "ks_in_flight (key_state_of g k') < ks_capacity (key_state_of g k')"
  using assms
proof (induction ks)
  case (Cons x ks)
  show ?case
  proof (cases "ks_capacity (key_state_of g x) \<le> ks_in_flight (key_state_of g x)")
    case True
    with Cons.prems(1) have "r = Some (x, key_state_of g x)" by (simp add: Let_def)
    from Cons.prems(4)[OF this] show ?thesis using Cons.prems(2,3) by auto
  next
    case False
    then show ?thesis using Cons by (cases "k' = x") (auto simp: Let_def)
  qed
qed simp

end
