(* ===== verification/Governor_Safety.thy ===== *)
theory Governor_Safety
  imports Governor_Facts
begin

text \<open>
  The governor as a transition system over its state and the multiset of calls in flight, its
  invariant, and the properties of the governor that hold of every reachable state.
\<close>

section \<open>Outcomes of acquire\<close>

definition touched :: "instant \<Rightarrow> string list \<Rightarrow> governor \<Rightarrow> governor" where
  "touched now ks g = fst (touch_keys now ks g None)"

lemma touched_frame:
  "same_frame (touched now ks g) g" "g_local_in_flight (touched now ks g) = g_local_in_flight g"
  by (simp_all add: touched_def touch_keys_frame)

lemma touched_state:
  "distinct ks \<Longrightarrow> key_state_of (touched now ks g) k =
     (if k \<in> set ks then raised now g k else key_state_of g k)"
  by (simp add: touched_def touch_keys_state)

lemma acquire_fst_deferred:
  "acquire jit now ks g = (g', Some d) \<Longrightarrow> g' = touched now ks g"
  by (auto simp: acquire_def touched_def Let_def split: prod.splits option.splits if_splits)

definition full_key_deferral :: "(duration \<Rightarrow> duration) \<Rightarrow> string \<Rightarrow> governor \<Rightarrow> deferral" where
  "full_key_deferral jit k g =
     \<lparr>d_key = k, d_reason = DeferAtCapacity, d_until = 0, d_requeue_after = jit (g_recovery g),
      d_capacity = ks_capacity (key_state_of g k), d_local = False, d_cause = []\<rparr>"

lemma acquire_deferred_cases [consumes 2, case_names held full_key full_local]:
  assumes "acquire jit now ks g = (g', Some d)" "distinct ks"
  obtains
    k where "k \<in> set ks" "held_now now g k" "d = throttled_by now g k"
      "\<forall>k' \<in> set ks. ks_hold_until (key_state_of g k') \<le> ks_hold_until (key_state_of g k)"
  | k where "\<forall>k' \<in> set ks. \<not> held_now now g k'" "k \<in> set ks" "d = full_key_deferral jit k g'"
      "ks_capacity (key_state_of g' k) \<le> ks_in_flight (key_state_of g' k)"
      "sorted ks \<longrightarrow> (\<forall>k' \<in> set ks. k' < k \<longrightarrow> ks_in_flight (key_state_of g' k') < ks_capacity (key_state_of g' k'))"
  | "\<forall>k' \<in> set ks. \<not> held_now now g k'"
      "ls_capacity (g_local g) \<le> g_local_in_flight g" "d = local_deferral jit ks g'"
      "sorted ks \<longrightarrow> (\<forall>k' \<in> set ks. ks_in_flight (key_state_of g' k') < ks_capacity (key_state_of g' k'))"
proof -
  obtain g1 h where t: "touch_keys now ks g None = (g1, h)" by fastforce
  have g': "g' = g1" using acquire_fst_deferred[OF assms(1)] t by (simp add: touched_def)
  have frame: "same_frame g1 g" "g_local_in_flight g1 = g_local_in_flight g"
    using touch_keys_frame[of now ks g None] t by simp_all
  show thesis
  proof (cases h)
    case (Some d')
    then have "d' = d" using assms(1) t by (auto simp: acquire_def)
    with Some t touch_keys_Some[OF assms(2), of now g None d] obtain k where
      k: "k \<in> set ks" "held_now now g k" "d = throttled_by now g k"
      and m: "\<forall>k \<in> set ks. held_now now g k \<longrightarrow> ks_hold_until (key_state_of g k) \<le> d_until d"
      by auto
    show ?thesis
    proof (rule that(1)[OF k])
      show "\<forall>k' \<in> set ks. ks_hold_until (key_state_of g k') \<le> ks_hold_until (key_state_of g k)"
        using k m by (force simp: throttled_by_def)
    qed
  next
    case None
    then have nh: "\<forall>k \<in> set ks. \<not> held_now now g k"
      using touch_keys_None[OF assms(2), of now g None] t by simp
    show ?thesis
    proof (cases "first_full ks g1")
      case None
      have "sorted ks \<longrightarrow> (\<forall>k' \<in> set ks. ks_in_flight (key_state_of g' k') < ks_capacity (key_state_of g' k'))"
        using first_full_before[OF None] g' by simp
      then show ?thesis using that(3) nh assms(1) \<open>h = None\<close> t frame g' None
        by (auto simp: acquire_def same_frame_simps Let_def split: if_splits)
    next
      case (Some p)
      obtain k st where p: "p = (k, st)" by fastforce
      have k: "k \<in> set ks" "st = key_state_of g1 k" "ks_capacity st \<le> ks_in_flight st"
        using first_full_Some[of ks g1 k st] Some p by blast+
      have "d = full_key_deferral jit k g1" using k(2) assms(1) \<open>h = None\<close> t Some p
        by (auto simp: acquire_def full_key_deferral_def)
      moreover have "sorted ks \<longrightarrow> (\<forall>k' \<in> set ks. k' < k \<longrightarrow>
          ks_in_flight (key_state_of g' k') < ks_capacity (key_state_of g' k'))"
        using first_full_before[OF Some] g' by (simp add: p)
      ultimately show ?thesis by (intro that(2)[of k]) (use nh k g' in auto)
    qed
  qed
qed

lemma acquire_granted:
  assumes "acquire jit now ks g = (g', None)" "distinct ks"
  shows "\<forall>k \<in> set ks. \<not> held_now now g k"
    and "\<forall>k \<in> set ks. ks_in_flight (key_state_of g k) < ks_capacity (raised now g k)"
    and "g_local_in_flight g < ls_capacity (g_local g)"
    and "g_local_in_flight g' = g_local_in_flight g + 1"
    and "same_frame g' g"
    and "key_state_of g' k = (if k \<in> set ks
           then (raised now g k)\<lparr>ks_in_flight := ks_in_flight (key_state_of g k) + 1\<rparr>
           else key_state_of g k)"
proof -
  obtain g1 h where t: "touch_keys now ks g None = (g1, h)" by fastforce
  then have g1: "g1 = touched now ks g" by (simp add: touched_def)
  have h: "h = None" using assms(1) t by (auto simp: acquire_def split: option.splits)
  then show "\<forall>k \<in> set ks. \<not> held_now now g k"
    using touch_keys_None[OF assms(2), of now g None] t by simp
  have ff: "first_full ks g1 = None" "g_local_in_flight g1 < ls_capacity (g_local g1)"
    and g': "g' = (fold take_slot ks g1)\<lparr>g_local_in_flight := g_local_in_flight (fold take_slot ks g1) + 1\<rparr>"
    using assms(1) t h by (auto simp: acquire_def Let_def split: option.splits if_splits)
  show "\<forall>k \<in> set ks. ks_in_flight (key_state_of g k) < ks_capacity (raised now g k)"
    using ff(1) touched_state[OF assms(2)] by (auto simp: first_full_None g1)
  have fr: "same_frame g1 g" "g_local_in_flight g1 = g_local_in_flight g"
    by (simp_all add: g1 touched_frame)
  then show "g_local_in_flight g < ls_capacity (g_local g)"
    using ff(2) by (simp add: same_frame_simps)
  have fr2: "same_frame (fold take_slot ks g1) g1"
    "g_local_in_flight (fold take_slot ks g1) = g_local_in_flight g1"
    by (simp_all add: take_slots_frame)
  then show "g_local_in_flight g' = g_local_in_flight g + 1" using fr by (simp add: g')
  show "same_frame g' g" using fr fr2 by (simp add: g' same_frame_def)
  have "key_state_of g' k = key_state_of (fold take_slot ks g1) k"
    by (simp add: g')
  then show "key_state_of g' k = (if k \<in> set ks
       then (raised now g k)\<lparr>ks_in_flight := ks_in_flight (key_state_of g k) + 1\<rparr>
       else key_state_of g k)"
    using take_slots[OF assms(2)] touched_state[OF assms(2)] by (auto simp: g1)
qed

section \<open>The invariant\<close>

type_synonym tokens = "string list multiset"

definition users :: "string \<Rightarrow> tokens \<Rightarrow> int" where
  "users k ts = int (size (filter_mset (\<lambda>t. k \<in> set t) ts))"

lemma users_simps [simp]:
  "users k {#} = 0"
  "users k (add_mset t ts) = (if k \<in> set t then users k ts + 1 else users k ts)"
  by (simp_all add: users_def)

lemma users_nonneg [simp]: "0 \<le> users k ts"
  by (simp add: users_def)

lemma users_remove:
  "t \<in># ts \<Longrightarrow> users k (ts - {#t#}) = (if k \<in> set t then users k ts - 1 else users k ts)"
  by (drule multi_member_split) auto

lemma users_pos: "t \<in># ts \<Longrightarrow> k \<in> set t \<Longrightarrow> 0 < users k ts"
  by (drule multi_member_split) (auto simp: add_pos_nonneg add.commute intro: zle_add1_eq_le[THEN iffD2])

definition ceil_ok :: "governor \<Rightarrow> bool" where
  "ceil_ok g \<longleftrightarrow> 1 \<le> g_per_controller g \<and> 0 \<le> g_reconcilers g
     \<and> g_per_controller g * max 1 (g_reconcilers g) \<le> max_int64"

lemma ceil_ok_value:
  assumes "ceil_ok g"
  shows "ceiling_locked g = g_per_controller g * max 1 (g_reconcilers g)" "1 \<le> ceiling_locked g"
proof -
  have "1 * 1 \<le> g_per_controller g * max 1 (g_reconcilers g)"
    using assms by (intro mult_mono) (auto simp: ceil_ok_def)
  then show *: "ceiling_locked g = g_per_controller g * max 1 (g_reconcilers g)"
    using assms by (auto simp: ceiling_locked_def ceil_ok_def in_i64_def intro!: i64_id)
  show "1 \<le> ceiling_locked g" using \<open>1 * 1 \<le> _\<close> by (simp add: *)
qed

definition key_ok :: "int \<Rightarrow> int \<Rightarrow> key_state \<Rightarrow> bool" where
  "key_ok ceil n st \<longleftrightarrow> 1 \<le> ks_capacity st \<and> ks_capacity st \<le> ceil
     \<and> ks_in_flight st = n \<and> n \<le> ceil"

definition gov_ok :: "governor \<Rightarrow> tokens \<Rightarrow> bool" where
  "gov_ok g ts \<longleftrightarrow> ceil_ok g \<and> 0 < g_recovery g
     \<and> (\<forall>k. key_ok (ceiling_locked g) (users k ts) (key_state_of g k))
     \<and> g_local_in_flight g = int (size ts) \<and> g_local_in_flight g \<le> ceiling_locked g
     \<and> 1 \<le> ls_capacity (g_local g) \<and> ls_capacity (g_local g) \<le> ceiling_locked g
     \<and> (g_sat g = None \<longrightarrow> g_local g = \<lparr>ls_capacity = ceiling_locked g, ls_cause = [], ls_ramping = False\<rparr>)
     \<and> (\<forall>t \<in># ts. distinct t)"

lemma key_ok_raise [simp]:
  "key_ok c n st \<Longrightarrow> key_ok c n (maybe_raise c r now st)"
  by (simp add: key_ok_def maybe_raise_bounds)

lemma gov_ok_touched:
  assumes "gov_ok g ts" "distinct ks"
  shows "gov_ok (touched now ks g) ts"
proof -
  have fr: "same_frame (touched now ks g) g" by (rule touched_frame)
  have "ceil_ok (touched now ks g)" using assms fr by (simp add: gov_ok_def ceil_ok_def same_frame_def)
  then show ?thesis using assms
    by (simp add: gov_ok_def same_frame_simps[OF fr] touched_frame touched_state)
qed

lemma gov_ok_deferred:
  "gov_ok g ts \<Longrightarrow> acquire_all jit now ks g = (g', Some d) \<Longrightarrow> gov_ok g' ts"
  by (auto simp: acquire_all_def dest!: acquire_fst_deferred intro: gov_ok_touched)

lemma gov_ok_granted:
  assumes "gov_ok g ts" "acquire_all jit now ks g = (g', None)"
  shows "gov_ok g' (add_mset (normalize_keys ks) ts)"
proof -
  let ?n = "normalize_keys ks"
  note gr = acquire_granted[OF assms(2)[unfolded acquire_all_def] distinct_normalize_keys]
  have fr: "same_frame g' g" by (rule gr)
  have c: "ceil_ok g'" "ceiling_locked g' = ceiling_locked g"
    using assms(1) fr by (simp_all add: gov_ok_def ceil_ok_def same_frame_def ceiling_locked_def)
  have keys: "key_ok (ceiling_locked g') (users k (add_mset ?n ts)) (key_state_of g' k)" for k
  proof -
    have ok: "key_ok (ceiling_locked g) (users k ts) (key_state_of g k)"
      using assms(1) by (simp add: gov_ok_def)
    then have ok': "key_ok (ceiling_locked g) (users k ts) (raised now g k)" by simp
    show ?thesis
    proof (cases "k \<in> set ?n")
      case True
      then have "ks_in_flight (key_state_of g k) < ks_capacity (raised now g k)" using gr(2) by blast
      with True ok ok' c gr(6)[of k] show ?thesis by (simp add: key_ok_def)
    next
      case False
      with ok c gr(6)[of k] show ?thesis by (auto simp: key_ok_def)
    qed
  qed
  show ?thesis
    using assms(1) c keys gr(3,4) by (simp add: gov_ok_def same_frame_simps[OF fr])
qed

lemma gov_ok_release:
  assumes "gov_ok g ts" "t \<in># ts"
  shows "gov_ok (release t g) (ts - {#t#})"
proof -
  define g1 where "g1 = fold drop_slot t g"
  have d: "distinct t" using assms by (simp add: gov_ok_def)
  have pos: "\<forall>k \<in> set t. 0 < ks_in_flight (key_state_of g k)"
    using assms users_pos[OF assms(2)] by (simp add: gov_ok_def key_ok_def)
  have st: "key_state_of g1 k = (if k \<in> set t
      then (key_state_of g k)\<lparr>ks_in_flight := ks_in_flight (key_state_of g k) - 1\<rparr>
      else key_state_of g k)" for k
    unfolding g1_def by (rule drop_slots[OF d pos])
  have fr: "same_frame g1 g" "g_local_in_flight g1 = g_local_in_flight g"
    by (simp_all add: g1_def drop_slots_frame)
  have size: "0 < int (size ts)" "int (size (ts - {#t#})) = int (size ts) - 1"
    using multi_member_split[OF assms(2)] by auto
  have rel: "release t g = g1\<lparr>g_local_in_flight := g_local_in_flight g - 1\<rparr>"
    using assms(1) size fr by (simp add: release_def g1_def[symmetric] Let_def gov_ok_def)
  have c: "ceil_ok g1" "ceiling_locked g1 = ceiling_locked g"
    using assms(1) fr by (simp_all add: gov_ok_def ceil_ok_def same_frame_def ceiling_locked_def)
  have keys: "key_ok (ceiling_locked g) (users k (ts - {#t#})) (key_state_of g1 k)" for k
  proof -
    have ok: "key_ok (ceiling_locked g) (users k ts) (key_state_of g k)"
      using assms(1) by (simp add: gov_ok_def)
    then show ?thesis using st[of k] c users_remove[OF assms(2), of k] by (auto simp: key_ok_def)
  qed
  then show ?thesis using assms(1) c size
    by (auto simp: gov_ok_def rel ceil_ok_def same_frame_simps[OF fr(1)] dest: in_diffD)
qed

section \<open>The other operations keep the invariant\<close>

lemma gov_ok_put_key:
  assumes "gov_ok g ts" "key_ok (ceiling_locked g) (users k ts) st"
  shows "gov_ok (put_key k st g) ts"
  using assms by (simp add: gov_ok_def ceil_ok_def)

lemma observe_signal_eq:
  "observe_signal now s g =
     (if sg_key s = [] \<or> g_ignore_signals g then g
      else case classify s now of
        SignalNone \<Rightarrow> g
      | SignalThrottled \<Rightarrow> put_key (sg_key s) ((key_state_of g (sg_key s))
          \<lparr>ks_capacity := 1,
           ks_hold_until := max (signal_deadline s now) (ks_hold_until (key_state_of g (sg_key s))),
           ks_last_reduce := now\<rparr>) g
      | SignalAdvisory \<Rightarrow> put_key (sg_key s) ((key_state_of g (sg_key s))
          \<lparr>ks_capacity := max 1 (halve (ks_capacity (key_state_of g (sg_key s)))),
           ks_last_reduce := now\<rparr>) g)"
  by (simp add: observe_signal_def Let_def capacity_floor_def max_def split: signal_kind.split)

lemma gov_ok_observe:
  assumes "gov_ok g ts" shows "gov_ok (observe_signal now s g) ts"
proof -
  have "key_ok (ceiling_locked g) (users (sg_key s) ts) (key_state_of g (sg_key s))"
    and "1 \<le> ceiling_locked g"
    using assms ceil_ok_value(2) by (simp_all add: gov_ok_def)
  then show ?thesis using assms
    by (auto simp: observe_signal_eq key_ok_def split: signal_kind.split intro!: gov_ok_put_key)
qed

lemma key_state_of_map_values:
  assumes "f (fresh_key (ceiling_locked g)) = fresh_key (ceiling_locked h)"
    and "g_keys h = Mapping.map_values (\<lambda>_. f) (g_keys g)"
  shows "key_state_of h k = f (key_state_of g k)"
  using assms by (simp add: key_state_of_def Mapping.lookup_map_values split: option.split)

lemma register_fields:
  "g_recovery (register_reconciler g) = g_recovery g"
  "g_per_controller (register_reconciler g) = g_per_controller g"
  "g_reconcilers (register_reconciler g) = g_reconcilers g + 1"
  "g_local_in_flight (register_reconciler g) = g_local_in_flight g"
  "g_sat (register_reconciler g) = g_sat g"
  "g_sampler_started (register_reconciler g) = g_sampler_started g"
  "ls_cause (g_local (register_reconciler g)) = ls_cause (g_local g)"
  "ls_ramping (g_local (register_reconciler g)) = ls_ramping (g_local g)"
  by (simp_all add: register_reconciler_def Let_def)

lemma register_capacity:
  "ls_capacity (g_local (register_reconciler g)) =
     (if g_sat g = None \<and> ls_capacity (g_local g) = ceiling_locked g
      then ceiling_locked (register_reconciler g) else ls_capacity (g_local g))"
  by (simp add: register_reconciler_def Let_def)

lemma register_keys:
  "g_keys (register_reconciler g) = Mapping.map_values
     (\<lambda>_ st. if ks_capacity st = ceiling_locked g
        then st\<lparr>ks_capacity := ceiling_locked (register_reconciler g)\<rparr> else st) (g_keys g)"
proof -
  have c: "ceiling_locked (register_reconciler g)
      = ceiling_locked (g\<lparr>g_reconcilers := g_reconcilers g + 1\<rparr>)"
    by (simp add: ceiling_locked_def register_fields)
  show ?thesis unfolding c by (simp add: register_reconciler_def Let_def)
qed

lemma register_key:
  "key_state_of (register_reconciler g) k =
     (if ks_capacity (key_state_of g k) = ceiling_locked g
      then (key_state_of g k)\<lparr>ks_capacity := ceiling_locked (register_reconciler g)\<rparr>
      else key_state_of g k)"
  by (rule key_state_of_map_values[where f = "\<lambda>st. if ks_capacity st = ceiling_locked g
       then st\<lparr>ks_capacity := ceiling_locked (register_reconciler g)\<rparr> else st"])
    (simp_all add: register_keys fresh_key_def)

lemma register_ceiling_mono:
  assumes "ceil_ok g" "ceil_ok (register_reconciler g)"
  shows "ceiling_locked g \<le> ceiling_locked (register_reconciler g)"
  using assms by (simp add: ceil_ok_value register_fields ceil_ok_def mult_left_mono)

lemma gov_ok_register:
  assumes "gov_ok g ts" "g_per_controller g * (g_reconcilers g + 1) \<le> max_int64"
  shows "gov_ok (register_reconciler g) ts"
proof -
  let ?h = "register_reconciler g"
  have c: "ceil_ok ?h" using assms by (simp add: gov_ok_def ceil_ok_def register_fields max_def)
  have le: "ceiling_locked g \<le> ceiling_locked ?h"
    using assms c by (intro register_ceiling_mono) (simp_all add: gov_ok_def)
  have keys: "key_ok (ceiling_locked ?h) (users k ts) (key_state_of ?h k)" for k
  proof -
    have "key_ok (ceiling_locked g) (users k ts) (key_state_of g k)"
      using assms(1) by (simp add: gov_ok_def)
    with le show ?thesis by (simp add: register_key key_ok_def)
  qed
  have "g_sat g = None \<longrightarrow> g_local ?h
      = \<lparr>ls_capacity = ceiling_locked ?h, ls_cause = [], ls_ramping = False\<rparr>"
    using assms(1) by (auto simp: gov_ok_def register_fields register_capacity intro!: local_state.equality)
  with c keys le assms(1) show ?thesis
    by (auto simp: gov_ok_def register_fields register_capacity)
qed

lemma fresh_key_fields:
  "ks_capacity (fresh_key c) = c" "ks_in_flight (fresh_key c) = 0" "ks_hold_until (fresh_key c) = 0"
  by (simp_all add: fresh_key_def)

lemma capacity_of_state:
  "key_state_of (fst (capacity_of now k g)) k' =
     (if k' = k then raised now g k else key_state_of g k')"
  "same_frame (fst (capacity_of now k g)) g"
  "g_local_in_flight (fst (capacity_of now k g)) = g_local_in_flight g"
  "snd (capacity_of now k g) = ks_capacity (raised now g k)"
proof -
  have *: "Mapping.lookup (g_keys g) k = None \<Longrightarrow> key_state_of g k = fresh_key (ceiling_locked g)"
    "Mapping.lookup (g_keys g) k = Some st \<Longrightarrow> key_state_of g k = st" for st
    by (simp_all add: key_state_of_def)
  show "key_state_of (fst (capacity_of now k g)) k' =
     (if k' = k then raised now g k else key_state_of g k')"
    "same_frame (fst (capacity_of now k g)) g"
    "g_local_in_flight (fst (capacity_of now k g)) = g_local_in_flight g"
    "snd (capacity_of now k g) = ks_capacity (raised now g k)"
    using * by (auto simp: capacity_of_def Let_def fresh_key_fields split: option.split)
qed

lemma gov_ok_capacity:
  assumes "gov_ok g ts" shows "gov_ok (fst (capacity_of now k g)) ts"
proof -
  have fr: "same_frame (fst (capacity_of now k g)) g" by (rule capacity_of_state)
  have "ceil_ok (fst (capacity_of now k g))"
    using assms fr by (simp add: gov_ok_def ceil_ok_def same_frame_def)
  then show ?thesis using assms
    by (simp add: gov_ok_def same_frame_simps[OF fr] capacity_of_state)
qed

lemma snapshot_state:
  "key_state_of (fst (take_snapshot now g)) k = raised now g k"
  "same_frame (fst (take_snapshot now g)) g"
  "g_local_in_flight (fst (take_snapshot now g)) = g_local_in_flight g"
  by (auto simp: take_snapshot_def Let_def same_frame_def intro: key_state_of_map_values[where f = "maybe_raise _ _ now"])

lemma gov_ok_snapshot:
  assumes "gov_ok g ts" shows "gov_ok (fst (take_snapshot now g)) ts"
proof -
  have fr: "same_frame (fst (take_snapshot now g)) g" by (rule snapshot_state)
  have "ceil_ok (fst (take_snapshot now g))"
    using assms fr by (simp add: gov_ok_def ceil_ok_def same_frame_def)
  then show ?thesis using assms
    by (simp add: gov_ok_def same_frame_simps[OF fr] snapshot_state)
qed

lemma sample_fields:
  "ceiling_locked (sample now smp g) = ceiling_locked g"
  "key_state_of (sample now smp g) = key_state_of g"
  "g_per_controller (sample now smp g) = g_per_controller g"
  "g_reconcilers (sample now smp g) = g_reconcilers g"
  "g_recovery (sample now smp g) = g_recovery g"
  "g_local_in_flight (sample now smp g) = g_local_in_flight g"
  "g_sampler_started (sample now smp g) = g_sampler_started g"
  "g_sat (sample now smp g) = None \<longleftrightarrow> g_sat g = None"
  "g_sat g = None \<Longrightarrow> sample now smp g = g"
  by (auto simp: sample_def Let_def split: option.split prod.split)

lemma sample_local:
  assumes "g_sat g = Some s"
  obtains s0 s' where "sat_step now smp (g_local g) (ceiling_locked g) (g_recovery g) s0
      = (s', g_local (sample now smp g))" "g_sat (sample now smp g) = Some s'"
      "s0 = fst (sat_read smp s)"
  using assms
  by (cases "sat_step now smp (g_local g) (ceiling_locked g) (g_recovery g) (fst (sat_read smp s))")
    (simp add: sample_def Let_def)

lemma gov_ok_sample:
  assumes "gov_ok g ts" shows "gov_ok (sample now smp g) ts"
proof (cases "g_sat g")
  case None
  then show ?thesis using assms by (simp add: sample_fields)
next
  case (Some s)
  then obtain s0 s' where st: "sat_step now smp (g_local g) (ceiling_locked g) (g_recovery g) s0
      = (s', g_local (sample now smp g))" by (rule sample_local)
  have "1 \<le> ls_capacity (g_local (sample now smp g))"
    "ls_capacity (g_local (sample now smp g)) \<le> ceiling_locked g"
    using sat_step_bounds[OF st] assms by (simp_all add: gov_ok_def)
  then show ?thesis using assms Some
    by (simp add: gov_ok_def sample_fields ceil_ok_def)
qed

lemma gov_ok_start:
  "gov_ok g ts \<Longrightarrow> gov_ok (start_sampler g) ts"
  by (simp add: start_sampler_def gov_ok_def ceil_ok_def)

lemma new_governor_cases:
  assumes "new_governor opts = Inr g"
  shows "1 \<le> go_max_concurrent opts" "g_per_controller g = go_max_concurrent opts"
    "g_recovery g = (if go_recovery opts = 0 then default_recovery_interval else go_recovery opts)"
    "0 \<le> go_recovery opts" "g_keys g = Mapping.empty" "g_local_in_flight g = 0"
    "g_reconcilers g = 0" "\<not> g_sampler_started g"
    "g_sat g = None \<Longrightarrow> g_local g = \<lparr>ls_capacity = go_max_concurrent opts, ls_cause = [], ls_ramping = False\<rparr>"
    "g_sat g \<noteq> None \<Longrightarrow> g_local g = \<lparr>ls_capacity = 1, ls_cause = [], ls_ramping = True\<rparr>"
  using assms
  by (auto simp: new_governor_def Let_def capacity_floor_def split: if_splits sum.splits)

lemma gov_ok_new:
  assumes "new_governor opts = Inr g" "go_max_concurrent opts \<le> max_int64"
  shows "gov_ok g {#}"
proof -
  note n = new_governor_cases[OF assms(1)]
  have c: "ceil_ok g" using n assms(2) by (simp add: ceil_ok_def)
  then have v: "ceiling_locked g = go_max_concurrent opts" using n by (simp add: ceil_ok_value)
  have k: "key_state_of g k = fresh_key (ceiling_locked g)" for k
    using n by (simp add: key_state_of_def lookup_empty)
  show ?thesis
    using n c v k by (cases "g_sat g = None") (auto simp: gov_ok_def key_ok_def fresh_key_def default_recovery_interval_def)
qed

end
