(* ===== verification/Governor_Props.thy ===== *)
theory Governor_Props
  imports Governor_Safety
begin

text \<open>
  The governor as a transition system, the interface \<open>call_gate\<close> its callers rely on and its
  interpretation on the governor, and the properties of the governor.
\<close>

section \<open>Transitions\<close>

text \<open>
  One step is one operation under \<open>g.mu\<close>, by any goroutine, in any order; the clock and the
  jitter are free.  \<open>RegisterReconciler\<close> is taken only while the ceiling fits an \<open>int\<close>.
\<close>

inductive gov_step :: "governor \<times> tokens \<Rightarrow> governor \<times> tokens \<Rightarrow> bool" where
  grant: "acquire_all jit now ks g = (g', None) \<Longrightarrow>
    gov_step (g, ts) (g', add_mset (normalize_keys ks) ts)"
| deferred: "acquire_all jit now ks g = (g', Some d) \<Longrightarrow> gov_step (g, ts) (g', ts)"
| released: "t \<in># ts \<Longrightarrow> gov_step (g, ts) (release t g, ts - {#t#})"
| observe: "gov_step (g, ts) (observe_signal now s g, ts)"
| register: "g_per_controller g * (g_reconcilers g + 1) \<le> max_int64 \<Longrightarrow>
    gov_step (g, ts) (register_reconciler g, ts)"
| read: "gov_step (g, ts) (fst (capacity_of now k g), ts)"
| snap: "gov_step (g, ts) (fst (take_snapshot now g), ts)"
| started: "gov_step (g, ts) (start_sampler g, ts)"
| sampled: "gov_step (g, ts) (sample now smp g, ts)"

inductive_cases gov_stepE: "gov_step (g, ts) (g', ts')"

inductive gov_steps :: "governor \<times> tokens \<Rightarrow> governor \<times> tokens \<Rightarrow> bool" where
  refl: "gov_steps x x"
| step: "gov_steps x y \<Longrightarrow> gov_step y z \<Longrightarrow> gov_steps x z"

definition gov_reachable :: "gov_options \<Rightarrow> governor \<Rightarrow> tokens \<Rightarrow> bool" where
  "gov_reachable opts g ts \<longleftrightarrow>
     (\<exists>g0. new_governor opts = Inr g0 \<and> gov_steps (g0, {#}) (g, ts))"

lemma gov_step_ok:
  "gov_step (g, ts) (g', ts') \<Longrightarrow> gov_ok g ts \<Longrightarrow> gov_ok g' ts'"
  by (erule gov_stepE)
    (auto intro: gov_ok_granted gov_ok_deferred gov_ok_release gov_ok_observe gov_ok_register
      gov_ok_capacity gov_ok_snapshot gov_ok_start gov_ok_sample)

lemma gov_steps_ok:
  "gov_steps x y \<Longrightarrow> gov_ok (fst x) (snd x) \<Longrightarrow> gov_ok (fst y) (snd y)"
  by (induction rule: gov_steps.induct) (metis gov_step_ok prod.collapse)+

lemma gov_reachable_ok:
  "gov_reachable opts g ts \<Longrightarrow> go_max_concurrent opts \<le> max_int64 \<Longrightarrow> gov_ok g ts"
  using gov_steps_ok gov_ok_new by (fastforce simp: gov_reachable_def)

section \<open>The interface of the gate\<close>

text \<open>
  What a caller of \<open>AcquireAll\<close> relies on, for a state type and a token type of its own: a grant
  adds the call's token to the outstanding ones, a deferral adds none, and handing back an
  outstanding token removes exactly it.
\<close>

locale call_gate =
  fixes ask :: "'k \<Rightarrow> 's \<Rightarrow> 's \<times> 'd option"
    and give_back :: "'t \<Rightarrow> 's \<Rightarrow> 's"
    and token :: "'k \<Rightarrow> 't"
    and ok :: "'s \<Rightarrow> 't multiset \<Rightarrow> bool"
  assumes ask_granted: "ok s ts \<Longrightarrow> ask k s = (s', None) \<Longrightarrow> ok s' (add_mset (token k) ts)"
    and ask_deferred: "ok s ts \<Longrightarrow> ask k s = (s', Some d) \<Longrightarrow> ok s' ts"
    and given_back: "ok s ts \<Longrightarrow> t \<in># ts \<Longrightarrow> ok (give_back t s) (ts - {#t#})"
begin

text \<open>A gated call holds its slot while it runs and leaves none behind, whatever ran meanwhile.\<close>

lemma bracket:
  assumes "ok s ts" "ask k s = (s', None)"
    and "\<And>ts. ok s' ts \<Longrightarrow> ok (body s') ts"
  shows "ok (give_back (token k) (body s')) ts"
proof -
  have "ok (body s') (add_mset (token k) ts)"
    using ask_granted[OF assms(1,2)] assms(3) by blast
  from given_back[OF this, of "token k"] show ?thesis by simp
qed

lemma attempt_ok:
  "ok s ts \<Longrightarrow> ok (case ask k s of (s', Some d) \<Rightarrow> s' | (s', None) \<Rightarrow> give_back (token k) s') ts"
  using bracket[where body = "\<lambda>s. s"] ask_deferred by (auto split: prod.split option.split)

end

interpretation gate: call_gate "acquire_all jit now" release normalize_keys gov_ok
  for jit :: "duration \<Rightarrow> duration" and now :: instant
  by unfold_locales (blast intro: gov_ok_granted gov_ok_deferred gov_ok_release)+

section \<open>Holds\<close>

text \<open>No step shortens a hold.\<close>

lemma acquire_all_hold:
  "acquire_all jit now ks g = (g', r) \<Longrightarrow>
     ks_hold_until (key_state_of g' k) = ks_hold_until (key_state_of g k)"
  by (cases r)
    (auto simp: acquire_all_def touched_state acquire_granted(6)[OF _ distinct_normalize_keys]
      dest!: acquire_fst_deferred)

lemma drop_slots_hold:
  "ks_hold_until (key_state_of (fold drop_slot t g) k) = ks_hold_until (key_state_of g k)"
  by (induction t arbitrary: g) (auto simp: drop_slot_state)

lemma release_hold:
  "ks_hold_until (key_state_of (release t g) k) = ks_hold_until (key_state_of g k)"
  by (simp add: release_def Let_def drop_slots_hold)

lemma observe_hold:
  "ks_hold_until (key_state_of g k) \<le> ks_hold_until (key_state_of (observe_signal now s g) k)"
  by (simp add: observe_signal_eq split: signal_kind.split)

lemma gov_step_hold:
  "gov_step (g, ts) (g', ts') \<Longrightarrow>
     ks_hold_until (key_state_of g k) \<le> ks_hold_until (key_state_of g' k)"
  by (erule gov_stepE)
    (auto simp: acquire_all_hold release_hold observe_hold register_key capacity_of_state
      snapshot_state sample_fields start_sampler_def)

lemma gov_steps_hold:
  "gov_steps x y \<Longrightarrow>
     ks_hold_until (key_state_of (fst x) k) \<le> ks_hold_until (key_state_of (fst y) k)"
proof (induction rule: gov_steps.induct)
  case (step x y z)
  then show ?case
    using gov_step_hold[of "fst y" "snd y" "fst z" "snd z" k] by simp
qed simp

lemma acquire_all_held:
  assumes "k \<in> set ks" "k \<noteq> []" "now < ks_hold_until (key_state_of g k)"
  obtains g' d k' where "acquire_all jit now ks g = (g', Some d)" "d_reason d = DeferThrottled"
    "d_until d = ks_hold_until (key_state_of g k')" "d_requeue_after d = time_sub (d_until d) now"
    "k' \<in> set ks" "d_key d = k'" "d_until d > now"
    "\<forall>x \<in> set ks. x \<noteq> [] \<longrightarrow> ks_hold_until (key_state_of g x) \<le> d_until d"
proof -
  let ?n = "normalize_keys ks"
  have k: "k \<in> set ?n" using assms by simp
  obtain g' r where a: "acquire jit now ?n g = (g', r)" by fastforce
  show thesis
  proof (cases r)
    case None
    then show ?thesis using acquire_granted(1)[OF a[unfolded None]] k assms(3) by auto
  next
    case (Some d)
    from a[unfolded Some] distinct_normalize_keys show ?thesis
    proof (cases rule: acquire_deferred_cases)
      case (held k')
      then show ?thesis using that[of g' d k'] a Some by (auto simp: acquire_all_def throttled_by_def)
    qed (use k assms(3) in auto)
  qed
qed

section \<open>Facts the properties share\<close>

definition ramp_ok :: "governor \<Rightarrow> bool" where
  "ramp_ok g \<longleftrightarrow> (ls_ramping (g_local g) \<longrightarrow> ls_capacity (g_local g) < ceiling_locked g)
     \<and> (\<forall>s. g_sat g = Some s \<longrightarrow> 0 < so_startup_ramp (sa_opts s) \<and> 0 < so_sample_period (sa_opts s))"

lemma sat_read_opts [simp]: "sa_opts (fst (sat_read smp s)) = sa_opts s"
  by (simp add: sat_read_def log_disabled_once_def Let_def)

lemma sat_read_fields [simp]:
  "sa_cut (fst (sat_read smp s)) = sa_cut s" "sa_last_step (fst (sat_read smp s)) = sa_last_step s"
  by (simp_all add: sat_read_def log_disabled_once_def Let_def)

lemma ramp_ok_frame:
  "same_frame g' g \<Longrightarrow> ramp_ok g \<Longrightarrow> ramp_ok g'"
  by (simp add: ramp_ok_def same_frame_simps)

lemma acquire_all_frame: "acquire_all jit now ks g = (g', r) \<Longrightarrow> same_frame g' g"
  by (cases r)
    (auto simp: acquire_all_def touched_frame intro: acquire_granted(5)[OF _ distinct_normalize_keys]
      dest!: acquire_fst_deferred)

lemma release_frame: "same_frame (release t g) g"
  using drop_slots_frame[of t g] by (auto simp: release_def Let_def same_frame_def)

lemma ramp_ok_sample:
  assumes "ramp_ok g" shows "ramp_ok (sample now smp g)"
proof (cases "g_sat g")
  case None
  then show ?thesis using assms by (simp add: sample_fields)
next
  case (Some s)
  then obtain s0 s' where st: "sat_step now smp (g_local g) (ceiling_locked g) (g_recovery g) s0
      = (s', g_local (sample now smp g))" "g_sat (sample now smp g) = Some s'"
    "s0 = fst (sat_read smp s)" by (rule sample_local)
  have "sa_opts s' = sa_opts s0"
    using sat_step_opts[of now smp "g_local g" "ceiling_locked g" "g_recovery g" s0]
    unfolding st(1) by simp
  then have "sa_opts s' = sa_opts s" by (simp add: st(3))
  then show ?thesis using sat_step_ramping(1)[OF st(1)] st(2) assms Some
    by (simp add: ramp_ok_def sample_fields)
qed

lemma ramp_ok_register:
  assumes "ramp_ok g" "gov_ok g ts" "g_per_controller g * (g_reconcilers g + 1) \<le> max_int64"
  shows "ramp_ok (register_reconciler g)"
proof -
  have "ceiling_locked g \<le> ceiling_locked (register_reconciler g)"
    using assms gov_ok_register[OF assms(2,3)] by (intro register_ceiling_mono) (simp_all add: gov_ok_def)
  with assms show ?thesis by (auto simp: ramp_ok_def register_fields register_capacity gov_ok_def)
qed

lemma observe_frame: "same_frame (observe_signal now s g) g"
  by (simp add: observe_signal_eq split: signal_kind.split)

lemma ramp_ok_start: "ramp_ok g \<Longrightarrow> ramp_ok (start_sampler g)"
  by (simp add: start_sampler_def ramp_ok_def)

lemma ramp_ok_step:
  assumes "gov_step (g, ts) (g', ts')" "gov_ok g ts" "ramp_ok g"
  shows "ramp_ok g'"
  using assms(1)
proof (cases rule: gov_step.cases)
  case grant then show ?thesis by (metis acquire_all_frame ramp_ok_frame assms(3))
next
  case deferred then show ?thesis by (metis acquire_all_frame ramp_ok_frame assms(3))
next
  case released then show ?thesis by (metis release_frame ramp_ok_frame assms(3))
next
  case observe then show ?thesis by (metis observe_frame ramp_ok_frame assms(3))
next
  case register then show ?thesis by (metis ramp_ok_register assms(2,3))
next
  case read then show ?thesis by (metis capacity_of_state(2) ramp_ok_frame assms(3))
next
  case snap then show ?thesis by (metis snapshot_state(2) ramp_ok_frame assms(3))
next
  case started then show ?thesis by (metis ramp_ok_start assms(3))
next
  case sampled then show ?thesis by (metis ramp_ok_sample assms(3))
qed

lemma ramp_ok_new:
  assumes "new_governor opts = Inr g" "go_max_concurrent opts \<le> max_int64"
    and "2 \<le> go_max_concurrent opts \<or> \<not> so_enabled (go_saturation opts)"
  shows "ramp_ok g"
proof -
  have c: "ceiling_locked g = go_max_concurrent opts"
  proof -
    have "ceil_ok g" using gov_ok_new[OF assms(1,2)] by (simp only: gov_ok_def)
    from ceil_ok_value(1)[OF this] show ?thesis using new_governor_cases(2,7)[OF assms(1)] by simp
  qed
  show ?thesis
  proof (cases "so_enabled (go_saturation opts)")
    case False
    then have "g_sat g = None" using assms(1) by (auto simp: new_governor_def Let_def split: if_splits)
    with new_governor_cases(9)[OF assms(1)] show ?thesis by (simp add: ramp_ok_def)
  next
    case True
    then obtain s where s: "new_saturation (go_saturation opts) = Inr s" "g_sat g = Some s"
      using assms(1) by (auto simp: new_governor_def Let_def split: if_splits sum.splits)
    then have "with_defaults (go_saturation opts) = Inr (sa_opts s)"
      by (auto simp: new_saturation_def split: sum.splits)
    from with_defaults_ok(1,2)[OF this] show ?thesis
      using new_governor_cases(10)[OF assms(1)] s(2) assms(3) True c by (simp add: ramp_ok_def)
  qed
qed

lemma ramp_ok_steps:
  "gov_steps x y \<Longrightarrow> gov_ok (fst x) (snd x) \<Longrightarrow> ramp_ok (fst x) \<Longrightarrow> ramp_ok (fst y)"
proof (induction rule: gov_steps.induct)
  case (step x y z)
  then show ?case using ramp_ok_step[of "fst y" "snd y" "fst z" "snd z"] gov_steps_ok[of x y] by simp
qed simp

text \<open>A random source draws below its bound.\<close>

definition fair :: "(int \<Rightarrow> int option) \<Rightarrow> bool" where
  "fair draw \<longleftrightarrow> (\<forall>n m. draw n = Some m \<longrightarrow> 0 \<le> m \<and> m < n)"

lemma jitter_between_bounds:
  assumes "fair draw"
  shows "min lo hi \<le> jitter_between draw lo hi" "jitter_between draw lo hi \<le> hi"
  using assms by (auto simp: jitter_between_def fair_def split: option.split)
    (metis add.commute less_diff_eq zle_add1_eq_le diff_add_eq)+

lemma default_jitter_pos:
  "fair draw \<Longrightarrow> 0 < hi \<Longrightarrow> 0 < default_jitter draw hi \<and> default_jitter draw hi \<le> hi"
  using jitter_between_bounds[of draw min_capacity_jitter hi]
  by (auto simp: default_jitter_def min_capacity_jitter_def min_def split: if_splits)

text \<open>
  What a deferral needs to come back: a positive recovery interval, a ramp with room to climb and
  whose length fits the clock.  Slots and holds do not touch it.
\<close>

definition healthy :: "governor \<Rightarrow> bool" where
  "healthy g \<longleftrightarrow> ramp_ok g \<and> 0 < g_recovery g \<and> 1 \<le> ls_capacity (g_local g)
     \<and> (\<forall>s. g_sat g = Some s \<longrightarrow>
          ceiling_locked g * max (so_startup_ramp (sa_opts s)) (so_sample_period (sa_opts s)) \<le> max_int64)"

lemma healthy_frame: "same_frame g' g \<Longrightarrow> healthy g \<Longrightarrow> healthy g'"
  using ramp_ok_frame[of g' g] by (simp add: healthy_def same_frame_simps)

lemma healthy_steps:
  "healthy g \<Longrightarrow> acquire_all jit now ks g = (g', r) \<Longrightarrow> healthy g'"
  "healthy g \<Longrightarrow> healthy (release ks g)"
  "healthy g \<Longrightarrow> healthy (observe_signal now s g)"
  using healthy_frame acquire_all_frame release_frame observe_frame by blast+

lemma reachable_healthy:
  assumes "gov_reachable opts g ts" "go_max_concurrent opts \<le> max_int64"
    and "2 \<le> go_max_concurrent opts \<or> \<not> so_enabled (go_saturation opts)"
    and "\<And>s. g_sat g = Some s \<Longrightarrow>
      ceiling_locked g * max (so_startup_ramp (sa_opts s)) (so_sample_period (sa_opts s)) \<le> max_int64"
  shows "healthy g"
proof -
  obtain g0 where g0: "new_governor opts = Inr g0" "gov_steps (g0, {#}) (g, ts)"
    using assms(1) by (auto simp: gov_reachable_def)
  have "ramp_ok g"
    using ramp_ok_steps[OF g0(2)] gov_ok_new[OF g0(1) assms(2)] ramp_ok_new[OF g0(1) assms(2,3)] by simp
  then show ?thesis using gov_reachable_ok[OF assms(1,2)] assms(4) by (simp add: healthy_def gov_ok_def)
qed

lemma ramp_left_pos:
  assumes "healthy g" "g_sat g = Some s" "ls_ramping (g_local g)"
  shows "0 < ramp_left s (ceiling_locked g) (ls_capacity (g_local g))"
proof -
  let ?d = "ceiling_locked g - ls_capacity (g_local g)"
  let ?m = "max (so_startup_ramp (sa_opts s)) (so_sample_period (sa_opts s))"
  have m: "0 < ?m" "0 < ?d" using assms by (auto simp: healthy_def ramp_ok_def)
  have "?d * ?m \<le> ceiling_locked g * ?m"
    using m assms(1) by (intro mult_right_mono) (auto simp: healthy_def)
  moreover have p: "0 < ?d * ?m" by (rule mult_pos_pos[OF m(2) m(1)])
  ultimately have "in_i64 (?d * ?m)" using assms(1,2) by (fastforce simp: in_i64_def healthy_def)
  then show ?thesis using p by (simp add: ramp_left_def Let_def i64_id)
qed

text \<open>The delay of a deferral: what is left of a hold, or drawn below the recovery interval or the ramp's end.\<close>

lemma deferral_delay:
  assumes "acquire_all (default_jitter draw) now ks g = (g', Some d)" "fair draw"
  obtains (throttled) "d_reason d = DeferThrottled" "d_requeue_after d = time_sub (d_until d) now" "0 < d_requeue_after d"
  | (waiting) "d_reason d \<in> {DeferAtCapacity, DeferSaturated}"
      "min second (g_recovery g) \<le> d_requeue_after d" "d_requeue_after d \<le> g_recovery g"
  | (ramping) s where "d_reason d = DeferRamping" "g_sat g = Some s" "ls_ramping (g_local g)"
      "min second (min (g_recovery g) (ramp_left s (ceiling_locked g) (ls_capacity (g_local g)))) \<le> d_requeue_after d"
      "d_requeue_after d \<le> min (g_recovery g) (ramp_left s (ceiling_locked g) (ls_capacity (g_local g)))"
proof -
  have fr: "same_frame g' g" by (rule acquire_all_frame[OF assms(1)])
  have jit: "min second hi \<le> default_jitter draw hi" "default_jitter draw hi \<le> hi" for hi
    using jitter_between_bounds[OF assms(2), of min_capacity_jitter hi]
    by (simp_all add: default_jitter_def min_capacity_jitter_def)
  from assms(1)[unfolded acquire_all_def] distinct_normalize_keys show thesis
  proof (cases rule: acquire_deferred_cases)
    case (held k)
    then show ?thesis by (intro throttled) (simp_all add: throttled_by_def time_sub_pos)
  next
    case (full_key k)
    then show ?thesis using jit[of "g_recovery g"]
      by (intro waiting) (simp_all add: full_key_deferral_def same_frame_simps[OF fr])
  next
    case full_local
    show ?thesis
    proof (cases "d_reason d = DeferRamping")
      case False
      then show ?thesis using full_local jit[of "g_recovery g"]
        by (intro waiting) (auto simp: local_deferral_def Let_def same_frame_simps[OF fr] split: option.splits if_splits)
    next
      case True
      then obtain s where s: "g_sat g = Some s" "ls_ramping (g_local g)"
        "d_requeue_after d = default_jitter draw (min (g_recovery g)
           (ramp_left s (ceiling_locked g) (ls_capacity (g_local g))))"
        using full_local
        by (auto simp: local_deferral_def Let_def same_frame_simps[OF fr] split: option.splits if_splits)
      then show ?thesis using jit True by (intro ramping[OF True s(1,2)]) (simp_all only: s(3))
    qed
  qed
qed

lemma healthy_requeue:
  assumes "healthy g" "fair draw" "acquire_all (default_jitter draw) now ks g = (g', Some d)"
  shows "0 < d_requeue_after d \<and> (d_reason d \<noteq> DeferThrottled \<longrightarrow> d_requeue_after d \<le> g_recovery g)"
proof -
  have rec: "0 < g_recovery g" using assms(1) by (simp add: healthy_def)
  from assms(3,2) show ?thesis
  proof (cases rule: deferral_delay)
    case (ramping s)
    with ramp_left_pos[OF assms(1) ramping(2,3)] rec show ?thesis by linarith
  qed (use rec in auto)
qed

text \<open>The saturation options of a governor never change.\<close>

lemma gov_step_sat_opts:
  "gov_step (g, ts) (g', ts') \<Longrightarrow> map_option sa_opts (g_sat g') = map_option sa_opts (g_sat g)"
proof (erule gov_stepE, goal_cases)
  case (9 now smp)
  show ?case
  proof (cases "g_sat g")
    case (Some s)
    then obtain s0 s' where st: "sat_step now smp (g_local g) (ceiling_locked g) (g_recovery g) s0
        = (s', g_local (sample now smp g))" "g_sat (sample now smp g) = Some s'"
      "s0 = fst (sat_read smp s)" by (rule sample_local)
    have "sa_opts s' = sa_opts s0"
      using sat_step_opts[of now smp "g_local g" "ceiling_locked g" "g_recovery g" s0] unfolding st(1) by simp
    then show ?thesis using 9 st by (simp add: Some)
  qed (use 9 in \<open>simp add: sample_fields\<close>)
qed (auto simp: same_frame_simps[OF acquire_all_frame] same_frame_simps[OF release_frame] same_frame_simps[OF observe_frame]
    register_fields start_sampler_def same_frame_simps[OF capacity_of_state(2)] same_frame_simps[OF snapshot_state(2)])

lemma gov_steps_sat_opts:
  "gov_steps x y \<Longrightarrow> map_option sa_opts (g_sat (fst y)) = map_option sa_opts (g_sat (fst x))"
  by (induction rule: gov_steps.induct) (metis gov_step_sat_opts prod.collapse)+

lemma reachable_sat:
  assumes "gov_reachable opts g ts" "g_sat g = Some s"
  shows "so_enabled (go_saturation opts)" "0 < so_startup_ramp (sa_opts s)" "0 < so_sample_period (sa_opts s)"
proof -
  obtain g0 where g0: "new_governor opts = Inr g0" "gov_steps (g0, {#}) (g, ts)"
    using assms(1) by (auto simp: gov_reachable_def)
  obtain s0 where s0: "g_sat g0 = Some s0" "sa_opts s0 = sa_opts s"
    using gov_steps_sat_opts[OF g0(2)] assms(2) by (cases "g_sat g0") auto
  then have n: "so_enabled (go_saturation opts)" "new_saturation (go_saturation opts) = Inr s0"
    using g0(1) by (auto simp: new_governor_def Let_def split: if_splits sum.splits)
  then have "with_defaults (go_saturation opts) = Inr (sa_opts s)"
    using s0(2) by (auto simp: new_saturation_def split: sum.splits)
  from with_defaults_ok(1,2)[OF this] n(1) show "so_enabled (go_saturation opts)"
    "0 < so_startup_ramp (sa_opts s)" "0 < so_sample_period (sa_opts s)" by simp_all
qed

text \<open>The time a ramp has left is the steps to the ceiling, each as long as the slower of its two clocks.\<close>

lemma reachable_ramp_left:
  assumes "gov_reachable opts g ts" "go_max_concurrent opts \<le> max_int64" "g_sat g = Some s"
    and "ceiling_locked g * max (so_startup_ramp (sa_opts s)) (so_sample_period (sa_opts s)) \<le> max_int64"
  shows "ramp_left s (ceiling_locked g) (ls_capacity (g_local g)) =
      (ceiling_locked g - ls_capacity (g_local g)) * max (so_startup_ramp (sa_opts s)) (so_sample_period (sa_opts s))"
    "0 \<le> ramp_left s (ceiling_locked g) (ls_capacity (g_local g))"
    "ramp_left s (ceiling_locked g) (ls_capacity (g_local g)) = 0 \<longleftrightarrow> ls_capacity (g_local g) = ceiling_locked g"
proof -
  let ?d = "ceiling_locked g - ls_capacity (g_local g)"
  let ?m = "max (so_startup_ramp (sa_opts s)) (so_sample_period (sa_opts s))"
  have c: "1 \<le> ls_capacity (g_local g)" "ls_capacity (g_local g) \<le> ceiling_locked g"
    using gov_reachable_ok[OF assms(1,2)] by (simp_all add: gov_ok_def)
  have m: "0 < ?m" using reachable_sat(2,3)[OF assms(1,3)] by simp
  have "0 \<le> ?d * ?m" "?d * ?m \<le> ceiling_locked g * ?m"
    using c m by (intro mult_nonneg_nonneg mult_right_mono; simp)+
  then have "in_i64 (?d * ?m)" using assms(4) by (simp add: in_i64_def)
  then show e: "ramp_left s (ceiling_locked g) (ls_capacity (g_local g)) = ?d * ?m"
    by (simp add: ramp_left_def Let_def i64_id)
  show "0 \<le> ramp_left s (ceiling_locked g) (ls_capacity (g_local g))"
    "ramp_left s (ceiling_locked g) (ls_capacity (g_local g)) = 0 \<longleftrightarrow> ls_capacity (g_local g) = ceiling_locked g"
    unfolding e using \<open>0 \<le> ?d * ?m\<close> m by auto
qed

section \<open>Concrete states for the witnesses\<close>

definition off_saturation :: sat_options where
  "off_saturation = \<lparr>so_enabled = False, so_experimental_memory = False, so_cgroup_dir = [],
     so_sample_period = 0, so_startup_ramp = 0, so_cpu_threshold = Fin 0, so_soft_ratio = Fin 0,
     so_hard_ratio = Fin 0\<rparr>"

definition two_workers :: gov_options where
  "two_workers = \<lparr>go_max_concurrent = 2, go_ignore_signals = False, go_recovery = 0,
     go_saturation = off_saturation\<rparr>"

definition gov2 :: governor where
  "gov2 = (case new_governor two_workers of Inr g \<Rightarrow> g)"

definition busy2 :: governor where
  "busy2 = fst (acquire_all (\<lambda>h. h) 5 [''a''] gov2)"

definition too_many_requests :: signal where
  "too_many_requests = \<lparr>sg_key = ''a'', sg_retry_after = 60 * second, sg_reset_at = 0,
     sg_remaining = 0, sg_limit = 0, sg_has_quota = False, sg_throttled = True\<rparr>"

definition throttled2 :: governor where
  "throttled2 = observe_signal 5 too_many_requests gov2"

lemma gov2_new: "new_governor two_workers = Inr gov2"
  by (simp add: gov2_def two_workers_def off_saturation_def new_governor_def)

lemma gov2_key: "key_state_of gov2 k = fresh_key 2"
  by (simp add: gov2_def two_workers_def off_saturation_def new_governor_def key_state_of_def
      lookup_empty ceiling_locked_def i64_def)

lemma busy2_granted: "acquire_all (\<lambda>h. h) 5 [''a''] gov2 = (busy2, None)"
proof -
  have "snd (acquire_all (\<lambda>h. h) 5 [''a''] gov2) = None" by code_simp
  then show ?thesis by (metis busy2_def prod.collapse)
qed

lemma busy2_reachable: "gov_reachable two_workers busy2 {#[''a'']#}"
proof -
  have "normalize_keys [''a''] = [''a'']" by code_simp
  with gov_step.grant[OF busy2_granted, of "{#}"] have "gov_step (gov2, {#}) (busy2, {#[''a'']#})" by simp
  then show ?thesis unfolding gov_reachable_def using gov2_new gov_steps.intros by blast
qed

lemma throttled2_key:
  "key_state_of throttled2 k = (if k = ''a'' then (fresh_key 2)
     \<lparr>ks_capacity := 1, ks_hold_until := 60 * second + 5, ks_last_reduce := 5\<rparr> else fresh_key 2)"
proof -
  have 1: "classify too_many_requests 5 = SignalThrottled" "sg_key too_many_requests = ''a''"
    "signal_deadline too_many_requests 5 = 60 * second + 5"
    by (simp_all add: too_many_requests_def classify_def signal_deadline_def time_add_def)
  have 2: "\<not> g_ignore_signals gov2"
    by (simp add: gov2_def two_workers_def off_saturation_def new_governor_def)
  have 3: "ks_hold_until (fresh_key 2) = 0" by (simp add: fresh_key_def)
  show ?thesis by (simp add: throttled2_def observe_signal_eq 1 2 3 gov2_key)
qed

lemma throttled2_hold:
  "ks_hold_until (key_state_of throttled2 k) = (if k = ''a'' then 60 * second + 5 else 0)"
  by (simp add: throttled2_key fresh_key_def)

lemma throttled2_sat: "g_sat throttled2 = None"
  by (simp add: throttled2_def observe_signal_eq gov2_def two_workers_def off_saturation_def
      new_governor_def split: signal_kind.split)

lemma throttled2_deferred:
  "''a'' \<in> set ks \<Longrightarrow> \<exists>g d. acquire_all jit 30 ks throttled2 = (g, Some d) \<and> d_reason d = DeferThrottled"
  by (rule acquire_all_held[of "''a''" ks 30 throttled2 jit]) (auto simp: throttled2_hold)

section \<open>Properties: slots\<close>

text \<open>
  C16: in every state the governor can reach, whatever goroutines call it in whatever order, a
  key's in-flight counter is the number of outstanding calls that name it, the local counter is
  the number of outstanding calls, neither passes the ceiling, and every capacity stays between
  1 and the ceiling.
\<close>

theorem governor_counts_calls:
  assumes "gov_reachable opts g ts" "go_max_concurrent opts \<le> max_int64"
  shows "ks_in_flight (key_state_of g k) = users k ts \<and> users k ts \<le> ceiling_locked g
    \<and> 1 \<le> ks_capacity (key_state_of g k) \<and> ks_capacity (key_state_of g k) \<le> ceiling_locked g
    \<and> g_local_in_flight g = int (size ts) \<and> int (size ts) \<le> ceiling_locked g
    \<and> 1 \<le> local_capacity g \<and> local_capacity g \<le> ceiling_locked g"
  using gov_reachable_ok[OF assms] by (simp add: gov_ok_def key_ok_def local_capacity_def)

theorem governor_counts_calls_witness:
  "ks_in_flight (key_state_of busy2 ''a'') = users ''a'' {#[''a'']#} \<and> g_local_in_flight busy2 = 1"
  using governor_counts_calls[OF busy2_reachable, of "''a''"] by (simp add: two_workers_def)

text \<open>
  C17: AcquireAll is all or nothing.  Granted, it takes exactly one slot in each distinct nonempty
  key and one local slot, none of the keys is held, and no counter passes its capacity.
  Deferred, it leaves every counter as it was.
\<close>

theorem acquire_all_or_nothing:
  assumes "acquire_all jit now ks g = (g', r)"
  shows "(r = None \<and> (\<forall>k. ks_in_flight (key_state_of g' k) =
              ks_in_flight (key_state_of g k) + (if k \<in> set ks \<and> k \<noteq> [] then 1 else 0))
            \<and> (\<forall>k \<in> set ks. k \<noteq> [] \<longrightarrow> ks_in_flight (key_state_of g' k) \<le> ks_capacity (key_state_of g' k)
                 \<and> ks_hold_until (key_state_of g k) \<le> now)
            \<and> g_local_in_flight g' = g_local_in_flight g + 1 \<and> g_local_in_flight g' \<le> local_capacity g)
       \<or> (r \<noteq> None \<and> (\<forall>k. ks_in_flight (key_state_of g' k) = ks_in_flight (key_state_of g k))
            \<and> g_local_in_flight g' = g_local_in_flight g)"
proof (cases r)
  case None
  note gr = acquire_granted[OF assms[unfolded acquire_all_def None] distinct_normalize_keys]
  show ?thesis using gr(1-4,6) None by (auto simp: local_capacity_def)
next
  case (Some d)
  then have "g' = touched now (normalize_keys ks) g"
    using assms acquire_fst_deferred by (simp add: acquire_all_def)
  then show ?thesis using Some by (simp add: touched_frame touched_state)
qed

theorem acquire_all_or_nothing_witness:
  "ks_in_flight (key_state_of busy2 ''a'') = 1 \<and> g_local_in_flight busy2 \<le> local_capacity gov2"
  using acquire_all_or_nothing[OF busy2_granted] by (auto simp: gov2_key fresh_key_def)

text \<open>
  C23: the release closure undoes its grant.  Right after the grant it restores every counter of a
  reachable state, and its second and later calls change nothing.
\<close>

theorem release_undoes_grant:
  assumes "gov_reachable opts g ts" "go_max_concurrent opts \<le> max_int64"
    and "acquire_all jit now ks g = (g1, None)"
    and "release_once (Some (normalize_keys ks)) g1 = (sl, g2)"
  shows "ks_in_flight (key_state_of g2 k) = ks_in_flight (key_state_of g k)
    \<and> g_local_in_flight g2 = g_local_in_flight g \<and> release_once sl g3 = (sl, g3)"
proof -
  have ok: "gov_ok g ts" by (rule gov_reachable_ok[OF assms(1,2)])
  have g2: "g2 = release (normalize_keys ks) g1" "sl = None"
    using assms(4) by (auto simp: release_once_def)
  have "gov_ok g2 ts"
    using gate.bracket[OF ok assms(3), where body = "\<lambda>s. s"] by (simp add: g2)
  with ok g2(2) show ?thesis by (simp add: gov_ok_def key_ok_def release_once_def)
qed

theorem release_undoes_grant_witness:
  "g_local_in_flight (snd (release_once (Some (normalize_keys [''a''])) busy2)) = g_local_in_flight gov2"
proof -
  have r: "gov_reachable two_workers gov2 {#}"
    using gov2_new gov_steps.refl by (auto simp: gov_reachable_def)
  show ?thesis
    using release_undoes_grant[OF r _ busy2_granted prod.collapse[symmetric]]
    by (simp add: two_workers_def)
qed

section \<open>Properties: deferrals and holds\<close>

text \<open>A throttled signal's deadline outlasts whatever the governor does next.\<close>

lemma hold_lasts:
  assumes "classify s t = SignalThrottled" "sg_key s \<noteq> []" "\<not> g_ignore_signals g"
    and "gov_steps (observe_signal t s g, ts) (g', ts')"
  shows "signal_deadline s t \<le> ks_hold_until (key_state_of g' (sg_key s))"
proof -
  have "signal_deadline s t \<le> ks_hold_until (key_state_of (observe_signal t s g) (sg_key s))"
    using assms(1-3) by (simp add: observe_signal_eq)
  also have "\<dots> \<le> ks_hold_until (key_state_of g' (sg_key s))"
    using gov_steps_hold[OF assms(4), of "sg_key s"] by simp
  finally show ?thesis .
qed

lemma held_call_deferred:
  assumes "k \<in> set ks" "k \<noteq> []" "now < until" "until \<le> ks_hold_until (key_state_of g k)"
  shows "\<exists>g' d. acquire_all jit now ks g = (g', Some d) \<and> d_reason d = DeferThrottled
    \<and> until \<le> d_until d \<and> d_requeue_after d = time_sub (d_until d) now
    \<and> d_key d \<in> set ks \<and> 0 < d_requeue_after d"
proof -
  have "now < ks_hold_until (key_state_of g k)" using assms(3,4) by simp
  from acquire_all_held[OF assms(1,2) this, of jit] obtain g' d where
    d: "acquire_all jit now ks g = (g', Some d)" "d_reason d = DeferThrottled"
      "d_requeue_after d = time_sub (d_until d) now" "d_key d \<in> set ks" "now < d_until d"
      "\<forall>x \<in> set ks. x \<noteq> [] \<longrightarrow> ks_hold_until (key_state_of g x) \<le> d_until d" by metis
  moreover have "until \<le> d_until d" using d(6) assms(1,2,4) by fastforce
  ultimately show ?thesis by (auto simp: time_sub_pos)
qed

text \<open>
  C18: once a throttled signal names a key, every call that names the key is deferred until the
  signal's deadline, whatever the governor does in between; the deferral's own deadline is no
  earlier, and its requeue delay is the time left until then.
\<close>

theorem throttled_key_is_gated:
  assumes "classify s t = SignalThrottled" "sg_key s \<noteq> []" "\<not> g_ignore_signals g"
    and "gov_steps (observe_signal t s g, ts) (g', ts')"
    and "sg_key s \<in> set ks" "now < signal_deadline s t"
  shows "\<exists>g'' d. acquire_all jit now ks g' = (g'', Some d) \<and> d_reason d = DeferThrottled
    \<and> signal_deadline s t \<le> d_until d \<and> d_requeue_after d = time_sub (d_until d) now
    \<and> d_key d \<in> set ks \<and> 0 < d_requeue_after d"
  by (rule held_call_deferred[OF assms(5,2,6) hold_lasts[OF assms(1-4)]])

theorem throttled_key_is_gated_witness:
  "\<exists>g d. acquire_all (\<lambda>h. h) 30 [''b'', ''a''] (observe_signal 5 too_many_requests gov2) = (g, Some d)
     \<and> d_reason d = DeferThrottled \<and> 60 * second + 5 \<le> d_until d"
proof -
  have 1: "classify too_many_requests 5 = SignalThrottled" "sg_key too_many_requests = ''a''"
    "signal_deadline too_many_requests 5 = 60 * second + 5"
    by (simp_all add: too_many_requests_def classify_def signal_deadline_def time_add_def)
  have 2: "\<not> g_ignore_signals gov2"
    by (simp add: gov2_def two_workers_def off_saturation_def new_governor_def)
  show ?thesis
    using throttled_key_is_gated[OF 1(1) _ 2 gov_steps.refl[of "(_, {#})"],
        of "[''b'', ''a'']" 30 "\<lambda>h. h"] 1(2,3) by fastforce
qed

lemma only_key:
  assumes "distinct ns"
  shows "if \<exists>k. set ns = {k} then set ns = {case ns of [k] \<Rightarrow> k | _ \<Rightarrow> []} else (case ns of [k] \<Rightarrow> k | _ \<Rightarrow> []) = []"
proof (cases "\<exists>k. set ns = {k}")
  case True
  then obtain k where k: "set ns = {k}" by blast
  then have "length ns = 1" using distinct_card[OF assms] by simp
  then have "ns = [k]" using k by (cases ns) auto
  then show ?thesis by simp
next
  case False
  then have "\<forall>k. ns \<noteq> [k]" by auto
  then show ?thesis unfolding if_not_P[OF False] by (simp split: list.split)
qed

text \<open>
  C21: what a deferral names.  Throttled exactly when one of the call's keys is held, with the
  key of the latest hold and that hold's deadline.  Otherwise at capacity for the first of the
  call's keys whose slots are all taken.  With room in every key it is the local capacity that is
  full: the key is the call's only one, none when it has none or several; saturated exactly when the
  capacity has a cause, and then with it; else ramping while the ramp lasts and the sampler runs;
  else at capacity, and during a ramp without its sampler the cause says so.
\<close>

theorem deferral_names_its_cause:
  fixes now :: instant
  assumes "acquire_all jit now ks g = (g', Some d)"
  defines "keys \<equiv> set ks - {[]}" and "full \<equiv> \<lambda>k. ks_capacity (key_state_of g' k) \<le> ks_in_flight (key_state_of g k)"
  shows "(d_reason d = DeferThrottled \<and> \<not> d_local d \<and> d_cause d = [] \<and> d_key d \<in> keys
        \<and> now < d_until d \<and> d_until d = ks_hold_until (key_state_of g (d_key d))
        \<and> (\<forall>k \<in> keys. ks_hold_until (key_state_of g k) \<le> d_until d))
    \<or> ((\<forall>k \<in> keys. ks_hold_until (key_state_of g k) \<le> now) \<and> d_until d = 0
        \<and> (if \<not> d_local d then d_reason d = DeferAtCapacity \<and> d_cause d = [] \<and> d_key d \<in> keys
             \<and> full (d_key d) \<and> (\<forall>k \<in> keys. k < d_key d \<longrightarrow> \<not> full k)
             \<and> d_capacity d = ks_capacity (key_state_of g' (d_key d))
           else (\<forall>k \<in> keys. \<not> full k)
             \<and> local_capacity g \<le> g_local_in_flight g \<and> d_capacity d = local_capacity g
             \<and> (if \<exists>k. keys = {k} then keys = {d_key d} else d_key d = [])
             \<and> d_reason d = (if ls_cause (g_local g) \<noteq> [] then DeferSaturated
                 else if ls_ramping (g_local g) \<and> g_sampler_started g \<and> g_sat g \<noteq> None then DeferRamping
                 else DeferAtCapacity)
             \<and> d_cause d = (if ls_cause (g_local g) = [] \<and> ls_ramping (g_local g) \<and> \<not> g_sampler_started g
                 then cause_sampler_not_started else ls_cause (g_local g))))"
proof -
  let ?n = "normalize_keys ks"
  have keys: "set ?n = keys" by (auto simp: keys_def)
  have "g' = touched now ?n g" using assms(1) by (simp add: acquire_all_def acquire_fst_deferred)
  then have flight: "ks_in_flight (key_state_of g' k) = ks_in_flight (key_state_of g k)" for k
    by (simp add: touched_state)
  have fr: "same_frame g' g" by (rule acquire_all_frame[OF assms(1)])
  from assms(1)[unfolded acquire_all_def] distinct_normalize_keys show ?thesis
  proof (cases rule: acquire_deferred_cases)
    case (held k)
    then show ?thesis unfolding keys by (simp add: throttled_by_def)
  next
    case (full_key k)
    then show ?thesis unfolding keys flight full_def
      by (simp add: full_key_deferral_def not_less not_le)
  next
    case full_local
    note only_key[OF distinct_normalize_keys[of ks], unfolded keys]
    moreover have "d_local d" "d_key d = (case ?n of [k] \<Rightarrow> k | _ \<Rightarrow> [])" "d_until d = 0" "d_capacity d = local_capacity g"
      "d_reason d = (if ls_cause (g_local g) \<noteq> [] then DeferSaturated
                 else if ls_ramping (g_local g) \<and> g_sampler_started g \<and> g_sat g \<noteq> None then DeferRamping
                 else DeferAtCapacity)"
      "d_cause d = (if ls_cause (g_local g) = [] \<and> ls_ramping (g_local g) \<and> \<not> g_sampler_started g
                 then cause_sampler_not_started else ls_cause (g_local g))"
      using full_local(3)
      by (simp_all add: local_deferral_def Let_def local_capacity_def same_frame_simps[OF fr] split: option.split)
    ultimately show ?thesis using full_local(1,2,4) unfolding keys flight full_def
      by (simp add: local_capacity_def not_less not_le)
  qed
qed

theorem deferral_names_its_cause_witness:
  "\<exists>g d. acquire_all (\<lambda>h. h) 30 [''b'', ''a''] throttled2 = (g, Some d)
     \<and> d_key d = ''a'' \<and> d_until d = 60 * second + 5"
proof -
  obtain g d where a: "acquire_all (\<lambda>h. h) 30 [''b'', ''a''] throttled2 = (g, Some d)"
    "d_reason d = DeferThrottled"
    using throttled2_deferred[of "[''b'', ''a'']" "\<lambda>h. h"] by auto
  with deferral_names_its_cause[OF a(1)] show ?thesis by (auto simp: throttled2_hold)
qed

text \<open>
  C22: when a deferral brings the object back, in every reachable state of the governor.  Throttled: when the
  hold ends, which is later than now.  Ramping: after a delay drawn from a second up to the time that the
  ramp still needs, at most the recovery interval; the ramp needs no time exactly when its
  capacity is already the ceiling, and then the delay is zero, which takes a governor of one worker.
  Otherwise: after a delay drawn from a second up to the recovery interval.
\<close>

theorem deferral_requeues:
  assumes "gov_reachable opts g ts" "go_max_concurrent opts \<le> max_int64"
    and "\<And>s. g_sat g = Some s \<Longrightarrow>
      ceiling_locked g * max (so_startup_ramp (sa_opts s)) (so_sample_period (sa_opts s)) \<le> max_int64"
    and "fair draw" "acquire_all (default_jitter draw) now ks g = (g', Some d)"
  shows "0 < g_recovery g
    \<and> (d_requeue_after d = 0 \<longleftrightarrow> d_reason d = DeferRamping \<and> local_capacity g = ceiling_locked g)
    \<and> (d_requeue_after d = 0 \<longrightarrow> go_max_concurrent opts = 1)
    \<and> (case d_reason d of
         DeferThrottled \<Rightarrow> d_requeue_after d = time_sub (d_until d) now \<and> 0 < d_requeue_after d
       | DeferRamping \<Rightarrow> (\<exists>s left. g_sat g = Some s
           \<and> left = (ceiling_locked g - local_capacity g) * max (so_startup_ramp (sa_opts s)) (so_sample_period (sa_opts s))
           \<and> min second (min (g_recovery g) left) \<le> d_requeue_after d \<and> d_requeue_after d \<le> min (g_recovery g) left)
       | _ \<Rightarrow> min second (g_recovery g) \<le> d_requeue_after d \<and> d_requeue_after d \<le> g_recovery g)"
proof -
  have rec: "0 < g_recovery g" "1 \<le> go_max_concurrent opts"
    using gov_reachable_ok[OF assms(1,2)] assms(1)
    by (auto simp: gov_ok_def gov_reachable_def new_governor_def split: if_splits)
  from assms(5,4) show ?thesis
  proof (cases rule: deferral_delay)
    case (ramping s)
    note left = reachable_ramp_left[OF assms(1,2) ramping(2) assms(3)[OF ramping(2)]]
    have z: "d_requeue_after d = 0 \<longleftrightarrow> local_capacity g = ceiling_locked g"
      using ramping(4,5) left(2,3) rec by (auto simp: local_capacity_def min_def split: if_splits)
    have "go_max_concurrent opts = 1" if "d_requeue_after d = 0"
    proof (rule ccontr)
      assume "go_max_concurrent opts \<noteq> 1"
      with rec have "2 \<le> go_max_concurrent opts \<or> \<not> so_enabled (go_saturation opts)" by simp
      from reachable_healthy[OF assms(1,2) this assms(3)] have "ls_capacity (g_local g) < ceiling_locked g"
        using ramping(3) by (simp add: healthy_def ramp_ok_def)
      with z that show False by (simp add: local_capacity_def)
    qed
    then show ?thesis using ramping z rec left(1) by (simp add: local_capacity_def)
  qed (use rec in \<open>auto split: defer_reason.split\<close>)
qed

text \<open>
  The zero delay is reached: one worker, its sampler started before the first sample, one call in flight
  and a second one.
\<close>

definition one_worker :: gov_options where
  "one_worker = two_workers\<lparr>go_max_concurrent := 1, go_saturation := off_saturation\<lparr>so_enabled := True\<rparr>\<rparr>"

definition gov1 :: governor where
  "gov1 = start_sampler (case new_governor one_worker of Inr g \<Rightarrow> g)"

lemma single_worker_requeues_at_once:
  defines "g \<equiv> fst (acquire_all (\<lambda>h. h) 5 [''a''] gov1)"
  shows "gov_reachable one_worker g {#[''a'']#}
    \<and> map_option d_requeue_after (snd (acquire_all (default_jitter draw) 6 [] g)) = Some 0"
proof -
  have n: "new_governor one_worker = Inr (case new_governor one_worker of Inr g \<Rightarrow> g)" by code_simp
  have "snd (acquire_all (\<lambda>h. h) 5 [''a''] gov1) = None" "normalize_keys [''a''] = [''a'']" by code_simp+
  then have "gov_step (gov1, {#}) (g, {#[''a'']#})"
    using gov_step.grant[of "\<lambda>h. h" 5 "[''a'']" gov1 g "{#}"] by (metis g_def prod.collapse)
  then have "gov_reachable one_worker g {#[''a'']#}"
    using n gov_steps.intros gov_step.started unfolding gov_reachable_def gov1_def by blast
  moreover have "map_option d_requeue_after (snd (acquire_all (default_jitter draw) 6 [] g)) = Some 0"
    unfolding g_def by code_simp
  ultimately show ?thesis ..
qed

theorem deferral_requeues_witness:
  "\<exists>g d. acquire_all (default_jitter (\<lambda>_. None)) 30 [''a''] throttled2 = (g, Some d)
     \<and> 0 < d_requeue_after d"
proof -
  have r: "gov_reachable two_workers throttled2 {#}"
    using gov2_new gov_steps.intros gov_step.observe unfolding gov_reachable_def throttled2_def by blast
  obtain g d where a: "acquire_all (default_jitter (\<lambda>_. None)) 30 [''a''] throttled2 = (g, Some d)"
    using throttled2_deferred[of "[''a'']" "default_jitter (\<lambda>_. None)"] by auto
  have "0 < d_requeue_after d"
    using deferral_requeues[OF r _ _ _ a] throttled2_sat
    by (auto simp: two_workers_def fair_def split: defer_reason.splits)
  with a show ?thesis by blast
qed

section \<open>Properties: capacity\<close>

text \<open>
  The order, the repetition and the empty entries of a call's keys do not matter: two calls
  that name the same nonempty keys get the same answer and leave the same state.
\<close>

theorem acquire_all_names_a_set:
  assumes "set ks - {[]} = set ks' - {[]}"
  shows "acquire_all jit now ks g = acquire_all jit now ks' g \<and> normalize_keys ks = normalize_keys ks'"
proof -
  have "set (normalize_keys ks) = set (normalize_keys ks')" using assms by auto
  then have "normalize_keys ks = normalize_keys ks'"
    by (intro sorted_distinct_set_unique) simp_all
  then show ?thesis by (simp add: acquire_all_def)
qed

theorem acquire_all_names_a_set_witness:
  "acquire_all (\<lambda>h. h) 7 [''b'', [], ''a'', ''b''] gov2 = acquire_all (\<lambda>h. h) 7 [''a'', ''b''] gov2"
  by (rule acquire_all_names_a_set[THEN conjunct1]) auto

text \<open>
  what a signal does to its key.  Throttled: capacity 1 and a hold that only moves later.
  Advisory: capacity halved, never below 1.  Both restart the clean interval, neither touches
  calls in flight, other keys or the local capacity; anything else changes nothing at all.
\<close>

theorem observe_signal_effect:
  fixes now :: instant
  assumes "sg_key s \<noteq> []" "\<not> g_ignore_signals g" "0 \<le> ks_capacity (key_state_of g (sg_key s))"
  defines "old \<equiv> key_state_of g (sg_key s)"
    and "new \<equiv> key_state_of (observe_signal now s g) (sg_key s)"
  shows "ks_in_flight new = ks_in_flight old \<and> ks_last_raise new = ks_last_raise old
    \<and> (\<forall>k. k \<noteq> sg_key s \<longrightarrow> key_state_of (observe_signal now s g) k = key_state_of g k)
    \<and> local_capacity (observe_signal now s g) = local_capacity g
    \<and> (case classify s now of
         SignalThrottled \<Rightarrow> ks_capacity new = 1 \<and> ks_last_reduce new = now
           \<and> ks_hold_until new = max (ks_hold_until old) (signal_deadline s now)
       | SignalAdvisory \<Rightarrow> ks_capacity new = max 1 (ks_capacity old div 2) \<and> ks_last_reduce new = now
           \<and> ks_hold_until new = ks_hold_until old
       | SignalNone \<Rightarrow> observe_signal now s g = g)"
  using assms(1-3) unfolding old_def new_def
  by (auto simp: observe_signal_eq local_capacity_def max.commute split: signal_kind.split)

theorem observe_signal_effect_witness:
  "ks_capacity (key_state_of throttled2 ''a'') = 1 \<and> ks_last_reduce (key_state_of throttled2 ''a'') = 5"
proof -
  have "\<not> g_ignore_signals gov2"
    by (simp add: gov2_def two_workers_def off_saturation_def new_governor_def)
  moreover have "sg_key too_many_requests = ''a''" "classify too_many_requests 5 = SignalThrottled"
    by (simp_all add: too_many_requests_def classify_def)
  ultimately show ?thesis
    using observe_signal_effect[of too_many_requests gov2 5]
    by (simp add: throttled2_def gov2_key fresh_key_def)
qed

definition poll :: "string \<Rightarrow> instant \<Rightarrow> governor \<Rightarrow> governor" where
  "poll k now g = fst (capacity_of now k g)"

lemma poll_frame: "same_frame (poll k now g) g"
  unfolding poll_def by (rule capacity_of_state)

lemma poll_state: "key_state_of (poll k now g) k = raised now g k"
  by (simp add: poll_def capacity_of_state)

lemma time_sub_ge: "r \<le> max_int64 \<Longrightarrow> r \<le> t - u \<Longrightarrow> r \<le> time_sub t u"
  by (simp add: time_sub_def)

text \<open>
  Capacity recovers.  Polled once per recovery interval with no signal in between, a key's
  capacity rises by one each time, from the end of its hold and its last cut, until it is back at
  the ceiling, and stays there.
\<close>

theorem capacity_recovers:
  assumes "0 < g_recovery g" "g_recovery g \<le> max_int64"
    and "ks_hold_until (key_state_of g k) \<le> t" "ks_last_reduce (key_state_of g k) \<le> t"
    and "ks_last_raise (key_state_of g k) \<le> t" "ks_capacity (key_state_of g k) \<le> ceiling_locked g"
  shows "ks_capacity (key_state_of (fold (\<lambda>i. poll k (t + int i * g_recovery g)) [1..<Suc n] g) k)
     = min (ceiling_locked g) (ks_capacity (key_state_of g k) + int n)"
proof -
  let ?r = "g_recovery g"
  let ?g = "\<lambda>n. fold (\<lambda>i. poll k (t + int i * ?r)) [1..<Suc n] g"
  let ?st = "\<lambda>n. key_state_of (?g n) k"
  have inv: "same_frame (?g n) g \<and> ks_hold_until (?st n) = ks_hold_until (key_state_of g k)
      \<and> ks_last_reduce (?st n) = ks_last_reduce (key_state_of g k)
      \<and> ks_last_raise (?st n) \<le> t + int n * ?r
      \<and> ks_capacity (?st n) = min (ceiling_locked g) (ks_capacity (key_state_of g k) + int n)" for n
  proof (induction n)
    case 0
    show ?case using assms by simp
  next
    case (Suc n)
    let ?now = "t + int (Suc n) * ?r"
    have eq: "?g (Suc n) = poll k ?now (?g n)" by simp
    have fr: "same_frame (?g n) g" using Suc.IH by (rule conjunct1)
    have st: "?st (Suc n) = maybe_raise (ceiling_locked g) ?r ?now (?st n)"
      by (simp only: eq poll_state same_frame_simps[OF fr])
    have fr': "same_frame (?g (Suc n)) g"
      unfolding eq using poll_frame fr by (rule same_frame_trans)
    have n0: "0 \<le> int n * ?r" using assms(1) by simp
    have nowr: "?now = t + int n * ?r + ?r" by (simp add: algebra_simps)
    have "?r \<le> time_sub ?now (ks_last_raise (?st n))"
      using Suc.IH nowr by (intro time_sub_ge assms(2)) linarith
    moreover have "?r \<le> time_sub ?now (max (ks_hold_until (?st n)) (ks_last_reduce (?st n)))"
      using Suc.IH nowr n0 assms(3,4) by (intro time_sub_ge assms(2)) linarith
    moreover have "ks_hold_until (?st n) \<le> ?now" using Suc.IH nowr n0 assms(1,3) by linarith
    ultimately have cap: "ks_capacity (?st (Suc n)) =
        (if ks_capacity (?st n) < ceiling_locked g then ks_capacity (?st n) + 1 else ks_capacity (?st n))"
      unfolding st maybe_raise_capacity by simp
    have "ks_last_raise (?st (Suc n)) \<le> ?now"
      unfolding st maybe_raise_last_raise using Suc.IH nowr assms(1) by auto
    moreover have "ks_capacity (?st (Suc n)) = min (ceiling_locked g) (ks_capacity (key_state_of g k) + int (Suc n))"
      unfolding cap using Suc.IH by (simp add: min_def)
    ultimately show ?case using fr' Suc.IH unfolding st by simp
  qed
  then show ?thesis by blast
qed

theorem capacity_recovers_witness:
  "ks_capacity (key_state_of (fold (\<lambda>i. poll ''a'' (70 * second + int i * g_recovery throttled2)) [1..<Suc 3]
     throttled2) ''a'') = 2"
proof -
  have "g_recovery throttled2 = 30 * second" "ceiling_locked throttled2 = 2"
    by (simp_all add: throttled2_def observe_signal_eq gov2_def two_workers_def off_saturation_def
        new_governor_def default_recovery_interval_def ceiling_locked_def i64_def split: signal_kind.split)
  then show ?thesis
    using capacity_recovers[of throttled2 "''a''" "70 * second" 3]
    by (simp add: throttled2_key fresh_key_def)
qed

section \<open>Properties: saturation\<close>

lemma sample_step:
  assumes "g_sat g = Some s"
  shows "g_sat (sample now smp g) = Some (fst (sat_step now smp (g_local g) (ceiling_locked g)
           (g_recovery g) (fst (sat_read smp s))))"
    "g_local (sample now smp g) = snd (sat_step now smp (g_local g) (ceiling_locked g)
           (g_recovery g) (fst (sat_read smp s)))"
  using assms by (simp_all add: sample_def Let_def split: prod.split)

lemma sat_step_capacity:
  assumes "0 \<le> ls_capacity cur"
  shows "ls_capacity (snd (sat_step now smp cur ceil recovery s)) =
     (if smp_hard (sa_opts s) smp then 1
      else if smp_saturated (sa_opts s) smp then max 1 (ls_capacity cur div 2)
      else if ls_capacity cur < ceil \<and> raise_wait recovery s \<le> time_sub now (started now s)
      then ls_capacity cur + 1 else ls_capacity cur)"
    "ls_cause (snd (sat_step now smp cur ceil recovery s)) = smp_cause (sa_opts s) smp"
  using assms smp_cause_Nil_iff[of "sa_opts s" smp]
  by (cases "smp_hard (sa_opts s) smp"; cases "smp_saturated (sa_opts s) smp";
      auto simp: step_simps capacity_floor_def dest: smp_hard_saturated)+

text \<open>
  What one sample does.  Memory past the hard ratio drops the local capacity to 1; another
  saturated input halves it, never below 1; a clean sample clears the cause and raises it by at
  most one, never past the ceiling, and only after the recovery interval since the last step (the
  startup ramp interval while nothing was cut).  No key is touched.
\<close>

theorem sample_effect:
  fixes now :: instant
  assumes "g_sat g = Some s" "1 \<le> local_capacity g" "evaluate (sa_opts s) smp = (hard, saturated, cause)"
  shows "ls_cause (g_local (sample now smp g)) = cause \<and> (cause = [] \<longleftrightarrow> \<not> saturated)
    \<and> local_capacity (sample now smp g) =
        (if hard then 1 else if saturated then max 1 (local_capacity g div 2)
         else if local_capacity g < ceiling_locked g
           \<and> (if sa_cut s then g_recovery g else so_startup_ramp (sa_opts s))
              \<le> time_sub now (if sa_last_step s = 0 then now else sa_last_step s)
         then local_capacity g + 1 else local_capacity g)
    \<and> key_state_of (sample now smp g) = key_state_of g
    \<and> g_local_in_flight (sample now smp g) = g_local_in_flight g"
proof -
  have ev: "hard = smp_hard (sa_opts s) smp" "saturated = smp_saturated (sa_opts s) smp"
    "cause = smp_cause (sa_opts s) smp" using assms(3) by (simp_all add: evaluate_eq)
  have "0 \<le> ls_capacity (g_local g)" using assms(2) by (simp add: local_capacity_def)
  note step = sat_step_capacity[OF this, of now smp "ceiling_locked g" "g_recovery g" "fst (sat_read smp s)",
      folded sample_step(2)[OF assms(1)], unfolded sat_read_opts sat_read_fields, folded ev]
  show ?thesis
    unfolding local_capacity_def step sample_fields
    using smp_cause_Nil_iff[of "sa_opts s" smp, folded ev] by blast
qed

definition clean_reading :: reading where
  "clean_reading = \<lparr>rd_enabled = True, rd_percent = Fin 3, rd_disabled_because = []\<rparr>"

definition clean_sample :: cgroup_sample where
  "clean_sample = \<lparr>cg_cpu_pressure = clean_reading, cg_working_set = clean_reading\<rparr>"

definition hot_sample :: cgroup_sample where
  "hot_sample = \<lparr>cg_cpu_pressure = clean_reading,
     cg_working_set = clean_reading\<lparr>rd_percent := Fin 85\<rparr>\<rparr>"

definition sat4 :: gov_options where
  "sat4 = \<lparr>go_max_concurrent = 4, go_ignore_signals = False, go_recovery = 0,
     go_saturation = off_saturation\<lparr>so_enabled := True\<rparr>\<rparr>"

definition gov4 :: governor where
  "gov4 = (case new_governor sat4 of Inr g \<Rightarrow> start_sampler g)"

lemma gov4_value:
  "g_local gov4 = \<lparr>ls_capacity = 1, ls_cause = [], ls_ramping = True\<rparr>"
  "g_recovery gov4 = 30 * second" "ceiling_locked gov4 = 4"
  "g_sat gov4 = Some \<lparr>sa_opts = fill_defaults (go_saturation sat4), sa_last = None,
     sa_logged_disabled = [], sa_last_step = 0, sa_cut = False\<rparr>"
  by code_simp+

theorem sample_effect_witness:
  "ls_cause (g_local (sample 9 hot_sample gov4)) = ''memory working set 85% of limit''
   \<and> local_capacity (sample 9 hot_sample gov4) = 1"
proof -
  have e: "evaluate (fill_defaults (go_saturation sat4)) hot_sample
      = (False, True, ''memory working set 85% of limit'')" by code_simp
  show ?thesis
    using sample_effect[OF gov4_value(4) _ , unfolded saturation.simps, OF _ e, of 9]
    by (simp add: local_capacity_def gov4_value)
qed

lemma sample_clean:
  assumes "g_sat g = Some s" "\<not> smp_saturated (sa_opts s) smp" "sa_last_step s \<noteq> 0"
    and "raise_wait (g_recovery g) s \<le> time_sub now (sa_last_step s)"
  obtains s' where "g_sat (sample now smp g) = Some s'" "sa_opts s' = sa_opts s" "sa_cut s' = sa_cut s"
    "sa_last_step s' = now \<or> sa_last_step s' = sa_last_step s"
    "local_capacity (sample now smp g) = (if local_capacity g < ceiling_locked g
       then local_capacity g + 1 else local_capacity g)"
  by (rule that[OF sample_step(1)[OF assms(1)]])
    (use assms in \<open>auto simp: sample_step(2) local_capacity_def step_simps\<close>)

text \<open>
  The local capacity comes back.  After the sampler's clock started, clean samples one
  interval apart (the startup ramp interval from the start, the recovery interval after a cut)
  raise it by one each, up to the ceiling.
\<close>

theorem local_capacity_recovers:
  assumes "g_sat g = Some s" "sa_last_step s = t" "0 < t" "local_capacity g \<le> ceiling_locked g"
    and "w = (if sa_cut s then g_recovery g else so_startup_ramp (sa_opts s))" "0 < w" "w \<le> max_int64"
    and "\<And>smp. smp \<in> set smps \<Longrightarrow> \<not> fst (snd (evaluate (sa_opts s) smp))"
  shows "local_capacity (fold (\<lambda>(i, smp). sample (t + int (Suc i) * w) smp) (enumerate 0 smps) g)
    = min (ceiling_locked g) (local_capacity g + int (length smps))"
proof -
  let ?g = "\<lambda>xs. fold (\<lambda>(i, smp). sample (t + int (Suc i) * w) smp) (enumerate 0 xs) g"
  have "ceiling_locked (?g smps) = ceiling_locked g \<and> g_recovery (?g smps) = g_recovery g
    \<and> local_capacity (?g smps) = min (ceiling_locked g) (local_capacity g + int (length smps))
    \<and> (\<exists>s'. g_sat (?g smps) = Some s' \<and> sa_opts s' = sa_opts s \<and> sa_cut s' = sa_cut s
         \<and> 0 < sa_last_step s' \<and> sa_last_step s' \<le> t + int (length smps) * w)"
    using assms(8)
  proof (induction smps rule: rev_induct)
    case Nil
    then show ?case using assms by simp
  next
    case (snoc smp xs)
    let ?h = "?g xs"
    let ?now = "t + int (Suc (length xs)) * w"
    have eq: "?g (xs @ [smp]) = sample ?now smp ?h"
      by (simp add: enumerate_append_eq)
    from snoc obtain s' where IH: "ceiling_locked ?h = ceiling_locked g" "g_recovery ?h = g_recovery g"
      "local_capacity ?h = min (ceiling_locked g) (local_capacity g + int (length xs))"
      "g_sat ?h = Some s'" "sa_opts s' = sa_opts s" "sa_cut s' = sa_cut s"
      "0 < sa_last_step s'" "sa_last_step s' \<le> t + int (length xs) * w" by auto
    have nowr: "?now = t + int (length xs) * w + w" by (simp add: algebra_simps)
    have clean: "\<not> smp_saturated (sa_opts s') smp"
      using snoc.prems[of smp] IH(5) by (simp add: smp_saturated_def)
    have wait: "raise_wait (g_recovery ?h) s' \<le> time_sub ?now (sa_last_step s')"
      unfolding IH(2,5,6) assms(5)[symmetric]
      using IH(8) nowr by (intro time_sub_ge assms(7)) linarith
    from IH(7) have nz: "sa_last_step s' \<noteq> 0" by simp
    from sample_clean[OF IH(4) clean nz wait] obtain s'' where s'': "g_sat (sample ?now smp ?h) = Some s''"
      "sa_opts s'' = sa_opts s'" "sa_cut s'' = sa_cut s'"
      "sa_last_step s'' = ?now \<or> sa_last_step s'' = sa_last_step s'"
      "local_capacity (sample ?now smp ?h) = (if local_capacity ?h < ceiling_locked ?h
         then local_capacity ?h + 1 else local_capacity ?h)" by blast
    have "0 \<le> int (length xs) * w" using assms(6) by simp
    then have "0 < sa_last_step s''" "sa_last_step s'' \<le> ?now"
      using s''(4) IH(7,8) nowr assms(3,6) by linarith+
    moreover have "local_capacity (sample ?now smp ?h)
        = min (ceiling_locked g) (local_capacity g + int (length (xs @ [smp])))"
      unfolding s''(5) IH(1,3) by (simp add: min_def)
    ultimately show ?case unfolding eq using s'' IH by (simp add: sample_fields)
  qed
  then show ?thesis by blast
qed

theorem local_capacity_recovers_witness:
  "local_capacity (fold (\<lambda>(i, smp). sample (9 + int (Suc i) * (2 * second)) smp)
     (enumerate 0 [clean_sample, clean_sample]) (sample 9 clean_sample gov4)) = 3"
proof -
  let ?s = "fst (sat_step 9 clean_sample (g_local gov4) (ceiling_locked gov4) (g_recovery gov4)
      (fst (sat_read clean_sample \<lparr>sa_opts = fill_defaults (go_saturation sat4), sa_last = None,
     sa_logged_disabled = [], sa_last_step = 0, sa_cut = False\<rparr>)))"
  have s: "sa_last_step ?s = 9" "so_startup_ramp (sa_opts ?s) = 2 * second" "\<not> sa_cut ?s"
    "\<not> fst (snd (evaluate (sa_opts ?s) clean_sample))" by code_simp+
  have g: "local_capacity (sample 9 clean_sample gov4) = 1" "ceiling_locked (sample 9 clean_sample gov4) = 4"
    by code_simp+
  show ?thesis
    using local_capacity_recovers[OF sample_step(1)[OF gov4_value(4), of 9 clean_sample] s(1),
        of "2 * second" "[clean_sample, clean_sample]"] s(2-4) g by simp
qed

text \<open>
  The deadline a deferral shows is never early.  It parses back to an instant that is not
  before the server's deadline and less than a second after it.
\<close>

theorem shown_deadline_not_early:
  assumes "printable (Time (ceil_second t) 0)"
  shows "\<exists>u. parse_rfc3339 (format_deadline t) = Some (Time u 0) \<and> t \<le> u \<and> u < t + second"
proof -
  have tr: "trunc_second x = x - x mod second" for x
    by (simp add: trunc_second_def minus_mod_eq_div_mult)
  have m: "0 \<le> t mod second" "t mod second < second" by simp_all
  have cs: "ceil_second t = (if t mod second = 0 then t else t - t mod second + second)"
    using m by (auto simp: ceil_second_def tr Let_def)
  then have "ceil_second t mod second = 0" by (auto simp: mod_simps)
  then have "trunc_second (ceil_second t) = ceil_second t" by (simp add: tr)
  moreover have "t \<le> ceil_second t" "ceil_second t < t + second" using m cs by (auto split: if_splits)
  ultimately show ?thesis using parse_format[OF assms] by (simp add: format_deadline_def)
qed

theorem shown_deadline_not_early_witness:
  "\<exists>u. parse_rfc3339 (format_deadline 63896774460000000001) = Some (Time u 0)
     \<and> 63896774460000000001 \<le> u"
proof -
  have "printable (Time (ceil_second 63896774460000000001) 0)" by code_simp
  from shown_deadline_not_early[OF this] show ?thesis by blast
qed

end
