(* ===== verification/Effects.thy ===== *)
theory Effects
  imports Prelude
begin

text \<open>
  Passes: computations on a state that either go on with a value or end the pass early with its
  outcome, as a Go function with early returns does.  \<open>finally\<close> runs a deferred call on every way
  out.  \<open>wp\<close> computes what a pass establishes; its equations let the simplifier walk a pass.
\<close>

type_synonym ('s, 'r, 'a) pass = "'s \<Rightarrow> 's \<times> ('r + 'a)"

definition ret :: "'a \<Rightarrow> ('s, 'r, 'a) pass" where
  "ret a = (\<lambda>s. (s, Inr a))"

definition stop :: "'r \<Rightarrow> ('s, 'r, 'a) pass" where
  "stop r = (\<lambda>s. (s, Inl r))"

definition andthen :: "('s, 'r, 'a) pass \<Rightarrow> ('a \<Rightarrow> ('s, 'r, 'b) pass) \<Rightarrow> ('s, 'r, 'b) pass" where
  "andthen m f = (\<lambda>s. case m s of (s', Inl r) \<Rightarrow> (s', Inl r) | (s', Inr a) \<Rightarrow> f a s')"

definition modify :: "('s \<Rightarrow> 's) \<Rightarrow> ('s, 'r, unit) pass" where
  "modify f = (\<lambda>s. (f s, Inr ()))"

definition asks :: "('s \<Rightarrow> 'a) \<Rightarrow> ('s, 'r, 'a) pass" where
  "asks f = (\<lambda>s. (s, Inr (f s)))"

definition finally_do :: "('s, 'r, 'a) pass \<Rightarrow> ('s \<Rightarrow> 's) \<Rightarrow> ('s, 'r, 'a) pass" where
  "finally_do m c = (\<lambda>s. case m s of (s', x) \<Rightarrow> (c s', x))"

section \<open>Weakest preconditions\<close>

text \<open>\<open>wp m Q R s\<close>: from \<open>s\<close>, \<open>m\<close> goes on with a value that satisfies \<open>Q\<close>, or ends with an outcome that satisfies \<open>R\<close>.\<close>

definition wp :: "('s, 'r, 'a) pass \<Rightarrow> ('a \<Rightarrow> 's \<Rightarrow> bool) \<Rightarrow> ('r \<Rightarrow> 's \<Rightarrow> bool) \<Rightarrow> 's \<Rightarrow> bool" where
  "wp m Q R s = (case m s of (s', Inl r) \<Rightarrow> R r s' | (s', Inr a) \<Rightarrow> Q a s')"

named_theorems wps "equations and rules that walk a pass"

lemma wp_ret [wps]: "wp (ret a) Q R = Q a"
  by (simp add: wp_def ret_def fun_eq_iff)

lemma wp_stop [wps]: "wp (stop r) Q R = R r"
  by (simp add: wp_def stop_def fun_eq_iff)

lemma wp_andthen [wps]: "wp (andthen m f) Q R s = wp m (\<lambda>a. wp (f a) Q R) R s"
  by (simp add: wp_def andthen_def split: prod.split sum.split)

lemma wp_modify [wps]: "wp (modify f) Q R s = Q () (f s)"
  by (simp add: wp_def modify_def)

lemma wp_asks [wps]: "wp (asks f) Q R s = Q (f s) s"
  by (simp add: wp_def asks_def)

lemma wp_finally [wps]: "wp (finally_do m c) Q R s = wp m (\<lambda>a s. Q a (c s)) (\<lambda>r s. R r (c s)) s"
  by (simp add: wp_def finally_do_def split: prod.split sum.split)

lemma wp_if [wps]: "wp (if b then m else n) Q R s = (if b then wp m Q R s else wp n Q R s)"
  by simp

lemma wp_option [wps]:
  "wp (case x of None \<Rightarrow> m | Some a \<Rightarrow> f a) Q R s =
     (case x of None \<Rightarrow> wp m Q R s | Some a \<Rightarrow> wp (f a) Q R s)"
  by (simp split: option.split)

lemma wp_sum [wps]:
  "wp (case x of Inl a \<Rightarrow> f a | Inr b \<Rightarrow> g b) Q R s =
     (case x of Inl a \<Rightarrow> wp (f a) Q R s | Inr b \<Rightarrow> wp (g b) Q R s)"
  by (simp split: sum.split)

lemma wp_mono:
  assumes "wp m Q R s" "\<And>a s. Q a s \<Longrightarrow> Q' a s" "\<And>r s. R r s \<Longrightarrow> R' r s"
  shows "wp m Q' R' s"
  using assms by (auto simp: wp_def split: prod.splits sum.splits)

lemma wp_conj:
  "wp m Q R s \<Longrightarrow> wp m Q' R' s \<Longrightarrow> wp m (\<lambda>a s. Q a s \<and> Q' a s) (\<lambda>r s. R r s \<and> R' r s) s"
  by (auto simp: wp_def split: prod.splits sum.splits)

lemma wp_True [simp]: "wp m (\<lambda>_ _. True) (\<lambda>_ _. True) s"
  by (simp add: wp_def split: prod.split sum.split)

lemma wp_stopped: "m s = (s', Inl r) \<Longrightarrow> wp m Q R s \<Longrightarrow> R r s'"
  by (simp add: wp_def)

lemma wp_went_on: "m s = (s', Inr a) \<Longrightarrow> wp m Q R s \<Longrightarrow> Q a s'"
  by (simp add: wp_def)

end
