(* ===== verification/Reconciler_State.thy ===== *)
theory Reconciler_State
  imports Effects Meta Conditions Errors Governor
begin

text \<open>
  What a reconcile pass works on: the managed resource, the reconciler's configuration and the
  operations it is given (src/pkg/reconciler/reconciler.go, type \<open>Reconciler\<close>), and the state of a
  pass.  The API server, the provider and the clock are code outside the repository: each of their
  operations is a field of the record \<open>reconciler\<close>, a function of the object it is passed and of an
  opaque world \<open>'w\<close>, which also holds the governor.  The pass records what it does in a trace, the
  latest event first.  Log output, durations and contexts are left out.
\<close>

section \<open>The managed resource\<close>

text \<open>\<open>mg_payload\<close> is the spec and the rest of the status, which only the provider reads.\<close>

record 'p managed = object_meta +
  mg_conditions :: "condition list"
  mg_payload :: 'p

section \<open>Outcomes\<close>

record result =
  res_requeue :: bool
  res_after :: duration

type_synonym outcome = "result \<times> err option"

definition no_result :: result where
  "no_result = \<lparr>res_requeue = False, res_after = 0\<rparr>"

definition rate_limited_requeue :: result where
  "rate_limited_requeue = \<lparr>res_requeue = True, res_after = 0\<rparr>"

definition requeue_after :: "duration \<Rightarrow> result" where
  "requeue_after d = \<lparr>res_requeue = False, res_after = d\<rparr>"

definition is_rate_limited_requeue :: "result \<Rightarrow> bool" where
  "is_rate_limited_requeue r \<longleftrightarrow> res_requeue r"

record observation =
  ob_exists :: bool
  ob_up_to_date :: bool
  ob_late_initialized :: bool
  ob_diff :: string

section \<open>Events of a pass\<close>

datatype api_op = GetManaged | UpdateManaged | UpdateStatus | UpdateCritical | AddFinalizer | RemoveFinalizer
datatype ext_op = XCreate | XUpdate | XDelete
datatype metric_op = OpGet | OpConnect | OpObserve | OpCreate | OpUpdate | OpDelete
  | OpFinalizerAdd | OpFinalizerRemove | OpStatusUpdate

datatype metric = InFlight int | Duration metric_op | Failure metric_op
  | ReconcileDuration | ReconcileSuccess | ReconcileFailure | ErrorRequeue | AfterRequeue | ImmediateRequeue

text \<open>
  A call carries the object before and after it and its error; \<open>Took\<close> and \<open>Gave\<close> are the slots of
  the governor; \<open>Emitted\<close> is an event on the object: the throttled recorder or the plain one, a
  warning or not, its reason and message.
\<close>

datatype 'p ev =
    ApiCall api_op "'p managed" "'p managed" "err option"
  | Connected "'p managed" "'p managed" "err option"
  | Observed "'p managed" "'p managed" "err + observation"
  | ExtCall ext_op "'p managed" "'p managed" "err option"
  | Disconnected "err option"
  | Took "string list"
  | Gave "string list"
  | Deferred deferral "'p managed"
  | Emitted bool bool string string
  | Metric metric

section \<open>The reconciler\<close>

type_synonym ('w, 'p) api = "'p managed \<Rightarrow> 'w \<Rightarrow> 'w \<times> 'p managed \<times> err option"
type_synonym ('w, 'p) keyer = "'p managed \<Rightarrow> 'w \<Rightarrow> err + string list"

text \<open>
  \<open>'c\<close> is what \<open>Connect\<close> returns; its methods are the fields that take it.  \<open>r_governor\<close> reads and
  writes the governor in the world, \<open>None\<close> when the reconciler has none.
\<close>

record ('w, 'p, 'c) reconciler =
  r_new :: "'p managed"
  r_get :: "('w, 'p) api"
  r_update :: "('w, 'p) api"
  r_status_update :: "('w, 'p) api"
  r_critical :: "('w, 'p) api"
  r_add_finalizer :: "('w, 'p) api"
  r_remove_finalizer :: "('w, 'p) api"
  r_connect :: "'p managed \<Rightarrow> 'w \<Rightarrow> 'w \<times> 'p managed \<times> (err + 'c)"
  r_disconnect :: "'w \<Rightarrow> 'w \<times> err option"
  r_observe :: "'c \<Rightarrow> 'p managed \<Rightarrow> 'w \<Rightarrow> 'w \<times> 'p managed \<times> (err + observation)"
  r_create :: "'c \<Rightarrow> ('w, 'p) api"
  r_ext_update :: "'c \<Rightarrow> ('w, 'p) api"
  r_delete :: "'c \<Rightarrow> ('w, 'p) api"
  r_keyer :: "('w, 'p) keyer option"
  r_client_keyer :: "'c \<Rightarrow> ('w, 'p) keyer option"
  r_governor :: "(('w \<Rightarrow> governor) \<times> (governor \<Rightarrow> 'w \<Rightarrow> 'w)) option"
  r_now :: "'w \<Rightarrow> 'w \<times> gotime"
  r_draw :: "'w \<Rightarrow> int \<Rightarrow> int option"
  r_is_conflict :: "err \<Rightarrow> bool"
  r_is_not_found :: "err \<Rightarrow> bool"
  r_deep_equal :: "'p managed \<Rightarrow> 'p managed \<Rightarrow> bool"
  r_metrics :: bool
  r_poll_interval :: duration
  r_poll_hook :: "'p managed \<Rightarrow> duration \<Rightarrow> 'w \<Rightarrow> 'w \<times> duration"
  r_creation_grace :: duration
  r_recovery_grace :: duration
  r_reobserve :: duration

text \<open>\<open>rs_slot\<close> is the slot a granted gate holds; \<open>rs_key_errors\<close> are the objects whose keyer error was logged.\<close>

record ('w, 'p) rstate =
  rs_world :: 'w
  rs_mg :: "'p managed"
  rs_slot :: slot
  rs_key_errors :: "string list"
  rs_trace :: "'p ev list"

type_synonym ('w, 'p, 'a) rpass = "(('w, 'p) rstate, outcome, 'a) pass"

section \<open>Error strings and reasons\<close>

definition err_get_managed :: string where "err_get_managed = ''cannot get managed resource''"
definition err_update_managed :: string where "err_update_managed = ''cannot update managed resource''"
definition err_update_status :: string where "err_update_status = ''cannot update managed resource status''"
definition err_update_annotations :: string where
  "err_update_annotations = ''cannot update managed resource annotations''"
definition err_create_incomplete :: string where
  "err_create_incomplete = ''cannot determine creation result - remove the '' @ key_create_pending
     @ '' annotation if it is safe to proceed''"
definition err_connect :: string where "err_connect = ''connect failed''"
definition err_observe :: string where "err_observe = ''observe failed''"
definition err_create_waits :: "string \<Rightarrow> string" where
  "err_create_waits since = ''external create pending since '' @ since
     @ '' cannot be resolved until observe succeeds''"
definition err_create :: string where "err_create = ''create failed''"
definition err_update :: string where "err_update = ''update failed''"
definition err_delete :: string where "err_delete = ''delete failed''"
definition err_not_exist :: string where "err_not_exist = ''external resource does not exist''"
definition err_ready_not_set :: string where
  "err_ready_not_set = ''Observe succeeded but did not set the Ready condition, which still reads ''
     @ reason_not_observed @ '' from an earlier failure: the provider breaks the provider-runtime contract ''
     @ [CHR 0x22] @ ''a successful Observe must set Ready'' @ [CHR 0x22] @ ''. Ready stays ''
     @ reason_not_observed @ '' until the provider sets it''"

definition reason_paused :: string where "reason_paused = ''ReconciliationPaused''"
definition reason_cannot_connect :: string where "reason_cannot_connect = ''CannotConnectToProvider''"
definition reason_cannot_disconnect :: string where
  "reason_cannot_disconnect = ''CannotDisconnectFromProvider''"
definition reason_cannot_observe :: string where
  "reason_cannot_observe = ''CannotObserveExternalResource''"
definition reason_cannot_create :: string where "reason_cannot_create = ''CannotCreateExternalResource''"
definition reason_cannot_delete :: string where "reason_cannot_delete = ''CannotDeleteExternalResource''"
definition reason_cannot_update :: string where "reason_cannot_update = ''CannotUpdateExternalResource''"
definition reason_cannot_update_managed :: string where
  "reason_cannot_update_managed = ''CannotUpdateManagedResource''"
definition reason_ready_not_set :: string where "reason_ready_not_set = ''ReadyNotSetAfterObserve''"
definition reason_deleted :: string where "reason_deleted = ''DeletedExternalResource''"
definition reason_created :: string where "reason_created = ''CreatedExternalResource''"
definition reason_updated :: string where "reason_updated = ''UpdatedExternalResource''"
definition reason_pending :: string where "reason_pending = ''PendingExternalResource''"

text \<open>\<open>errors.New\<close> and \<open>errors.Wrap\<close> on an error that is not nil.\<close>

definition new_err :: "string \<Rightarrow> err" where
  "new_err m = Foreign 0 m"

section \<open>Steps of a pass\<close>

definition log_ev :: "'p ev \<Rightarrow> ('w, 'p) rstate \<Rightarrow> ('w, 'p) rstate" where
  "log_ev e s = s\<lparr>rs_trace := e # rs_trace s\<rparr>"

definition emit :: "bool \<Rightarrow> bool \<Rightarrow> string \<Rightarrow> string \<Rightarrow> ('w, 'p, unit) rpass" where
  "emit throttled warning reason msg = modify (log_ev (Emitted throttled warning reason msg))"

definition api :: "api_op \<Rightarrow> ('w, 'p) api \<Rightarrow> ('w, 'p, err option) rpass" where
  "api op f s =
     (let (w, mg, e) = f (rs_mg s) (rs_world s)
      in (log_ev (ApiCall op (rs_mg s) mg e) (s\<lparr>rs_world := w, rs_mg := mg\<rparr>), Inr e))"

definition ext :: "ext_op \<Rightarrow> ('w, 'p) api \<Rightarrow> ('w, 'p, err option) rpass" where
  "ext op f s =
     (let (w, mg, e) = f (rs_mg s) (rs_world s)
      in (log_ev (ExtCall op (rs_mg s) mg e) (s\<lparr>rs_world := w, rs_mg := mg\<rparr>), Inr e))"

definition connect :: "('w, 'p, 'c) reconciler \<Rightarrow> ('w, 'p, err + 'c) rpass" where
  "connect R s =
     (let (w, mg, x) = r_connect R (rs_mg s) (rs_world s)
      in (log_ev (Connected (rs_mg s) mg (case x of Inl e \<Rightarrow> Some e | Inr _ \<Rightarrow> None))
            (s\<lparr>rs_world := w, rs_mg := mg\<rparr>), Inr x))"

definition observe :: "('w, 'p, 'c) reconciler \<Rightarrow> 'c \<Rightarrow> ('w, 'p, err + observation) rpass" where
  "observe R c s =
     (let (w, mg, x) = r_observe R c (rs_mg s) (rs_world s)
      in (log_ev (Observed (rs_mg s) mg x) (s\<lparr>rs_world := w, rs_mg := mg\<rparr>), Inr x))"

text \<open>\<open>record*\<close>: nothing without metrics; a duration always, a failure on an error.\<close>

definition record_op :: "('w, 'p, 'c) reconciler \<Rightarrow> metric_op \<Rightarrow> bool \<Rightarrow> ('w, 'p, unit) rpass" where
  "record_op R op failed =
     (if \<not> r_metrics R then ret ()
      else andthen (modify (log_ev (Metric (Duration op))))
             (\<lambda>_. if failed then modify (log_ev (Metric (Failure op))) else ret ()))"

definition clock :: "('w, 'p, 'c) reconciler \<Rightarrow> ('w, 'p, gotime) rpass" where
  "clock R s = (let (w, t) = r_now R (rs_world s) in (s\<lparr>rs_world := w\<rparr>, Inr t))"

text \<open>Each condition's constructor reads the clock for its transition time, in turn.\<close>

fun read_conditions ::
  "('w, 'p, 'c) reconciler \<Rightarrow> (gotime \<Rightarrow> condition) list \<Rightarrow> ('w, 'p, condition list) rpass" where
  "read_conditions R [] = ret []"
| "read_conditions R (c # cs) =
     andthen (clock R) (\<lambda>t. andthen (read_conditions R cs) (\<lambda>cs'. ret (c t # cs')))"

definition put_conditions :: "condition list \<Rightarrow> 'p managed \<Rightarrow> 'p managed" where
  "put_conditions new mg = mg\<lparr>mg_conditions := set_conditions (mg_conditions mg) new\<rparr>"

definition set_conds :: "('w, 'p, 'c) reconciler \<Rightarrow> (gotime \<Rightarrow> condition) list \<Rightarrow> ('w, 'p, unit) rpass" where
  "set_conds R cs = andthen (read_conditions R cs)
     (\<lambda>new. modify (\<lambda>s. s\<lparr>rs_mg := put_conditions new (rs_mg s)\<rparr>))"

definition status_update :: "('w, 'p, 'c) reconciler \<Rightarrow> ('w, 'p, err option) rpass" where
  "status_update R = andthen (api UpdateStatus (r_status_update R))
     (\<lambda>e. andthen (record_op R OpStatusUpdate (e \<noteq> None)) (\<lambda>_. ret e))"

text \<open>
  The end of most branches: set conditions, write the status, and return the branch's outcome, or
  the status error.
\<close>

definition write_status :: "('w, 'p, 'c) reconciler \<Rightarrow> outcome \<Rightarrow> ('w, 'p, 'a) rpass" where
  "write_status R out = andthen (status_update R)
     (\<lambda>e. case e of Some e \<Rightarrow> stop (no_result, wrap (Some e) err_update_status) | None \<Rightarrow> stop out)"

definition conclude ::
  "('w, 'p, 'c) reconciler \<Rightarrow> (gotime \<Rightarrow> condition) list \<Rightarrow> outcome \<Rightarrow> ('w, 'p, 'a) rpass" where
  "conclude R cs out = andthen (set_conds R cs) (\<lambda>_. write_status R out)"

end
