(* ===== verification/Gate.thy ===== *)
theory Gate
  imports Reconciler_State
begin

text \<open>
  The gate in front of every external call and the end of a deferred pass
  (src/pkg/reconciler/ratelimit.go), and the Ready contract (src/pkg/reconciler/ready.go).
\<close>

section \<open>The gate\<close>

text \<open>
  \<open>gate\<close>: the keyer's error is remembered per object, and forgotten by its next success.  A grant
  puts the release closure's keys in \<open>rs_slot\<close>; an ungated call leaves it \<open>None\<close>, \<open>noRelease\<close>.
\<close>

definition note_key_error :: "string \<Rightarrow> string list \<Rightarrow> string list" where
  "note_key_error uid seen = (if uid \<in> set seen then seen else uid # seen)"

definition rate_limit_keys :: "('w, 'p) keyer option \<Rightarrow> ('w, 'p, string list) rpass" where
  "rate_limit_keys k s =
     (case k of
        None \<Rightarrow> (s, Inr [])
      | Some f \<Rightarrow>
          (case f (rs_mg s) (rs_world s) of
             Inl e \<Rightarrow> (s\<lparr>rs_key_errors := note_key_error (om_uid (rs_mg s)) (rs_key_errors s)\<rparr>, Inr [])
           | Inr keys \<Rightarrow> (s\<lparr>rs_key_errors := removeAll (om_uid (rs_mg s)) (rs_key_errors s)\<rparr>, Inr keys)))"

definition governed_acquire ::
  "('w, 'p, 'c) reconciler \<Rightarrow> ('w \<Rightarrow> governor) \<Rightarrow> (governor \<Rightarrow> 'w \<Rightarrow> 'w) \<Rightarrow> string list
     \<Rightarrow> ('w, 'p, deferral option) rpass" where
  "governed_acquire R getg putg keys s =
     (let (w, t) = r_now R (rs_world s);
          (g, d) = acquire_all (default_jitter (r_draw R w)) (inst t) keys (getg w)
      in case d of
           Some d \<Rightarrow> (log_ev (Deferred d (rs_mg s)) (s\<lparr>rs_world := putg g w\<rparr>), Inr (Some d))
         | None \<Rightarrow> (log_ev (Took (normalize_keys keys))
                     (s\<lparr>rs_world := putg g w, rs_slot := Some (normalize_keys keys)\<rparr>), Inr None))"

definition gate ::
  "('w, 'p, 'c) reconciler \<Rightarrow> ('w, 'p) keyer option \<Rightarrow> ('w, 'p, deferral option) rpass" where
  "gate R k =
     (case r_governor R of
        None \<Rightarrow> ret None
      | Some lens \<Rightarrow>
          andthen (rate_limit_keys k) (\<lambda>keys.
          andthen (asks (\<lambda>s. saturation_enabled (fst lens (rs_world s)))) (\<lambda>sat.
            if \<not> list_ex (\<lambda>key. key \<noteq> []) keys \<and> \<not> sat then ret None
            else governed_acquire R (fst lens) (snd lens) keys)))"

text \<open>The release closure, called when the call returns and again when the pass ends.\<close>

definition release_slot :: "('w, 'p, 'c) reconciler \<Rightarrow> ('w, 'p) rstate \<Rightarrow> ('w, 'p) rstate" where
  "release_slot R s =
     (case (r_governor R, rs_slot s) of
        (Some lens, Some keys) \<Rightarrow>
          (let (sl, g) = release_once (Some keys) (fst lens (rs_world s))
           in log_ev (Gave keys) (s\<lparr>rs_world := snd lens g (rs_world s), rs_slot := sl\<rparr>))
      | _ \<Rightarrow> s)"

section \<open>A deferred pass\<close>

definition reason_reconcile_deferred_event :: string where
  "reason_reconcile_deferred_event = reason_reconcile_deferred"

definition new_window :: "condition \<Rightarrow> deferral \<Rightarrow> bool" where
  "new_window prev d \<longleftrightarrow> c_reason prev \<noteq> reason_reconcile_deferred
     \<or> (d_reason d = DeferThrottled \<and> c_message prev \<noteq> deferral_message d)"

definition unchanged ::
  "('w, 'p, 'c) reconciler \<Rightarrow> 'p managed option \<Rightarrow> 'p managed \<Rightarrow> bool" where
  "unchanged R pristine mg = (case pristine of None \<Rightarrow> False | Some p \<Rightarrow> r_deep_equal R p mg)"

definition defer_reconcile ::
  "('w, 'p, 'c) reconciler \<Rightarrow> 'p managed option \<Rightarrow> deferral \<Rightarrow> ('w, 'p, 'a) rpass" where
  "defer_reconcile R pristine d =
     (if d_reason d = DeferRamping then
        andthen (asks rs_mg) (\<lambda>mg.
          if \<not> unchanged R pristine mg then write_status R (requeue_after (d_requeue_after d), None)
          else stop (requeue_after (d_requeue_after d), None))
      else
        andthen (asks rs_mg) (\<lambda>mg.
        andthen (if new_window (get_condition (mg_conditions mg) type_synced) d
                 then emit True False reason_reconcile_deferred_event (deferral_message d) else ret ()) (\<lambda>_.
        andthen (set_conds R [cond_reconcile_deferred (deferral_message d)]) (\<lambda>_.
        andthen (asks rs_mg) (\<lambda>mg.
          if unchanged R pristine mg then stop (requeue_after (d_requeue_after d), None)
          else write_status R (requeue_after (d_requeue_after d), None))))))"

text \<open>A gated call: the gate, the call, the release; a deferral ends the pass.\<close>

definition gated ::
  "('w, 'p, 'c) reconciler \<Rightarrow> ('w, 'p) keyer option \<Rightarrow> 'p managed option \<Rightarrow> ('w, 'p, 'a) rpass
     \<Rightarrow> ('w, 'p, 'a) rpass" where
  "gated R k pristine call =
     andthen (gate R k) (\<lambda>d. case d of
       Some d \<Rightarrow> defer_reconcile R pristine d
     | None \<Rightarrow> andthen call (\<lambda>x. andthen (modify (release_slot R)) (\<lambda>_. ret x)))"

section \<open>The Ready contract\<close>

definition mark_not_observed :: "('w, 'p, 'c) reconciler \<Rightarrow> err \<Rightarrow> ('w, 'p, unit) rpass" where
  "mark_not_observed R e =
     (if is_ready_assessed (Some e) then ret ()
      else andthen (asks rs_mg) (\<lambda>mg.
        if was_deleted mg \<or> c_reason (get_condition (mg_conditions mg) type_ready) = reason_deleting
        then set_conds R [cond_deleting] else set_conds R [cond_not_observed]))"

definition ready_not_set_after_observe :: "'p managed \<Rightarrow> bool" where
  "ready_not_set_after_observe mg \<longleftrightarrow>
     c_reason (get_condition (mg_conditions mg) type_ready) = reason_not_observed"

end
