(* ===== verification/Reconcile.thy ===== *)
theory Reconcile
  imports Gate
begin

text \<open>
  \<open>Reconciler.Reconcile\<close> (src/pkg/reconciler/reconciler.go), one definition per stretch of the
  function, composed in its order.  A stretch ends the pass with \<open>stop\<close> where the function returns.
\<close>

section \<open>Reading the object\<close>

definition fetch :: "('w, 'p, 'c) reconciler \<Rightarrow> ('w, 'p, unit) rpass" where
  "fetch R =
     andthen (modify (\<lambda>s. s\<lparr>rs_mg := r_new R\<rparr>)) (\<lambda>_.
     andthen (api GetManaged (r_get R)) (\<lambda>e.
     andthen (record_op R OpGet (e \<noteq> None)) (\<lambda>_.
       case e of
         Some e \<Rightarrow> stop (no_result, wrap (ignore_not_found (r_is_not_found R) (Some e)) err_get_managed)
       | None \<Rightarrow> ret ())))"

definition check_paused :: "('w, 'p, 'c) reconciler \<Rightarrow> ('w, 'p, unit) rpass" where
  "check_paused R =
     andthen (asks rs_mg) (\<lambda>mg.
       if is_paused mg then
         andthen (emit False False reason_paused ''Reconciliation is paused via the pause annotation'') (\<lambda>_.
           conclude R [cond_reconcile_paused] (no_result, None))
       else ret ())"

text \<open>Removing the finalizer, which two branches do in the same words.\<close>

definition finalize :: "('w, 'p, 'c) reconciler \<Rightarrow> ('w, 'p, 'a) rpass" where
  "finalize R =
     andthen (api RemoveFinalizer (r_remove_finalizer R)) (\<lambda>e.
     andthen (record_op R OpFinalizerRemove (e \<noteq> None)) (\<lambda>_.
       case e of
         Some e \<Rightarrow>
           if r_is_conflict R e then stop (rate_limited_requeue, None)
           else conclude R [cond_deleting, cond_reconcile_error (err_msg e)]
                  (no_result, wrap (Some e) err_update_status)
       | None \<Rightarrow> stop (no_result, None)))"

definition check_orphaned :: "('w, 'p, 'c) reconciler \<Rightarrow> ('w, 'p, unit) rpass" where
  "check_orphaned R =
     andthen (asks rs_mg) (\<lambda>mg. if was_deleted mg \<and> \<not> should_delete mg then finalize R else ret ())"

section \<open>Connect and observe\<close>

definition connect_client ::
  "('w, 'p, 'c) reconciler \<Rightarrow> 'p managed option \<Rightarrow> ('w, 'p, 'c) rpass" where
  "connect_client R pristine =
     andthen (gated R (r_keyer R) pristine (connect R)) (\<lambda>x.
     andthen (record_op R OpConnect (isl x)) (\<lambda>_.
       case x of
         Inl e \<Rightarrow>
           if r_is_conflict R e then stop (rate_limited_requeue, None)
           else
             andthen (emit True True reason_cannot_connect (err_msg e)) (\<lambda>_.
             andthen (mark_not_observed R e) (\<lambda>_.
               conclude R [cond_reconcile_error (err_msg (Wrapped err_connect e))]
                 (no_result, wrap (Some e) err_connect)))
       | Inr c \<Rightarrow> ret c))"

definition observe_external ::
  "('w, 'p, 'c) reconciler \<Rightarrow> ('w, 'p) keyer option \<Rightarrow> 'p managed option \<Rightarrow> bool \<Rightarrow> 'c
     \<Rightarrow> ('w, 'p, observation) rpass" where
  "observe_external R k pristine unresolved c =
     andthen (gated R k pristine (observe R c)) (\<lambda>x.
     andthen (record_op R OpObserve (isl x)) (\<lambda>_.
       case x of
         Inl e \<Rightarrow>
           if r_is_conflict R e then stop (rate_limited_requeue, None)
           else
             andthen (emit True True reason_cannot_observe (err_msg e)) (\<lambda>_.
             andthen (asks rs_mg) (\<lambda>mg.
               let werr = Wrapped err_observe e;
                   werr = (if unresolved
                           then Wrapped (err_create_waits (format_rfc3339 (get_create_pending mg))) werr
                           else werr)
               in andthen (mark_not_observed R e) (\<lambda>_.
                    conclude R [cond_reconcile_error (err_msg werr)] (no_result, Some werr))))
       | Inr ob \<Rightarrow> ret ob))"

definition check_ready_contract :: "('w, 'p, unit) rpass" where
  "check_ready_contract =
     andthen (asks rs_mg) (\<lambda>mg.
       if \<not> was_deleted mg \<and> ready_not_set_after_observe mg
       then emit True True reason_ready_not_set err_ready_not_set else ret ())"

section \<open>The unresolved create handshake\<close>

definition edit_mg :: "('p managed \<Rightarrow> 'p managed) \<Rightarrow> ('w, 'p, unit) rpass" where
  "edit_mg f = modify (\<lambda>s. s\<lparr>rs_mg := f (rs_mg s)\<rparr>)"

definition annotations_failed :: "err \<Rightarrow> ('w, 'p, 'a) rpass" where
  "annotations_failed e =
     andthen (emit True True reason_cannot_update_managed (err_msg (Wrapped err_update_annotations e)))
       (\<lambda>_. stop (no_result, Some (Wrapped err_update_annotations e)))"

definition resolve_handshake ::
  "('w, 'p, 'c) reconciler \<Rightarrow> bool \<Rightarrow> observation \<Rightarrow> ('w, 'p, unit) rpass" where
  "resolve_handshake R unresolved ob =
     (if \<not> unresolved then ret ()
      else if ob_exists ob then
        andthen (clock R) (\<lambda>t.
        andthen (edit_mg (\<lambda>mg. set_create_succeeded mg t)) (\<lambda>_.
        andthen (api UpdateCritical (r_critical R)) (\<lambda>e.
          case e of Some e \<Rightarrow> annotations_failed e | None \<Rightarrow> ret ())))
      else
        andthen (asks rs_mg) (\<lambda>mg.
          if was_deleted mg then ret ()
          else andthen (clock R) (\<lambda>now.
            if create_pending_during (inst now) mg (r_recovery_grace R) then
              conclude R [cond_creating, cond_reconcile_error err_create_incomplete]
                (requeue_after (r_reobserve R), None)
            else
              andthen (edit_mg (\<lambda>mg. remove_annotations mg [key_create_pending])) (\<lambda>_.
              andthen (api UpdateManaged (r_update R)) (\<lambda>e.
                case e of
                  Some e \<Rightarrow>
                    if r_is_conflict R e then stop (rate_limited_requeue, None) else annotations_failed e
                | None \<Rightarrow> ret ())))))"

definition check_observe_only ::
  "('w, 'p, 'c) reconciler \<Rightarrow> observation \<Rightarrow> ('w, 'p, unit) rpass" where
  "check_observe_only R ob =
     andthen (asks rs_mg) (\<lambda>mg.
       if \<not> ob_exists ob \<and> should_only_observe mg then
         andthen (emit True True reason_cannot_observe err_not_exist) (\<lambda>_.
           conclude R [cond_reconcile_error (err_msg (Wrapped err_observe (new_err err_not_exist)))]
             (no_result, Some (Wrapped err_observe (new_err err_not_exist))))
       else ret ())"

definition check_creation_grace ::
  "('w, 'p, 'c) reconciler \<Rightarrow> observation \<Rightarrow> ('w, 'p, unit) rpass" where
  "check_creation_grace R ob =
     (if ob_exists ob then ret ()
      else andthen (asks rs_mg) (\<lambda>mg.
      andthen (clock R) (\<lambda>now.
        if create_succeeded_during (inst now) mg (r_creation_grace R) then
          andthen (emit False False reason_pending ''Waiting for external resource existence to be confirmed'') (\<lambda>_.
            stop (rate_limited_requeue, None))
        else ret ())))"

section \<open>Delete\<close>

definition delete_external ::
  "('w, 'p, 'c) reconciler \<Rightarrow> ('w, 'p) keyer option \<Rightarrow> 'p managed option \<Rightarrow> 'c \<Rightarrow> ('w, 'p, 'a) rpass" where
  "delete_external R k pristine c =
     andthen (gated R k pristine (ext XDelete (r_delete R c))) (\<lambda>e.
     andthen (record_op R OpDelete (e \<noteq> None)) (\<lambda>_.
       case e of
         Some e \<Rightarrow>
           andthen (emit True True reason_cannot_delete (err_msg e)) (\<lambda>_.
             conclude R [cond_deleting, cond_reconcile_error (err_msg (Wrapped err_delete e))]
               (no_result, wrap (Some e) err_delete))
       | None \<Rightarrow>
           andthen (emit False False reason_deleted ''Successfully requested deletion of external resource'') (\<lambda>_.
             conclude R [cond_deleting, cond_reconcile_success] (rate_limited_requeue, None))))"

definition check_deleted ::
  "('w, 'p, 'c) reconciler \<Rightarrow> ('w, 'p) keyer option \<Rightarrow> 'p managed option \<Rightarrow> observation \<Rightarrow> 'c
     \<Rightarrow> ('w, 'p, unit) rpass" where
  "check_deleted R k pristine ob c =
     andthen (asks rs_mg) (\<lambda>mg.
       if was_deleted mg then
         if ob_exists ob \<and> should_delete mg then delete_external R k pristine c else finalize R
       else ret ())"

section \<open>Create\<close>

definition ensure_finalizer :: "('w, 'p, 'c) reconciler \<Rightarrow> ('w, 'p, unit) rpass" where
  "ensure_finalizer R =
     andthen (api AddFinalizer (r_add_finalizer R)) (\<lambda>e.
     andthen (record_op R OpFinalizerAdd (e \<noteq> None)) (\<lambda>_.
       case e of
         Some e \<Rightarrow>
           if r_is_conflict R e then stop (rate_limited_requeue, None)
           else conclude R [cond_reconcile_error (err_msg e)] (no_result, wrap (Some e) err_create_incomplete)
       | None \<Rightarrow> ret ()))"

definition mark_pending :: "('w, 'p, 'c) reconciler \<Rightarrow> ('w, 'p, unit) rpass" where
  "mark_pending R =
     andthen (clock R) (\<lambda>t.
     andthen (edit_mg (\<lambda>mg. set_create_pending mg t)) (\<lambda>_.
     andthen (api UpdateManaged (r_update R)) (\<lambda>e.
       case e of
         Some e \<Rightarrow>
           if r_is_conflict R e then stop (rate_limited_requeue, None)
           else
             andthen (emit True True reason_cannot_update_managed (err_msg (Wrapped err_update_managed e))) (\<lambda>_.
               conclude R [cond_creating, cond_reconcile_error (err_msg (Wrapped err_update_managed e))]
                 (no_result, wrap (Some e) err_update_managed))
       | None \<Rightarrow> ret ())))"

definition create_failed :: "('w, 'p, 'c) reconciler \<Rightarrow> err \<Rightarrow> ('w, 'p, 'a) rpass" where
  "create_failed R e =
     andthen (clock R) (\<lambda>t.
     andthen (edit_mg (\<lambda>mg. set_create_failed mg t)) (\<lambda>_.
     andthen (api UpdateCritical (r_critical R)) (\<lambda>ue.
     andthen (case ue of
         Some ue \<Rightarrow> emit True True reason_cannot_update_managed (err_msg (Wrapped err_update_annotations ue))
       | None \<Rightarrow> ret ()) (\<lambda>_.
       if r_is_conflict R e then stop (rate_limited_requeue, None)
       else
         andthen (emit True True reason_cannot_create (err_msg e)) (\<lambda>_.
           conclude R [cond_creating, cond_reconcile_error (err_msg (Wrapped err_create e))]
             (no_result, wrap (Some e) err_create))))))"

definition create_succeeded :: "('w, 'p, 'c) reconciler \<Rightarrow> ('w, 'p, 'a) rpass" where
  "create_succeeded R =
     andthen (clock R) (\<lambda>t.
     andthen (edit_mg (\<lambda>mg. set_create_succeeded mg t)) (\<lambda>_.
     andthen (api UpdateCritical (r_critical R)) (\<lambda>e.
       case e of
         Some e \<Rightarrow>
           andthen (emit True True reason_cannot_update_managed (err_msg (Wrapped err_update_annotations e))) (\<lambda>_.
             conclude R [cond_creating, cond_reconcile_error (err_msg (Wrapped err_update_annotations e))]
               (no_result, wrap (Some e) err_update_annotations))
       | None \<Rightarrow>
           andthen (emit False False reason_created ''Successfully requested creation of external resource'') (\<lambda>_.
             conclude R [cond_creating, cond_reconcile_success] (rate_limited_requeue, None)))))"

text \<open>The gate is asked before the pending marker is written; the slot is held until \<open>Create\<close> returns.\<close>

definition create_external ::
  "('w, 'p, 'c) reconciler \<Rightarrow> ('w, 'p) keyer option \<Rightarrow> 'p managed option \<Rightarrow> 'c \<Rightarrow> ('w, 'p, 'a) rpass" where
  "create_external R k pristine c =
     andthen (gate R k) (\<lambda>d. case d of
       Some d \<Rightarrow> defer_reconcile R pristine d
     | None \<Rightarrow>
         andthen (mark_pending R) (\<lambda>_.
         andthen (ext XCreate (r_create R c)) (\<lambda>e.
         andthen (modify (release_slot R)) (\<lambda>_.
         andthen (record_op R OpCreate (e \<noteq> None)) (\<lambda>_.
           case e of Some e \<Rightarrow> create_failed R e | None \<Rightarrow> create_succeeded R)))))"

definition check_create ::
  "('w, 'p, 'c) reconciler \<Rightarrow> ('w, 'p) keyer option \<Rightarrow> 'p managed option \<Rightarrow> observation \<Rightarrow> 'c
     \<Rightarrow> ('w, 'p, unit) rpass" where
  "check_create R k pristine ob c =
     andthen (asks rs_mg) (\<lambda>mg.
       if \<not> ob_exists ob \<and> should_create mg then create_external R k pristine c else ret ())"

section \<open>Update\<close>

definition check_late_initialized ::
  "('w, 'p, 'c) reconciler \<Rightarrow> observation \<Rightarrow> ('w, 'p, unit) rpass" where
  "check_late_initialized R ob =
     (if \<not> ob_late_initialized ob then ret ()
      else andthen (api UpdateManaged (r_update R)) (\<lambda>e.
        case e of
          Some e \<Rightarrow>
            if r_is_conflict R e then stop (rate_limited_requeue, None)
            else
              andthen (emit True True reason_cannot_update_managed (err_msg e)) (\<lambda>_.
                conclude R [cond_reconcile_error (err_msg (Wrapped err_update_managed e))]
                  (no_result, wrap (Some e) err_update_managed))
        | None \<Rightarrow> ret ()))"

text \<open>\<open>r.pollIntervalHook(managed, r.pollInterval)\<close>, then success and the status write.\<close>

definition poll_interval :: "('w, 'p, 'c) reconciler \<Rightarrow> ('w, 'p, duration) rpass" where
  "poll_interval R s =
     (let (w, d) = r_poll_hook R (rs_mg s) (r_poll_interval R) (rs_world s) in (s\<lparr>rs_world := w\<rparr>, Inr d))"

definition settle :: "('w, 'p, 'c) reconciler \<Rightarrow> ('w, 'p, 'a) rpass" where
  "settle R =
     andthen (poll_interval R) (\<lambda>d. conclude R [cond_reconcile_success] (requeue_after d, None))"

definition check_settled ::
  "('w, 'p, 'c) reconciler \<Rightarrow> observation \<Rightarrow> ('w, 'p, unit) rpass" where
  "check_settled R ob =
     andthen (asks rs_mg) (\<lambda>mg.
       if ob_up_to_date ob then settle R
       else if \<not> should_update mg then settle R
       else ret ())"

definition update_external ::
  "('w, 'p, 'c) reconciler \<Rightarrow> ('w, 'p) keyer option \<Rightarrow> 'p managed option \<Rightarrow> 'c \<Rightarrow> ('w, 'p, 'a) rpass" where
  "update_external R k pristine c =
     andthen (gated R k pristine (ext XUpdate (r_ext_update R c))) (\<lambda>e.
     andthen (record_op R OpUpdate (e \<noteq> None)) (\<lambda>_.
       case e of
         Some e \<Rightarrow>
           andthen (emit True True reason_cannot_update (err_msg e)) (\<lambda>_.
             conclude R [cond_reconcile_error (err_msg (Wrapped err_update e))] (no_result, wrap (Some e) err_update))
       | None \<Rightarrow>
           andthen (poll_interval R) (\<lambda>d.
           andthen (emit False False reason_updated ''Successfully requested update of external resource'') (\<lambda>_.
             conclude R [cond_reconcile_success] (requeue_after d, None)))))"

section \<open>The pass\<close>

definition with_client ::
  "('w, 'p, 'c) reconciler \<Rightarrow> 'p managed option \<Rightarrow> bool \<Rightarrow> 'c \<Rightarrow> ('w, 'p, outcome) rpass" where
  "with_client R pristine unresolved c =
     (let k = (case r_client_keyer R c of None \<Rightarrow> r_keyer R | Some k \<Rightarrow> Some k)
      in andthen (observe_external R k pristine unresolved c) (\<lambda>ob.
         andthen check_ready_contract (\<lambda>_.
         andthen (resolve_handshake R unresolved ob) (\<lambda>_.
         andthen (check_observe_only R ob) (\<lambda>_.
         andthen (check_creation_grace R ob) (\<lambda>_.
         andthen (check_deleted R k pristine ob c) (\<lambda>_.
         andthen (ensure_finalizer R) (\<lambda>_.
         andthen (check_create R k pristine ob c) (\<lambda>_.
         andthen (check_late_initialized R ob) (\<lambda>_.
         andthen (check_settled R ob) (\<lambda>_.
           update_external R k pristine c)))))))))))"

definition disconnect :: "('w, 'p, 'c) reconciler \<Rightarrow> ('w, 'p) rstate \<Rightarrow> ('w, 'p) rstate" where
  "disconnect R s =
     (let (w, e) = r_disconnect R (rs_world s);
          s = log_ev (Disconnected e) (s\<lparr>rs_world := w\<rparr>)
      in case e of None \<Rightarrow> s
         | Some e \<Rightarrow> log_ev (Emitted True True reason_cannot_disconnect (err_msg e)) s)"

text \<open>
  The deferred releases of the client's gates run before \<open>Disconnect\<close>, the one of \<open>Connect\<close>'s
  gate after it; a slot that was released is not released again.
\<close>

definition pass :: "('w, 'p, 'c) reconciler \<Rightarrow> ('w, 'p, outcome) rpass" where
  "pass R =
     andthen (fetch R) (\<lambda>_.
     andthen (check_paused R) (\<lambda>_.
     andthen (check_orphaned R) (\<lambda>_.
     andthen (asks rs_mg) (\<lambda>mg.
       let unresolved = external_create_incomplete mg;
           pristine = (if r_governor R = None then None else Some mg)
       in finally_do
            (andthen (connect_client R pristine) (\<lambda>c.
               finally_do (with_client R pristine unresolved c) (\<lambda>s. disconnect R (release_slot R s))))
            (release_slot R)))))"

text \<open>The metrics around the pass, recorded by its deferred calls.\<close>

definition record_outcome :: "outcome \<Rightarrow> 'p ev list" where
  "record_outcome out =
     (if snd out \<noteq> None then [Metric ReconcileFailure, Metric ErrorRequeue]
      else Metric ReconcileSuccess #
        (if res_after (fst out) > 0 then [Metric AfterRequeue]
         else if is_rate_limited_requeue (fst out) then [Metric ImmediateRequeue] else []))"

definition reconcile ::
  "('w, 'p, 'c) reconciler \<Rightarrow> ('w, 'p) rstate \<Rightarrow> ('w, 'p) rstate \<times> outcome" where
  "reconcile R s =
     (let s = (if r_metrics R then log_ev (Metric (InFlight 1)) s else s);
          (s, x) = pass R s;
          out = (case x of Inl r \<Rightarrow> r | Inr r \<Rightarrow> r);
          s = (if r_metrics R
               then fold log_ev ([Metric ReconcileDuration] @ record_outcome out @ [Metric (InFlight (- 1))]) s
               else s)
      in (s, out))"

end
