(* ===== verification/Pass_Rules.thy ===== *)
theory Pass_Rules
  imports Reconcile
begin

text \<open>
  Rules that walk a reconcile pass: one per combinator and one per step, each leaving the state
  after the step explicit and what the world answered arbitrary.
\<close>

named_theorems walk "introduction rules that walk a pass"

section \<open>Combinators\<close>

lemma walk_ret [walk]: "Q a s \<Longrightarrow> wp (ret a) Q R s"
  by (simp add: wps)

lemma walk_stop [walk]: "R r s \<Longrightarrow> wp (stop r) Q R s"
  by (simp add: wps)

lemma walk_andthen [walk]: "wp m (\<lambda>a. wp (f a) Q R) R s \<Longrightarrow> wp (andthen m f) Q R s"
  by (simp add: wps)

lemma walk_modify [walk]: "Q () (f s) \<Longrightarrow> wp (modify f) Q R s"
  by (simp add: wps)

lemma walk_asks [walk]: "Q (f s) s \<Longrightarrow> wp (asks f) Q R s"
  by (simp add: wps)

lemma walk_if [walk]: "(b \<Longrightarrow> wp m Q R s) \<Longrightarrow> (\<not> b \<Longrightarrow> wp n Q R s) \<Longrightarrow> wp (if b then m else n) Q R s"
  by simp

lemma walk_option [walk]:
  "(x = None \<Longrightarrow> wp m Q R s) \<Longrightarrow> (\<And>a. x = Some a \<Longrightarrow> wp (f a) Q R s) \<Longrightarrow>
   wp (case x of None \<Rightarrow> m | Some a \<Rightarrow> f a) Q R s"
  by (cases x) simp_all

lemma walk_sum [walk]:
  "(\<And>a. x = Inl a \<Longrightarrow> wp (f a) Q R s) \<Longrightarrow> (\<And>b. x = Inr b \<Longrightarrow> wp (g b) Q R s) \<Longrightarrow>
   wp (case x of Inl a \<Rightarrow> f a | Inr b \<Rightarrow> g b) Q R s"
  by (cases x) simp_all

lemma walk_let [walk]: "wp (f x) Q R s \<Longrightarrow> wp (let y = x in f y) Q R s"
  by simp

lemma walk_finally:
  "wp m (\<lambda>a s. Q a (c s)) (\<lambda>r s. R r (c s)) s \<Longrightarrow> wp (finally_do m c) Q R s"
  by (simp add: wps)

section \<open>Steps\<close>

lemma log_ev_fields [simp]:
  "rs_trace (log_ev e s) = e # rs_trace s" "rs_mg (log_ev e s) = rs_mg s"
  "rs_slot (log_ev e s) = rs_slot s" "rs_world (log_ev e s) = rs_world s"
  "rs_key_errors (log_ev e s) = rs_key_errors s"
  by (simp_all add: log_ev_def)

lemma walk_emit [walk]: "Q () (log_ev (Emitted t wn reason msg) s) \<Longrightarrow> wp (emit t wn reason msg) Q R s"
  by (simp add: emit_def wps)

lemma walk_edit_mg [walk]: "Q () (s\<lparr>rs_mg := f (rs_mg s)\<rparr>) \<Longrightarrow> wp (edit_mg f) Q R s"
  by (simp add: edit_mg_def wps)

lemma walk_api [walk]:
  "(\<And>w mg e. f (rs_mg s) (rs_world s) = (w, mg, e) \<Longrightarrow>
      Q e (log_ev (ApiCall op (rs_mg s) mg e) (s\<lparr>rs_world := w, rs_mg := mg\<rparr>))) \<Longrightarrow>
   wp (api op f) Q R s"
  by (simp add: wp_def api_def split: prod.split)

lemma walk_ext [walk]:
  "(\<And>w mg e. f (rs_mg s) (rs_world s) = (w, mg, e) \<Longrightarrow>
      Q e (log_ev (ExtCall op (rs_mg s) mg e) (s\<lparr>rs_world := w, rs_mg := mg\<rparr>))) \<Longrightarrow>
   wp (ext op f) Q R s"
  by (simp add: wp_def ext_def split: prod.split)

definition conn_err :: "err + 'c \<Rightarrow> err option" where
  "conn_err x = (case x of Inl e \<Rightarrow> Some e | Inr _ \<Rightarrow> None)"

lemma conn_err_simps [simp]: "conn_err (Inl e) = Some e" "conn_err (Inr c) = None"
  by (simp_all add: conn_err_def)

lemma walk_connect [walk]:
  "(\<And>w mg x. r_connect R (rs_mg s) (rs_world s) = (w, mg, x) \<Longrightarrow>
      Q x (log_ev (Connected (rs_mg s) mg (conn_err x)) (s\<lparr>rs_world := w, rs_mg := mg\<rparr>))) \<Longrightarrow>
   wp (connect R) Q T s"
  by (simp add: wp_def connect_def conn_err_def split: prod.split)

lemma walk_observe [walk]:
  "(\<And>w mg x. r_observe R c (rs_mg s) (rs_world s) = (w, mg, x) \<Longrightarrow>
      Q x (log_ev (Observed (rs_mg s) mg x) (s\<lparr>rs_world := w, rs_mg := mg\<rparr>))) \<Longrightarrow>
   wp (observe R c) Q T s"
  by (simp add: wp_def observe_def split: prod.split)

lemma walk_clock [walk]:
  "(\<And>w t. r_now R (rs_world s) = (w, t) \<Longrightarrow> Q t (s\<lparr>rs_world := w\<rparr>)) \<Longrightarrow> wp (clock R) Q T s"
  by (simp add: wp_def clock_def split: prod.split)

lemma walk_poll_interval [walk]:
  "(\<And>w d. r_poll_hook R (rs_mg s) (r_poll_interval R) (rs_world s) = (w, d) \<Longrightarrow>
      Q d (s\<lparr>rs_world := w\<rparr>)) \<Longrightarrow> wp (poll_interval R) Q T s"
  by (simp add: wp_def poll_interval_def split: prod.split)

text \<open>What \<open>record_op\<close> appends.\<close>

definition op_metrics :: "('w, 'p, 'c) reconciler \<Rightarrow> metric_op \<Rightarrow> bool \<Rightarrow> 'p ev list" where
  "op_metrics R op failed =
     (if r_metrics R then (if failed then [Metric (Failure op)] else []) @ [Metric (Duration op)] else [])"

lemma walk_record_op [walk]:
  "Q () (s\<lparr>rs_trace := op_metrics R op failed @ rs_trace s\<rparr>) \<Longrightarrow> wp (record_op R op failed) Q T s"
  by (simp add: record_op_def op_metrics_def wps log_ev_def split: if_splits)

lemma wp_read_conditions:
  "(\<And>w ts. length ts = length cs \<Longrightarrow> Q (map2 (\<lambda>c t. c t) cs ts) (s\<lparr>rs_world := w\<rparr>)) \<Longrightarrow>
   wp (read_conditions R cs) Q T s"
proof (induction cs arbitrary: s Q)
  case Nil
  from Nil[of "[]" "rs_world s"] show ?case by (simp add: wps)
next
  case (Cons c cs)
  have "wp (read_conditions R cs) (\<lambda>cs'. Q (c t # cs')) T (s\<lparr>rs_world := w\<rparr>)" for w t
  proof (rule Cons.IH)
    fix w' :: 'a and ts :: "gotime list" assume "length ts = length cs"
    then show "Q (c t # map2 (\<lambda>c t. c t) cs ts) (s\<lparr>rs_world := w, rs_world := w'\<rparr>)"
      using Cons.prems[of "t # ts" w'] by simp
  qed
  then show ?case by (auto simp: wps intro!: walk_clock)
qed

lemma walk_set_conds [walk]:
  "(\<And>w ts. length ts = length cs \<Longrightarrow>
      Q () (s\<lparr>rs_world := w, rs_mg := put_conditions (map2 (\<lambda>c t. c t) cs ts) (rs_mg s)\<rparr>)) \<Longrightarrow>
   wp (set_conds R cs) Q T s"
  unfolding set_conds_def by (intro walk_andthen wp_read_conditions walk_modify) simp

lemma walk_write_status [walk]:
  assumes "\<And>w mg e s'. r_status_update R (rs_mg s) (rs_world s) = (w, mg, e) \<Longrightarrow>
      s' = s\<lparr>rs_world := w, rs_mg := mg, rs_trace := op_metrics R OpStatusUpdate (e \<noteq> None)
           @ ApiCall UpdateStatus (rs_mg s) mg e # rs_trace s\<rparr> \<Longrightarrow>
      T (case e of Some e \<Rightarrow> (no_result, wrap (Some e) err_update_status) | None \<Rightarrow> out) s'"
  shows "wp (write_status R out) Q T s"
  unfolding write_status_def status_update_def
  by (intro walk) (auto dest: assms simp: log_ev_def)

lemma walk_conclude [walk]:
  assumes "\<And>ts mg0 w mg e s'. length ts = length cs \<Longrightarrow>
      mg0 = put_conditions (map2 (\<lambda>c t. c t) cs ts) (rs_mg s) \<Longrightarrow>
      s' = s\<lparr>rs_world := w, rs_mg := mg, rs_trace := op_metrics R OpStatusUpdate (e \<noteq> None)
           @ ApiCall UpdateStatus mg0 mg e # rs_trace s\<rparr> \<Longrightarrow>
      T (case e of Some e \<Rightarrow> (no_result, wrap (Some e) err_update_status) | None \<Rightarrow> out) s'"
  shows "wp (conclude R cs out) Q T s"
  unfolding conclude_def
  by (intro walk_andthen walk_set_conds walk_write_status) (rule assms, assumption, rule refl, simp)

text \<open>
  The gate: without a slot, deferred, or granted one.  Only the world and the keyer's log change.
\<close>

lemma walk_gate [walk]:
  assumes ungated: "\<And>es. Q None (s\<lparr>rs_key_errors := es\<rparr>)"
    and granted: "\<And>w es ks. r_governor R \<noteq> None \<Longrightarrow>
      Q None (log_ev (Took ks) (s\<lparr>rs_key_errors := es, rs_world := w, rs_slot := Some ks\<rparr>))"
    and deferred: "\<And>getg putg w' ks t g d w es. r_governor R = Some (getg, putg) \<Longrightarrow>
      acquire_all (default_jitter (r_draw R w')) t ks (getg w') = (g, Some d) \<Longrightarrow>
      Q (Some d) (log_ev (Deferred d (rs_mg s)) (s\<lparr>rs_key_errors := es, rs_world := w\<rparr>))"
  shows "wp (gate R k) Q T s"
proof (cases "r_governor R")
  case None
  then show ?thesis using ungated[of "rs_key_errors s"] by (simp add: gate_def wps)
next
  case (Some lens)
  obtain getg putg where lens: "lens = (getg, putg)" by fastforce
  obtain es keys where ks: "rate_limit_keys k s = (s\<lparr>rs_key_errors := es\<rparr>, Inr keys)"
  proof -
    have "\<exists>es keys. rate_limit_keys k s = (s\<lparr>rs_key_errors := es\<rparr>, Inr keys)"
      by (auto simp: rate_limit_keys_def split: option.split sum.split)
        (metis rstate.surjective rstate.update_convs(4))
    then show ?thesis using that by blast
  qed
  let ?s = "s\<lparr>rs_key_errors := es\<rparr>"
  have acq: "wp (governed_acquire R getg putg keys) Q T ?s"
    using granted deferred[of getg putg] Some lens
    by (auto simp: wp_def governed_acquire_def Let_def log_ev_def split: prod.split option.split)
  have "wp (rate_limit_keys k) Q' T s" if "Q' keys ?s" for Q'
    using that by (simp add: wp_def ks)
  then show ?thesis
    unfolding gate_def Some option.case lens fst_conv snd_conv
    by (intro walk_andthen) (auto simp: wps acq ungated)
qed

lemma release_slot_None [simp]: "rs_slot s = None \<Longrightarrow> release_slot R s = s"
  by (simp add: release_slot_def split: option.split)

lemma release_slot_Some:
  "rs_slot s = Some ks \<Longrightarrow> r_governor R = Some (getg, putg) \<Longrightarrow>
   release_slot R s = log_ev (Gave ks)
     (s\<lparr>rs_world := putg (release ks (getg (rs_world s))) (rs_world s), rs_slot := None\<rparr>)"
  by (simp add: release_slot_def release_once_def)

end
