(* ===== verification/Protocol.thy ===== *)
theory Protocol
  imports Pass_Rules
begin

text \<open>
  The protocol a reconcile pass follows, as a predicate on its trace: what must have happened
  before each event.  \<open>valid\<close> asks it of every event; the theory proves it of every pass, whatever
  the API server, the provider, the clock and the governor answer.
\<close>

section \<open>Views of a trace\<close>

text \<open>All traces here are latest first, as a pass records them.\<close>

fun owed :: "'p ev list \<Rightarrow> ('p managed \<times> err option) option" where
  "owed [] = None"
| "owed (e # tr) =
     (case e of ExtCall op _ m r \<Rightarrow> (if op = XCreate then Some (m, r) else owed tr)
      | ApiCall _ _ _ _ \<Rightarrow> None | _ \<Rightarrow> owed tr)"

fun open_slot :: "'p ev list \<Rightarrow> slot" where
  "open_slot [] = None"
| "open_slot (e # tr) = (case e of Took ks \<Rightarrow> Some ks | Gave _ \<Rightarrow> None | _ \<Rightarrow> open_slot tr)"

fun last_deferral :: "'p ev list \<Rightarrow> (deferral \<times> 'p managed) option" where
  "last_deferral [] = None"
| "last_deferral (e # tr) = (case e of Deferred d m \<Rightarrow> Some (d, m) | _ \<Rightarrow> last_deferral tr)"

fun failed_read :: "'p ev list \<Rightarrow> err option" where
  "failed_read [] = None"
| "failed_read (e # tr) =
     (case e of Connected _ _ r \<Rightarrow> r
      | Observed _ _ x \<Rightarrow> (case x of Inl e \<Rightarrow> Some e | Inr _ \<Rightarrow> None)
      | _ \<Rightarrow> failed_read tr)"

fun last_api :: "'p ev list \<Rightarrow> (api_op \<times> 'p managed \<times> 'p managed \<times> err option) option" where
  "last_api [] = None"
| "last_api (e # tr) = (case e of ApiCall op b a r \<Rightarrow> Some (op, b, a, r) | _ \<Rightarrow> last_api tr)"

fun is_ext :: "'p ev \<Rightarrow> bool" where
  "is_ext (ExtCall _ _ _ _) = True"
| "is_ext _ = False"

fun is_observed :: "'p ev \<Rightarrow> bool" where
  "is_observed (Observed _ _ _) = True"
| "is_observed _ = False"

fun is_connected :: "'p ev \<Rightarrow> bool" where
  "is_connected (Connected _ _ r) = (r = None)"
| "is_connected _ = False"

fun is_read :: "(observation \<Rightarrow> bool) \<Rightarrow> 'p ev \<Rightarrow> bool" where
  "is_read P (Observed _ _ x) = (case x of Inl _ \<Rightarrow> False | Inr ob \<Rightarrow> P ob)"
| "is_read P _ = False"

text \<open>The finalizer was ensured on an object that was not being deleted.\<close>

fun is_finalized :: "('p managed \<Rightarrow> bool) \<Rightarrow> 'p ev \<Rightarrow> bool" where
  "is_finalized P (ApiCall op b m r) = (op = AddFinalizer \<and> r = None \<and> \<not> was_deleted b \<and> P m)"
| "is_finalized P _ = False"

definition no_ext :: "'p ev list \<Rightarrow> bool" where
  "no_ext tr \<longleftrightarrow> \<not> list_ex is_ext tr"

definition unread :: "'p ev list \<Rightarrow> bool" where
  "unread tr \<longleftrightarrow> \<not> list_ex is_observed tr"

fun neutral :: "'p ev \<Rightarrow> bool" where
  "neutral (Emitted _ _ _ _) = True"
| "neutral (Metric _) = True"
| "neutral (Disconnected _) = True"
| "neutral _ = False"

section \<open>What justifies an event\<close>

definition reason_of :: "'p managed \<Rightarrow> string \<Rightarrow> string" where
  "reason_of mg ct = c_reason (get_condition (mg_conditions mg) ct)"

text \<open>A status written after \<open>Connect\<close> or \<open>Observe\<close> failed.\<close>

definition told_failure :: "err \<Rightarrow> 'p managed \<Rightarrow> bool" where
  "told_failure e mg \<longleftrightarrow> reason_of mg type_synced = reason_reconcile_error
     \<and> (\<not> is_ready_assessed (Some e) \<longrightarrow>
          reason_of mg type_ready \<in> {reason_not_observed, reason_deleting})"

text \<open>A status written for a deferral, from the object \<open>m\<close> at the gate.\<close>

definition told_deferral :: "deferral \<Rightarrow> 'p managed \<Rightarrow> 'p managed \<Rightarrow> bool" where
  "told_deferral d m mg \<longleftrightarrow>
     (if d_reason d = DeferRamping then mg = m
      else (\<exists>t. mg = put_conditions [cond_reconcile_deferred (deferral_message d) t] m))"

definition ext_ok :: "ext_op \<Rightarrow> observation \<Rightarrow> 'p managed \<Rightarrow> 'p ev list \<Rightarrow> bool" where
  "ext_ok op ob m tr \<longleftrightarrow>
     (case op of
        XDelete \<Rightarrow> ob_exists ob \<and> was_deleted m \<and> should_delete m
      | XCreate \<Rightarrow> \<not> ob_exists ob
          \<and> list_ex (is_finalized (\<lambda>mf. should_create mf
              \<and> (\<exists>t. last_api tr = Some (UpdateManaged, set_create_pending mf t, m, None)))) tr
      | XUpdate \<Rightarrow> \<not> ob_up_to_date ob \<and> should_update m
          \<and> list_ex (is_finalized (\<lambda>mf. ob_exists ob \<or> \<not> should_create mf)) tr)"

fun justified :: "'p ev \<Rightarrow> 'p ev list \<Rightarrow> bool" where
  "justified (ApiCall op b a r) tr =
     ((case owed tr of None \<Rightarrow> True
       | Some (m, x) \<Rightarrow> op = UpdateCritical
           \<and> (\<exists>t. b = (if x = None then set_create_succeeded m t else set_create_failed m t)))
      \<and> (op = UpdateStatus \<longrightarrow> (case failed_read tr of None \<Rightarrow> True | Some e \<Rightarrow> told_failure e b))
      \<and> (case last_deferral tr of None \<Rightarrow> True
         | Some (d, m) \<Rightarrow> op = UpdateStatus \<and> told_deferral d m b))"
| "justified (Connected b a r) tr =
     (\<not> is_paused b \<and> \<not> (was_deleted b \<and> \<not> should_delete b) \<and> last_deferral tr = None
      \<and> no_ext tr \<and> unread tr)"
| "justified (Observed b a x) tr =
     (list_ex is_connected tr \<and> last_deferral tr = None
      \<and> no_ext tr \<and> unread tr)"
| "justified (ExtCall op m a r) tr =
     (last_deferral tr = None \<and> no_ext tr \<and> list_ex (is_read (\<lambda>ob. ext_ok op ob m tr)) tr)"
| "justified (Took ks) tr = (open_slot tr = None \<and> last_deferral tr = None)"
| "justified (Gave ks) tr = (open_slot tr = Some ks)"
| "justified (Deferred d m) tr = (open_slot tr = None \<and> last_deferral tr = None)"
| "justified _ tr = True"

fun valid :: "'p ev list \<Rightarrow> bool" where
  "valid [] = True"
| "valid (e # tr) = (justified e tr \<and> valid tr)"

section \<open>Events that change nothing\<close>

lemma neutral_views:
  assumes "neutral e"
  shows "owed (e # tr) = owed tr" "open_slot (e # tr) = open_slot tr"
    "last_deferral (e # tr) = last_deferral tr" "failed_read (e # tr) = failed_read tr"
    "last_api (e # tr) = last_api tr" "valid (e # tr) = valid tr"
    "\<not> is_ext e" "\<not> is_observed e" "\<not> is_connected e" "\<not> is_read P e" "\<not> is_finalized F e"
  using assms by (cases e; simp)+

lemma neutral_append:
  assumes "\<forall>e \<in> set new. neutral e"
  shows "owed (new @ tr) = owed tr" "open_slot (new @ tr) = open_slot tr"
    "last_deferral (new @ tr) = last_deferral tr" "failed_read (new @ tr) = failed_read tr"
    "last_api (new @ tr) = last_api tr" "valid (new @ tr) = valid tr"
    "no_ext (new @ tr) = no_ext tr" "unread (new @ tr) = unread tr"
    "list_ex is_connected (new @ tr) = list_ex is_connected tr"
    "list_ex (is_read P) (new @ tr) = list_ex (is_read P) tr"
    "list_ex (is_finalized F) (new @ tr) = list_ex (is_finalized F) tr"
  using assms by (induction new)
    (auto simp: neutral_views no_ext_def unread_def simp del: owed.simps(2) open_slot.simps(2)
      last_deferral.simps(2) failed_read.simps(2) last_api.simps(2) valid.simps(2))

lemma no_ext_simps [simp]: "no_ext []" "no_ext (e # tr) \<longleftrightarrow> \<not> is_ext e \<and> no_ext tr"
  by (simp_all add: no_ext_def)

lemma unread_simps [simp]: "unread []" "unread (e # tr) \<longleftrightarrow> \<not> is_observed e \<and> unread tr"
  by (simp_all add: unread_def)

lemma op_metrics_neutral: "\<forall>e \<in> set (op_metrics R op b). neutral e"
  by (auto simp: op_metrics_def)

lemmas metrics_views [simp] = neutral_append[OF op_metrics_neutral]

section \<open>The stages of a pass\<close>

definition inv :: "('w, 'p, 'c) reconciler \<Rightarrow> ('w, 'p) rstate \<Rightarrow> bool" where
  "inv R s \<longleftrightarrow> valid (rs_trace s) \<and> rs_slot s = open_slot (rs_trace s)
     \<and> (rs_slot s \<noteq> None \<longrightarrow> r_governor R \<noteq> None)"

definition calm :: "'p ev list \<Rightarrow> bool" where
  "calm tr \<longleftrightarrow> owed tr = None \<and> open_slot tr = None \<and> last_deferral tr = None
     \<and> failed_read tr = None \<and> no_ext tr"

definition stage :: "('w, 'p, 'c) reconciler \<Rightarrow> ('p managed \<Rightarrow> 'p ev list \<Rightarrow> bool) \<Rightarrow> ('w, 'p) rstate \<Rightarrow> bool" where
  "stage R P s \<longleftrightarrow> inv R s \<and> calm (rs_trace s) \<and> P (rs_mg s) (rs_trace s)"

definition ended :: "('w, 'p, 'c) reconciler \<Rightarrow> ('w, 'p) rstate \<Rightarrow> bool" where
  "ended R s \<longleftrightarrow> inv R s \<and> owed (rs_trace s) = None"

text \<open>At the end of a pass the outcome of Create is recorded and the slot given back.\<close>

definition closed :: "('w, 'p) rstate \<Rightarrow> bool" where
  "closed s \<longleftrightarrow> valid (rs_trace s) \<and> owed (rs_trace s) = None \<and> open_slot (rs_trace s) = None
     \<and> rs_slot s = None"

lemmas stage_defs = stage_def inv_def calm_def ended_def closed_def

lemma stageD:
  assumes "stage R P s"
  shows "inv R s" "calm (rs_trace s)" "P (rs_mg s) (rs_trace s)" "rs_slot s = None"
  using assms by (simp_all add: stage_defs)

end
