(* ===== verification/Pass_Safety.thy ===== *)
theory Pass_Safety
  imports Protocol
begin

text \<open>
  Every pass follows the protocol: one lemma per stretch of \<open>Reconcile\<close>, then the pass.
\<close>

section \<open>Ends of a pass\<close>

lemma conclude_calm:
  assumes "inv R s" "calm (rs_trace s)" "\<And>r s'. ended R s' \<Longrightarrow> closed s' \<Longrightarrow> T r s'"
  shows "wp (conclude R cs out) Q T s"
  by (rule walk_conclude, rule assms(3)) (use assms(1,2) in \<open>auto simp: stage_defs\<close>)

lemma write_status_deferred:
  assumes "inv R s" "owed (rs_trace s) = None" "failed_read (rs_trace s) = None"
    and "last_deferral (rs_trace s) = Some (d, m)" "told_deferral d m (rs_mg s)"
    and "\<And>r s'. ended R s' \<Longrightarrow> T r s'"
  shows "wp (write_status R out) Q T s"
  by (rule walk_write_status, rule assms(6)) (use assms(1-5) in \<open>auto simp: stage_defs\<close>)

lemma put_one_condition:
  "length ts = Suc 0 \<Longrightarrow> map2 (\<lambda>c t. c t) [c] ts = [c (hd ts)]"
  by (cases ts) auto

lemma defer_reconcile_ended:
  assumes "inv R s" "owed (rs_trace s) = None" "failed_read (rs_trace s) = None"
    and "last_deferral (rs_trace s) = Some (d, rs_mg s)"
    and "\<And>r s'. ended R s' \<Longrightarrow> T r s'"
  shows "wp (defer_reconcile R pristine d) Q T s"
  unfolding defer_reconcile_def
  apply (intro walk_if walk_andthen walk_asks walk_emit walk_ret walk_stop walk_set_conds assms(5)
      write_status_deferred[where d = d and m = "rs_mg s"])
  using assms(1-4)
  by (auto simp: stage_defs told_deferral_def put_one_condition)

section \<open>Gated calls\<close>

text \<open>
  From a calm state a gate either ends the pass with a deferral, or lets the call run with the
  object unchanged; the call's event is then justified by the stage, and the slot is given back.
\<close>

definition granted :: "('w, 'p, 'c) reconciler \<Rightarrow> ('w, 'p) rstate \<Rightarrow> ('w, 'p) rstate \<Rightarrow> bool" where
  "granted R s s' \<longleftrightarrow> inv R s' \<and> rs_mg s' = rs_mg s
     \<and> (rs_trace s' = rs_trace s \<or> (\<exists>ks. rs_trace s' = Took ks # rs_trace s))"

lemma gate_calm:
  assumes "inv R s" "calm (rs_trace s)"
    and "\<And>s'. granted R s s' \<Longrightarrow> Q None s'"
    and "\<And>d s'. inv R s' \<Longrightarrow> rs_mg s' = rs_mg s \<Longrightarrow> rs_trace s' = Deferred d (rs_mg s) # rs_trace s
           \<Longrightarrow> Q (Some d) s'"
  shows "wp (gate R k) Q T s"
  by (rule walk_gate; (rule assms(3) | rule assms(4)))
    (use assms(1,2) in \<open>auto simp: stage_defs granted_def\<close>)

lemma gated_calm:
  assumes "inv R s" "calm (rs_trace s)"
    and call: "\<And>s'. granted R s s' \<Longrightarrow>
      wp call (\<lambda>x s''. inv R s'' \<and> Q x (release_slot R s'')) T s'"
    and ended: "\<And>r s'. ended R s' \<Longrightarrow> T r s'"
  shows "wp (gated R k pristine call) Q T s"
  unfolding gated_def
proof (intro walk_andthen gate_calm[OF assms(1,2)])
  fix s' assume "granted R s s'"
  from call[OF this] have "wp call (\<lambda>x s''. Q x (release_slot R s'')) T s'"
    by (rule wp_mono) auto
  then have "wp call (\<lambda>a. wp (andthen (modify (release_slot R)) (\<lambda>_. ret a)) Q T) T s'"
    by (rule wp_mono) (auto simp: wps)
  then show "wp (case None of None \<Rightarrow> andthen call (\<lambda>x. andthen (modify (release_slot R)) (\<lambda>_. ret x))
      | Some d \<Rightarrow> defer_reconcile R pristine d) Q T s'" by (simp add: wps)
next
  fix d s' assume "inv R s'" "rs_mg s' = rs_mg s" "rs_trace s' = Deferred d (rs_mg s) # rs_trace s"
  then show "wp (case Some d of None \<Rightarrow> andthen call (\<lambda>x. andthen (modify (release_slot R)) (\<lambda>_. ret x))
      | Some d \<Rightarrow> defer_reconcile R pristine d) Q T s'"
    using assms(2) ended by (auto simp: calm_def intro!: defer_reconcile_ended)
qed

text \<open>After the call the slot is given back: the views of the trace are those of the call.\<close>

lemma release_views:
  assumes "inv R s"
  shows "inv R (release_slot R s)" "rs_slot (release_slot R s) = None"
    "open_slot (rs_trace (release_slot R s)) = None"
    "rs_mg (release_slot R s) = rs_mg s"
    "owed (rs_trace (release_slot R s)) = owed (rs_trace s)"
    "last_deferral (rs_trace (release_slot R s)) = last_deferral (rs_trace s)"
    "failed_read (rs_trace (release_slot R s)) = failed_read (rs_trace s)"
    "last_api (rs_trace (release_slot R s)) = last_api (rs_trace s)"
    "rs_trace (release_slot R s) = rs_trace s \<or> (\<exists>ks. rs_trace (release_slot R s) = Gave ks # rs_trace s)"
proof -
  have "rs_slot s = None \<or> (\<exists>ks getg putg. rs_slot s = Some ks \<and> r_governor R = Some (getg, putg))"
    using assms by (auto simp: inv_def)
  then show "inv R (release_slot R s)" "rs_slot (release_slot R s) = None"
    "open_slot (rs_trace (release_slot R s)) = None"
    "rs_mg (release_slot R s) = rs_mg s"
    "owed (rs_trace (release_slot R s)) = owed (rs_trace s)"
    "last_deferral (rs_trace (release_slot R s)) = last_deferral (rs_trace s)"
    "failed_read (rs_trace (release_slot R s)) = failed_read (rs_trace s)"
    "last_api (rs_trace (release_slot R s)) = last_api (rs_trace s)"
    "rs_trace (release_slot R s) = rs_trace s \<or> (\<exists>ks. rs_trace (release_slot R s) = Gave ks # rs_trace s)"
    using assms by (auto simp: inv_def release_slot_Some)
qed

section \<open>Failures of Connect and Observe\<close>

lemma reason_of_put [simp]:
  "reason_of (put_conditions [c] mg) ct = (if ct = c_type c then c_reason c else reason_of mg ct)"
  by (auto simp: reason_of_def put_conditions_def set_conditions_def get_set_condition condition_equal_def)

lemma ready_not_synced [simp]: "type_ready \<noteq> type_synced" "type_synced \<noteq> type_ready"
  by (simp_all add: condition_consts)

lemma ctor_fields [simp]:
  "c_type (cond_reconcile_error m t) = type_synced" "c_reason (cond_reconcile_error m t) = reason_reconcile_error"
  "c_type (cond_deleting t) = type_ready" "c_reason (cond_deleting t) = reason_deleting"
  "c_type (cond_not_observed t) = type_ready" "c_reason (cond_not_observed t) = reason_not_observed"
  "c_type (cond_reconcile_deferred m t) = type_synced"
  "c_reason (cond_reconcile_deferred m t) = reason_reconcile_deferred"
  by (simp_all add: condition_ctor_defs)

lemma mark_not_observed_marks:
  assumes "\<And>w mg. (\<not> is_ready_assessed (Some e) \<Longrightarrow>
      reason_of mg type_ready \<in> {reason_not_observed, reason_deleting}) \<Longrightarrow>
      Q () (s\<lparr>rs_world := w, rs_mg := mg\<rparr>)"
  shows "wp (mark_not_observed R e) Q T s"
proof -
  have "Q () s" if "is_ready_assessed (Some e)"
    using assms[of "rs_mg s" "rs_world s"] that by simp
  then show ?thesis unfolding mark_not_observed_def
    by (intro walk_if walk_andthen walk_asks walk_ret walk_set_conds assms)
      (auto simp: put_one_condition)
qed

lemma conclude_failed:
  assumes "inv R s" "owed (rs_trace s) = None" "last_deferral (rs_trace s) = None"
    and "failed_read (rs_trace s) = Some e"
    and "\<not> is_ready_assessed (Some e) \<Longrightarrow> reason_of (rs_mg s) type_ready \<in> {reason_not_observed, reason_deleting}"
    and "\<And>r s'. ended R s' \<Longrightarrow> T r s'"
  shows "wp (conclude R [cond_reconcile_error m] out) Q T s"
  by (rule walk_conclude, rule assms(6))
    (use assms(1-5) in \<open>auto simp: stage_defs told_failure_def put_one_condition\<close>)

text \<open>What a failed call of \<open>Connect\<close> or \<open>Observe\<close> leaves behind.\<close>

definition failed_with :: "('w, 'p, 'c) reconciler \<Rightarrow> err \<Rightarrow> ('w, 'p) rstate \<Rightarrow> bool" where
  "failed_with R e s \<longleftrightarrow> inv R s \<and> owed (rs_trace s) = None \<and> last_deferral (rs_trace s) = None
     \<and> failed_read (rs_trace s) = Some e"

lemma report_failure:
  assumes "failed_with R e s" "\<And>r s'. ended R s' \<Longrightarrow> T r s'"
  shows "wp (andthen (mark_not_observed R e) (\<lambda>_. conclude R [cond_reconcile_error m] out)) Q T s"
  using assms(1) unfolding failed_with_def
  by (intro walk_andthen mark_not_observed_marks conclude_failed[OF _ _ _ _ _ assms(2)])
    (auto simp: inv_def)

lemma failed_with_ended: "failed_with R e s \<Longrightarrow> ended R s"
  by (simp add: failed_with_def ended_def)

lemma failed_with_trace:
  "failed_with R e s \<Longrightarrow> failed_with R e (s\<lparr>rs_trace := op_metrics R op b @ rs_trace s\<rparr>)"
  "failed_with R e s \<Longrightarrow> failed_with R e (log_ev (Emitted t wn r m) s)"
  by (simp_all add: failed_with_def inv_def)

section \<open>The stretches before Connect\<close>

lemma stage_weaken:
  "stage R P s \<Longrightarrow> (\<And>mg tr. P mg tr \<Longrightarrow> P' mg tr) \<Longrightarrow> stage R P' s"
  by (simp add: stage_def)

lemma fetch_stage:
  assumes "stage R (\<lambda>_ tr. unread tr) s"
    and "\<And>s'. stage R (\<lambda>_ tr. unread tr) s' \<Longrightarrow> Q () s'" "\<And>r s'. ended R s' \<Longrightarrow> closed s' \<Longrightarrow> T r s'"
  shows "wp (fetch R) Q T s"
  unfolding fetch_def
  by (intro walk_andthen walk_modify walk_api walk_record_op walk_option walk_stop walk_ret assms(2,3))
    (use assms(1) in \<open>auto simp: stage_defs\<close>)

lemma check_paused_stage:
  assumes "stage R (\<lambda>_ tr. unread tr) s"
    and "\<And>s'. stage R (\<lambda>mg tr. unread tr \<and> \<not> is_paused mg) s' \<Longrightarrow> Q () s'"
    and "\<And>r s'. ended R s' \<Longrightarrow> closed s' \<Longrightarrow> T r s'"
  shows "wp (check_paused R) Q T s"
  unfolding check_paused_def
  by (intro walk_andthen walk_asks walk_if walk_emit walk_ret conclude_calm[OF _ _ assms(3)] assms(2))
    (use assms(1) in \<open>auto simp: stage_defs\<close>)

lemma finalize_ended:
  assumes "inv R s" "calm (rs_trace s)" "\<And>r s'. ended R s' \<Longrightarrow> closed s' \<Longrightarrow> T r s'"
  shows "wp (finalize R) Q T s"
  unfolding finalize_def
  by (intro walk_andthen walk_api walk_record_op walk_option walk_if walk_stop conclude_calm assms(3))
    (use assms(1,2) in \<open>auto simp: stage_defs\<close>)

lemma check_orphaned_stage:
  assumes "stage R (\<lambda>mg tr. unread tr \<and> \<not> is_paused mg) s"
    and "\<And>s'. stage R (\<lambda>mg tr. unread tr \<and> \<not> is_paused mg
        \<and> \<not> (was_deleted mg \<and> \<not> should_delete mg)) s' \<Longrightarrow> Q () s'"
    and "\<And>r s'. ended R s' \<Longrightarrow> closed s' \<Longrightarrow> T r s'"
  shows "wp (check_orphaned R) Q T s"
  unfolding check_orphaned_def
  by (intro walk_andthen walk_asks walk_if walk_ret finalize_ended assms(2,3))
    (use assms(1) in \<open>auto simp: stage_defs\<close>)

section \<open>Connect and Observe\<close>

abbreviation connected :: "'p ev list \<Rightarrow> bool" where
  "connected tr \<equiv> list_ex is_connected tr"

lemma gated_connect:
  fixes R :: "('w, 'p, 'c) reconciler"
  assumes st: "stage R (\<lambda>mg tr. unread tr \<and> \<not> is_paused mg \<and> \<not> (was_deleted mg \<and> \<not> should_delete mg)) s"
    and Q: "\<And>e s'. failed_with R e s' \<Longrightarrow> Q (Inl e) s'"
      "\<And>c s'. stage R (\<lambda>_ tr. unread tr \<and> connected tr) s' \<Longrightarrow> Q (Inr c) s'"
    and T: "\<And>r s'. ended R s' \<Longrightarrow> T r s'"
  shows "wp (gated R k pristine (connect R)) Q T s"
proof (rule gated_calm[OF stageD(1,2)[OF st] _ T])
  fix s' assume g: "granted R s s'"
  show "wp (connect R) (\<lambda>x s''. inv R s'' \<and> Q x (release_slot R s'')) T s'"
  proof (rule walk_connect)
    fix w mg and x :: "err + 'c"
    let ?s = "log_ev (Connected (rs_mg s') mg (conn_err x)) (s'\<lparr>rs_world := w, rs_mg := mg\<rparr>)"
    have i: "inv R ?s" using g st by (auto simp: stage_defs granted_def)
    note rv = release_views[OF i]
    have "Q x (release_slot R ?s)"
    proof (cases x)
      case (Inl e)
      have "failed_with R e (release_slot R ?s)"
        using Inl g st rv by (auto simp: failed_with_def stage_defs granted_def)
      then show ?thesis using Q(1) Inl by simp
    next
      case (Inr c)
      have "stage R (\<lambda>_ tr. unread tr \<and> connected tr) (release_slot R ?s)"
        using Inr g st rv(1,3,5-7,9) by (auto simp: stage_def calm_def granted_def)
      then show ?thesis using Q(2) Inr by simp
    qed
    with i show "inv R ?s \<and> Q x (release_slot R ?s)" by blast
  qed
qed

lemma stage_trace:
  assumes "stage R P s" "\<And>mg tr new. P mg tr \<Longrightarrow> \<forall>e \<in> set new. neutral e \<Longrightarrow> P mg (new @ tr)"
  shows "stage R P (s\<lparr>rs_trace := op_metrics R op b @ rs_trace s\<rparr>)"
    "stage R P (log_ev (Emitted t wn r m) s)"
  using assms(1) assms(2)[of _ _ "op_metrics R op b", OF _ op_metrics_neutral]
    assms(2)[of _ _ "[Emitted t wn r m]"]
  by (auto simp: stage_defs)

lemma failure_end:
  assumes "failed_with R e s" "\<And>r s'. ended R s' \<Longrightarrow> T r s'"
  shows "wp (if r_is_conflict R e then stop out else andthen (emit t wn reason msg) (\<lambda>_.
      andthen (mark_not_observed R e) (\<lambda>_. conclude R [cond_reconcile_error m] out'))) Q T s"
  by (auto simp: wps intro!: walk_if walk_stop assms(2) failed_with_ended[OF assms(1)]
      walk_andthen[of "emit _ _ _ _"] walk_emit
      report_failure[OF failed_with_trace(2)[OF assms(1)] assms(2)])

lemma connect_client_stage:
  assumes "stage R (\<lambda>mg tr. unread tr \<and> \<not> is_paused mg \<and> \<not> (was_deleted mg \<and> \<not> should_delete mg)) s"
    and "\<And>c s'. stage R (\<lambda>_ tr. unread tr \<and> connected tr) s' \<Longrightarrow> Q c s'"
    and "\<And>r s'. ended R s' \<Longrightarrow> T r s'"
  shows "wp (connect_client R pristine) Q T s"
  unfolding connect_client_def
  apply (intro walk_andthen gated_connect[OF assms(1)] walk_record_op; (erule assms(3))?;
      simp only: sum.case)
   apply (rule failure_end, erule failed_with_trace(1), erule assms(3))
  apply (intro walk_ret assms(2) stage_trace, assumption)
  by (simp add: neutral_append)

text \<open>\<open>read ob tr\<close>: the pass observed \<open>ob\<close>.\<close>

abbreviation read :: "observation \<Rightarrow> 'p ev list \<Rightarrow> bool" where
  "read ob tr \<equiv> list_ex (is_read (\<lambda>x. x = ob)) tr"

lemma gated_observe:
  fixes R :: "('w, 'p, 'c) reconciler"
  assumes st: "stage R (\<lambda>_ tr. unread tr \<and> connected tr) s"
    and Q: "\<And>e s'. failed_with R e s' \<Longrightarrow> Q (Inl e) s'"
      "\<And>ob s'. stage R (\<lambda>_ tr. read ob tr) s' \<Longrightarrow> Q (Inr ob) s'"
    and T: "\<And>r s'. ended R s' \<Longrightarrow> T r s'"
  shows "wp (gated R k pristine (observe R c)) Q T s"
proof (rule gated_calm[OF stageD(1,2)[OF st] _ T])
  fix s' assume g: "granted R s s'"
  show "wp (observe R c) (\<lambda>x s''. inv R s'' \<and> Q x (release_slot R s'')) T s'"
  proof (rule walk_observe)
    fix w mg x
    let ?s = "log_ev (Observed (rs_mg s') mg x) (s'\<lparr>rs_world := w, rs_mg := mg\<rparr>)"
    have i: "inv R ?s" using g st by (auto simp: stage_defs granted_def)
    note rv = release_views[OF i]
    have "Q x (release_slot R ?s)"
    proof (cases x)
      case (Inl e)
      have "failed_with R e (release_slot R ?s)"
        using Inl g st rv by (auto simp: failed_with_def stage_defs granted_def)
      then show ?thesis using Q(1) Inl by simp
    next
      case (Inr ob)
      have "stage R (\<lambda>_ tr. read ob tr) (release_slot R ?s)"
        using Inr g st rv(1,3,5-7,9) by (auto simp: stage_def calm_def granted_def)
      then show ?thesis using Q(2) Inr by simp
    qed
    with i show "inv R ?s \<and> Q x (release_slot R ?s)" by blast
  qed
qed

lemma failure_end_observe:
  assumes "failed_with R e s" "\<And>r s'. ended R s' \<Longrightarrow> T r s'"
  shows "wp (if r_is_conflict R e then stop out else andthen (emit t wn reason msg) (\<lambda>_.
      andthen (asks rs_mg) (\<lambda>mg. let werr = f mg; werr = g mg werr in
      andthen (mark_not_observed R e) (\<lambda>_. conclude R [cond_reconcile_error (err_msg werr)] (no_result, Some werr))))) Q T s"
  unfolding Let_def
  by (intro walk_if walk_stop assms(2) failed_with_ended[OF assms(1)]
      walk_andthen[of "emit _ _ _ _"] walk_andthen[of "asks _"] walk_asks walk_emit
      report_failure[OF failed_with_trace(2)[OF assms(1)] assms(2)])

lemma observe_external_stage:
  assumes "stage R (\<lambda>_ tr. unread tr \<and> connected tr) s"
    and "\<And>ob s'. stage R (\<lambda>_ tr. read ob tr) s' \<Longrightarrow> Q ob s'"
    and "\<And>r s'. ended R s' \<Longrightarrow> T r s'"
  shows "wp (observe_external R k pristine unresolved c) Q T s"
  unfolding observe_external_def
  apply (intro walk_andthen gated_observe[OF assms(1)] walk_record_op; (erule assms(3))?;
      simp only: sum.case)
   apply (rule failure_end_observe, erule failed_with_trace(1), erule assms(3))
  apply (intro walk_ret assms(2) stage_trace, assumption)
  by (simp add: neutral_append)

section \<open>Between Observe and the external calls\<close>

lemma check_ready_contract_stage:
  assumes "stage R (\<lambda>_ tr. read ob tr) s" "\<And>s'. stage R (\<lambda>_ tr. read ob tr) s' \<Longrightarrow> Q () s'"
  shows "wp check_ready_contract Q T s"
  unfolding check_ready_contract_def
  by (intro walk_andthen walk_asks walk_if walk_emit walk_ret assms(2))
    (use assms(1) in \<open>auto simp: stage_defs\<close>)

lemma resolve_handshake_stage:
  assumes "stage R (\<lambda>_ tr. read ob tr) s" "\<And>s'. stage R (\<lambda>_ tr. read ob tr) s' \<Longrightarrow> Q () s'"
    and "\<And>r s'. ended R s' \<Longrightarrow> T r s'"
  shows "wp (resolve_handshake R unresolved ob) Q T s"
  unfolding resolve_handshake_def annotations_failed_def
  by (intro walk_andthen walk_asks walk_if walk_emit walk_ret walk_clock walk_edit_mg walk_api walk_option
      walk_stop conclude_calm[OF _ _ assms(3)] assms(2,3))
    (use assms(1) in \<open>auto simp: stage_defs\<close>)

lemma check_observe_only_stage:
  assumes "stage R (\<lambda>_ tr. read ob tr) s" "\<And>s'. stage R (\<lambda>_ tr. read ob tr) s' \<Longrightarrow> Q () s'"
    and "\<And>r s'. ended R s' \<Longrightarrow> T r s'"
  shows "wp (check_observe_only R ob) Q T s"
  unfolding check_observe_only_def
  by (intro walk_andthen walk_asks walk_if walk_emit walk_ret conclude_calm[OF _ _ assms(3)] assms(2))
    (use assms(1) in \<open>auto simp: stage_defs\<close>)

lemma check_creation_grace_stage:
  assumes "stage R (\<lambda>_ tr. read ob tr) s" "\<And>s'. stage R (\<lambda>_ tr. read ob tr) s' \<Longrightarrow> Q () s'"
    and "\<And>r s'. ended R s' \<Longrightarrow> T r s'"
  shows "wp (check_creation_grace R ob) Q T s"
  unfolding check_creation_grace_def
  by (intro walk_andthen walk_asks walk_if walk_emit walk_ret walk_clock walk_stop assms(2,3))
    (use assms(1) in \<open>auto simp: stage_defs\<close>)

section \<open>External calls\<close>

text \<open>After an external call other than Create nothing is owed.\<close>

definition called :: "('w, 'p, 'c) reconciler \<Rightarrow> ('w, 'p) rstate \<Rightarrow> bool" where
  "called R s \<longleftrightarrow> inv R s \<and> owed (rs_trace s) = None \<and> last_deferral (rs_trace s) = None
     \<and> failed_read (rs_trace s) = None"

lemma is_read_mono: "(\<And>ob. P ob \<Longrightarrow> P' ob) \<Longrightarrow> list_ex (is_read P) tr \<Longrightarrow> list_ex (is_read P') tr"
  by (induction tr) (auto elim!: is_read.elims split: sum.splits)

lemma conclude_called:
  assumes "called R s" "\<And>r s'. ended R s' \<Longrightarrow> T r s'"
  shows "wp (conclude R cs out) Q T s"
  by (rule walk_conclude, rule assms(2)) (use assms(1) in \<open>auto simp: stage_defs called_def\<close>)

lemma called_trace:
  "called R s \<Longrightarrow> called R (s\<lparr>rs_trace := op_metrics R op b @ rs_trace s\<rparr>)"
  "called R s \<Longrightarrow> called R (log_ev (Emitted t wn r m) s)"
  "called R s \<Longrightarrow> called R (s\<lparr>rs_world := w\<rparr>)"
  by (simp_all add: called_def inv_def)

lemma gated_ext:
  fixes R :: "('w, 'p, 'c) reconciler"
  assumes inv: "inv R s" and calm: "calm (rs_trace s)" and op: "op \<noteq> XCreate"
    and ok: "\<And>tr. tr = rs_trace s \<or> (\<exists>ks. tr = Took ks # rs_trace s) \<Longrightarrow>
      list_ex (is_read (\<lambda>ob. ext_ok op ob (rs_mg s) tr)) tr"
    and Q: "\<And>e s'. called R s' \<Longrightarrow> Q e s'"
    and T: "\<And>r s'. ended R s' \<Longrightarrow> T r s'"
  shows "wp (gated R k pristine (ext op f)) Q T s"
proof (rule gated_calm[OF inv calm _ T])
  fix s' assume g: "granted R s s'"
  show "wp (ext op f) (\<lambda>x s''. inv R s'' \<and> Q x (release_slot R s'')) T s'"
  proof (rule walk_ext)
    fix w mg e
    let ?s = "log_ev (ExtCall op (rs_mg s') mg e) (s'\<lparr>rs_world := w, rs_mg := mg\<rparr>)"
    have mg: "rs_mg s' = rs_mg s" using g by (simp add: granted_def)
    have tr: "rs_trace s' = rs_trace s \<or> (\<exists>ks. rs_trace s' = Took ks # rs_trace s)"
      using g by (simp add: granted_def)
    have i: "inv R ?s" using g calm ok[OF tr] by (auto simp: stage_defs granted_def)
    have "called R (release_slot R ?s)"
      using release_views[OF i] tr calm op by (auto simp: called_def calm_def)
    with i Q show "inv R ?s \<and> Q e (release_slot R ?s)" by blast
  qed
qed

lemma ended_called: "called R s \<Longrightarrow> ended R s"
  by (simp add: called_def ended_def)

lemma delete_external_ended:
  assumes "stage R (\<lambda>mg tr. read ob tr \<and> ob_exists ob \<and> was_deleted mg \<and> should_delete mg) s"
    and "\<And>r s'. ended R s' \<Longrightarrow> T r s'"
  shows "wp (delete_external R k pristine c) Q T s"
  unfolding delete_external_def
  apply (intro walk_andthen gated_ext walk_record_op walk_option walk_emit
      conclude_called[OF _ assms(2)] called_trace assms(2))
  using assms(1)
  by (auto simp: stage_def ext_ok_def elim!: is_read_mono[rotated])

lemma check_deleted_stage:
  assumes "stage R (\<lambda>_ tr. read ob tr) s"
    and "\<And>s'. stage R (\<lambda>mg tr. read ob tr \<and> \<not> was_deleted mg) s' \<Longrightarrow> Q () s'"
    and "\<And>r s'. ended R s' \<Longrightarrow> T r s'"
  shows "wp (check_deleted R k pristine ob c) Q T s"
  unfolding check_deleted_def
  by (intro walk_andthen walk_asks walk_if walk_ret delete_external_ended[where ob = ob]
      finalize_ended assms(2,3))
    (use assms(1) in \<open>auto simp: stage_defs\<close>)

section \<open>Create\<close>

abbreviation finalized :: "('p managed \<Rightarrow> bool) \<Rightarrow> 'p ev list \<Rightarrow> bool" where
  "finalized P tr \<equiv> list_ex (is_finalized P) tr"

lemma is_finalized_mono: "(\<And>m. P m \<Longrightarrow> P' m) \<Longrightarrow> finalized P tr \<Longrightarrow> finalized P' tr"
  by (induction tr) (auto elim!: is_finalized.elims)

lemma ensure_finalizer_stage:
  assumes "stage R (\<lambda>mg tr. read ob tr \<and> \<not> was_deleted mg) s"
    and "\<And>s'. stage R (\<lambda>mg tr. read ob tr \<and> finalized (\<lambda>m. m = mg) tr) s' \<Longrightarrow> Q () s'"
    and "\<And>r s'. ended R s' \<Longrightarrow> T r s'"
  shows "wp (ensure_finalizer R) Q T s"
  unfolding ensure_finalizer_def
  by (intro walk_andthen walk_api walk_record_op walk_option walk_if walk_stop walk_ret
      conclude_calm[OF _ _ assms(3)] assms(2,3))
    (use assms(1) in \<open>auto simp: stage_defs\<close>)

text \<open>Between the gate and the call of Create the slot may be open.\<close>

definition creating :: "('w, 'p, 'c) reconciler \<Rightarrow> observation \<Rightarrow> ('p managed \<Rightarrow> 'p ev list \<Rightarrow> bool)
     \<Rightarrow> ('w, 'p) rstate \<Rightarrow> bool" where
  "creating R ob P s \<longleftrightarrow> called R s \<and> no_ext (rs_trace s) \<and> read ob (rs_trace s)
     \<and> \<not> ob_exists ob \<and> P (rs_mg s) (rs_trace s)"

abbreviation marked_pending :: "'p managed \<Rightarrow> 'p ev list \<Rightarrow> bool" where
  "marked_pending mg tr \<equiv> finalized (\<lambda>mf. should_create mf
     \<and> (\<exists>t. last_api tr = Some (UpdateManaged, set_create_pending mf t, mg, None))) tr"

lemma mark_pending_creating:
  assumes "creating R ob (\<lambda>mg tr. should_create mg \<and> finalized (\<lambda>m. m = mg) tr) s"
    and "\<And>s'. creating R ob marked_pending s' \<Longrightarrow> Q () s'"
    and "\<And>r s'. ended R s' \<Longrightarrow> T r s'"
  shows "wp (mark_pending R) Q T s"
  unfolding mark_pending_def
  apply (intro walk_andthen walk_clock walk_edit_mg walk_api walk_option walk_if walk_emit walk_stop walk_ret
      conclude_called[OF _ assms(3)] assms(2,3))
  using assms(1)
  by (auto simp: creating_def called_def ended_def inv_def elim!: is_finalized_mono[rotated])

text \<open>After Create its outcome is owed to the API server.\<close>

definition owing :: "('w, 'p, 'c) reconciler \<Rightarrow> err option \<Rightarrow> ('w, 'p) rstate \<Rightarrow> bool" where
  "owing R e s \<longleftrightarrow> inv R s \<and> owed (rs_trace s) = Some (rs_mg s, e)
     \<and> last_deferral (rs_trace s) = None \<and> failed_read (rs_trace s) = None"

lemma call_create:
  assumes "creating R ob marked_pending s" "\<And>e s'. owing R e s' \<Longrightarrow> Q e s'"
  shows "wp (ext XCreate f) Q T s"
proof (rule walk_ext)
  fix w mg e
  have "list_ex (is_read (\<lambda>ob. ext_ok XCreate ob (rs_mg s) (rs_trace s))) (rs_trace s)"
    using assms(1) by (auto simp: creating_def ext_ok_def elim!: is_read_mono[rotated])
  then show "Q e (log_ev (ExtCall XCreate (rs_mg s) mg e) (s\<lparr>rs_world := w, rs_mg := mg\<rparr>))"
    using assms by (auto simp: creating_def called_def owing_def inv_def)
qed

lemma owing_release: "owing R e s \<Longrightarrow> owing R e (release_slot R s)"
  by (simp add: owing_def release_views)

lemma owing_trace: "owing R e s \<Longrightarrow> owing R e (s\<lparr>rs_trace := op_metrics R op b @ rs_trace s\<rparr>)"
  by (simp add: owing_def inv_def)

lemma create_failed_ended:
  assumes "owing R (Some e) s" "\<And>r s'. ended R s' \<Longrightarrow> T r s'"
  shows "wp (create_failed R e) Q T s"
  unfolding create_failed_def
  apply (intro walk_andthen walk_clock walk_edit_mg walk_api walk_option walk_if walk_emit walk_stop walk_ret
      conclude_called[OF _ assms(2)] assms(2))
  using assms(1)
  by (auto simp: owing_def called_def ended_def inv_def)

lemma create_succeeded_ended:
  assumes "owing R None s" "\<And>r s'. ended R s' \<Longrightarrow> T r s'"
  shows "wp (create_succeeded R) Q T s"
  unfolding create_succeeded_def
  apply (intro walk_andthen walk_clock walk_edit_mg walk_api walk_option walk_if walk_emit walk_stop walk_ret
      conclude_called[OF _ assms(2)] assms(2))
  using assms(1)
  by (auto simp: owing_def called_def ended_def inv_def)

lemma create_external_ended:
  fixes R :: "('w, 'p, 'c) reconciler"
  assumes st: "stage R (\<lambda>mg tr. read ob tr \<and> \<not> ob_exists ob \<and> should_create mg \<and> finalized (\<lambda>m. m = mg) tr) s"
    and T: "\<And>r s'. ended R s' \<Longrightarrow> T r s'"
  shows "wp (create_external R k pristine c) Q T s"
  unfolding create_external_def
proof (intro walk_andthen gate_calm[OF stageD(1,2)[OF st]], goal_cases)
  case (1 s')
  then have "creating R ob (\<lambda>mg tr. should_create mg \<and> finalized (\<lambda>m. m = mg) tr) s'"
    using st by (auto simp: creating_def called_def granted_def stage_def calm_def)
  then show ?case unfolding option.case
    by (intro walk_andthen mark_pending_creating[OF _ _ T] call_create walk_modify walk_record_op walk_option
        create_failed_ended[OF owing_trace[OF owing_release] T]
        create_succeeded_ended[OF owing_trace[OF owing_release] T]) auto
next
  case (2 d s')
  then show ?case using st T by (auto simp: stage_def calm_def intro!: defer_reconcile_ended)
qed

text \<open>Past the create branch the resource exists or may not be created.\<close>

abbreviation past_create :: "observation \<Rightarrow> 'p ev list \<Rightarrow> bool" where
  "past_create ob tr \<equiv> finalized (\<lambda>mf. ob_exists ob \<or> \<not> should_create mf) tr"

lemma check_create_stage:
  assumes "stage R (\<lambda>mg tr. read ob tr \<and> finalized (\<lambda>m. m = mg) tr) s"
    and "\<And>s'. stage R (\<lambda>_ tr. read ob tr \<and> past_create ob tr) s' \<Longrightarrow> Q () s'"
    and "\<And>r s'. ended R s' \<Longrightarrow> T r s'"
  shows "wp (check_create R k pristine ob c) Q T s"
  unfolding check_create_def
  by (intro walk_andthen walk_asks walk_if walk_ret create_external_ended[where ob = ob] assms(2,3))
    (use assms(1) in \<open>auto simp: stage_def elim!: is_finalized_mono[rotated]\<close>)

section \<open>Update\<close>

lemma check_late_initialized_stage:
  assumes "stage R (\<lambda>_ tr. read ob tr \<and> past_create ob tr) s"
    and "\<And>s'. stage R (\<lambda>_ tr. read ob tr \<and> past_create ob tr) s' \<Longrightarrow> Q () s'"
    and "\<And>r s'. ended R s' \<Longrightarrow> T r s'"
  shows "wp (check_late_initialized R ob) Q T s"
  unfolding check_late_initialized_def
  by (intro walk_andthen walk_api walk_option walk_if walk_emit walk_stop walk_ret
      conclude_calm[OF _ _ assms(3)] assms(2,3))
    (use assms(1) in \<open>auto simp: stage_defs\<close>)

lemma settle_ended:
  assumes "stage R P s" "\<And>r s'. ended R s' \<Longrightarrow> T r s'"
  shows "wp (settle R) Q T s"
  unfolding settle_def
  by (intro walk_andthen walk_poll_interval conclude_calm[OF _ _ assms(2)])
    (use assms(1) in \<open>auto simp: stage_defs\<close>)

lemma check_settled_stage:
  assumes "stage R (\<lambda>_ tr. read ob tr \<and> past_create ob tr) s"
    and "\<And>s'. stage R (\<lambda>mg tr. read ob tr \<and> past_create ob tr \<and> \<not> ob_up_to_date ob \<and> should_update mg) s'
        \<Longrightarrow> Q () s'"
    and "\<And>r s'. ended R s' \<Longrightarrow> T r s'"
  shows "wp (check_settled R ob) Q T s"
  unfolding check_settled_def
  by (intro walk_andthen walk_asks walk_if walk_ret settle_ended[OF assms(1) assms(3)] assms(2))
    (use assms(1) in \<open>auto simp: stage_def\<close>)

lemma update_external_ended:
  assumes "stage R (\<lambda>mg tr. read ob tr \<and> past_create ob tr \<and> \<not> ob_up_to_date ob \<and> should_update mg) s"
    and "\<And>r s'. ended R s' \<Longrightarrow> T r s'"
  shows "wp (update_external R k pristine c) Q T s"
  unfolding update_external_def
  apply (intro walk_andthen gated_ext walk_record_op walk_option walk_emit walk_poll_interval
      conclude_called[OF _ assms(2)] called_trace assms(2))
  using assms(1)
  by (auto simp: stage_def ext_ok_def elim!: is_read_mono[rotated] is_finalized_mono[rotated])

section \<open>The pass\<close>

lemma with_client_ended:
  assumes "stage R (\<lambda>_ tr. unread tr \<and> connected tr) s" "\<And>r s'. ended R s' \<Longrightarrow> T r s'"
  shows "wp (with_client R pristine unresolved c) Q T s"
  unfolding with_client_def
  by (intro walk_let walk_andthen observe_external_stage[OF assms(1)]
      check_ready_contract_stage resolve_handshake_stage check_observe_only_stage
      check_creation_grace_stage check_deleted_stage ensure_finalizer_stage check_create_stage
      check_late_initialized_stage check_settled_stage update_external_ended assms(2)) (assumption+)

lemma disconnect_views:
  "valid (rs_trace (disconnect R s)) = valid (rs_trace s)"
  "owed (rs_trace (disconnect R s)) = owed (rs_trace s)"
  "open_slot (rs_trace (disconnect R s)) = open_slot (rs_trace s)"
  "rs_slot (disconnect R s) = rs_slot s"
  by (auto simp: disconnect_def Let_def split: prod.split option.split)

lemma release_closed: "ended R s \<Longrightarrow> closed (release_slot R s)"
  using release_views[of R s] by (auto simp: closed_def ended_def inv_def)

lemma closed_release: "closed s \<Longrightarrow> release_slot R s = s"
  by (simp add: closed_def)

lemma closed_disconnect: "closed s \<Longrightarrow> closed (disconnect R s)"
  by (simp add: closed_def disconnect_views)

text \<open>The state a pass starts in: an empty trace, no slot.\<close>

definition begin_pass :: "('w, 'p, 'c) reconciler \<Rightarrow> 'w \<Rightarrow> string list \<Rightarrow> ('w, 'p) rstate" where
  "begin_pass R w seen =
     \<lparr>rs_world = w, rs_mg = r_new R, rs_slot = None, rs_key_errors = seen, rs_trace = []\<rparr>"

lemma begin_pass_stage: "stage R (\<lambda>_ tr. unread tr) (begin_pass R w seen)"
  by (simp add: begin_pass_def stage_defs)

lemma client_closed:
  assumes st: "stage R (\<lambda>mg tr. unread tr \<and> \<not> is_paused mg \<and> \<not> (was_deleted mg \<and> \<not> should_delete mg)) s"
    and T: "\<And>r s'. closed s' \<Longrightarrow> T r s'"
  shows "wp (andthen (connect_client R pristine) (\<lambda>c.
      finally_do (with_client R pristine unresolved c) (\<lambda>s. disconnect R (release_slot R s))))
      (\<lambda>a s. Q a (release_slot R s)) (\<lambda>r s. T r (release_slot R s)) s"
proof (intro walk_andthen connect_client_stage[OF st] walk_finally with_client_ended)
  fix r s assume "ended R s"
  then show "T r (release_slot R s)" by (intro T release_closed)
next
  fix r s assume "ended R s"
  then have "closed (disconnect R (release_slot R s))" by (intro closed_disconnect release_closed)
  then show "T r (release_slot R (disconnect R (release_slot R s)))" by (simp add: closed_release T)
qed

lemma pass_closed:
  assumes st: "stage R (\<lambda>_ tr. unread tr) s" and T: "\<And>r s'. closed s' \<Longrightarrow> T r s'"
  shows "wp (pass R) Q T s"
  unfolding pass_def
  by (intro walk_andthen walk_asks walk_let walk_finally fetch_stage[OF st] check_paused_stage
      check_orphaned_stage client_closed T) assumption+

text \<open>What the metrics around the pass leave alone.\<close>

lemma log_metrics_closed:
  "closed s \<Longrightarrow> closed (log_ev (Metric m) s)"
  by (simp add: closed_def)

lemma fold_metrics_closed: "closed s \<Longrightarrow> closed (fold log_ev (map Metric ms) s)"
  by (induction ms arbitrary: s) (simp_all add: log_metrics_closed)

text \<open>A run is a pass between its metrics; the pass always stops.\<close>

definition metered :: "('w, 'p, 'c) reconciler \<Rightarrow> ('w, 'p) rstate \<Rightarrow> ('w, 'p) rstate" where
  "metered R s = (if r_metrics R then log_ev (Metric (InFlight 1)) s else s)"

lemma metered_stage: "stage R (\<lambda>_ tr. unread tr) (metered R (begin_pass R w seen))"
  using begin_pass_stage[of R w seen] by (auto simp: stage_defs metered_def)

lemma reconcile_run:
  fixes R :: "('w, 'p, 'c) reconciler"
  assumes "reconcile R (begin_pass R w seen) = (s, out)"
  obtains s' ms where "pass R (metered R (begin_pass R w seen)) = (s', Inl out)"
    "s = fold log_ev (map Metric ms) s'" "closed s'"
    "ms = (if r_metrics R then [ReconcileDuration]
       @ (if snd out \<noteq> None then [ReconcileFailure, ErrorRequeue]
          else ReconcileSuccess # (if res_after (fst out) > 0 then [AfterRequeue]
            else if res_requeue (fst out) then [ImmediateRequeue] else [])) @ [InFlight (- 1)] else [])"
proof -
  obtain s' x where p: "pass R (metered R (begin_pass R w seen)) = (s', x)" by fastforce
  have "wp (pass R) (\<lambda>_ _. False) (\<lambda>_ s. closed s) (metered R (begin_pass R w seen))"
    by (rule pass_closed[OF metered_stage])
  then obtain r where x: "x = Inl r" "closed s'" using p by (auto simp: wp_def split: sum.splits)
  have "out = r" using assms p by (auto simp: reconcile_def metered_def[symmetric] x)
  with that p x assms show ?thesis
    by (auto simp: reconcile_def metered_def[symmetric] record_outcome_def is_rate_limited_requeue_def
        split: if_splits)
qed

text \<open>Every pass follows the protocol and ends closed.\<close>

lemma reconcile_closed:
  assumes "reconcile R (begin_pass R w seen) = (s, out)"
  shows "closed s"
  using assms by (rule reconcile_run) (simp add: fold_metrics_closed)

end
