(* ===== verification/Demo.thy ===== *)
theory Demo
  imports Pass_Safety Governor_Props Data_Props
begin

text \<open>
  A small provider and API server on which the witnesses run the reconciler: an object store of one
  object, a clock that ticks once a second, an external system whose answers are fixed.
\<close>

record demo_world =
  dw_now :: int
  dw_object :: "unit managed"
  dw_governor :: governor

definition demo_object :: "unit managed" where
  "demo_object = object_meta.extend blank_meta \<lparr>mg_conditions = [], mg_payload = ()\<rparr>"

definition demo_store :: "(demo_world, unit) api" where
  "demo_store mg w = (w\<lparr>dw_object := mg\<rparr>, mg, None)"

definition demo :: "(err + observation) \<Rightarrow> err option \<Rightarrow> (demo_world, unit, unit) reconciler" where
  "demo answer outcome =
     \<lparr>r_new = demo_object,
      r_get = (\<lambda>_ w. (w, dw_object w, None)),
      r_update = demo_store, r_status_update = demo_store, r_critical = demo_store,
      r_add_finalizer = demo_store,
      r_remove_finalizer = demo_store,
      r_connect = (\<lambda>mg w. (w, mg, Inr ())),
      r_disconnect = (\<lambda>w. (w, None)),
      r_observe = (\<lambda>_ mg w. (w, mg, answer)),
      r_create = (\<lambda>_ mg w. (w, mg, outcome)),
      r_ext_update = (\<lambda>_ mg w. (w, mg, outcome)),
      r_delete = (\<lambda>_ mg w. (w, mg, outcome)),
      r_keyer = None, r_client_keyer = (\<lambda>_. None), r_governor = None,
      r_now = (\<lambda>w. (w\<lparr>dw_now := dw_now w + second\<rparr>, Time (dw_now w) 0)),
      r_draw = (\<lambda>_ _. None), r_is_conflict = (\<lambda>_. False), r_is_not_found = (\<lambda>_. False),
      r_deep_equal = (\<lambda>a b. False), r_metrics = True, r_poll_interval = 60 * second,
      r_poll_hook = (\<lambda>_ d w. (w, d)), r_creation_grace = 30 * second,
      r_recovery_grace = 120 * second, r_reobserve = 15 * second\<rparr>"

definition demo_start :: "unit managed \<Rightarrow> demo_world" where
  "demo_start mg = \<lparr>dw_now = 63896774400000000000, dw_object = mg, dw_governor = throttled2\<rparr>"

definition demo_run :: "(demo_world, unit, unit) reconciler \<Rightarrow> unit managed \<Rightarrow> (demo_world, unit) rstate \<times> outcome" where
  "demo_run R mg = reconcile R (begin_pass R (demo_start mg) [])"

definition absent :: observation where
  "absent = \<lparr>ob_exists = False, ob_up_to_date = False, ob_late_initialized = False, ob_diff = []\<rparr>"

definition present :: observation where
  "present = absent\<lparr>ob_exists := True\<rparr>"

text \<open>
  The demo with a governor, at a time when it holds the one key of the provider.
\<close>

definition throttled_demo :: "(demo_world, unit, unit) reconciler" where
  "throttled_demo = (demo (Inr present) None)
     \<lparr>r_keyer := Some (\<lambda>_ _. Inr [''a'']),
      r_governor := Some (dw_governor, \<lambda>g w. w\<lparr>dw_governor := g\<rparr>),
      r_now := (\<lambda>w. (w, Time 30 0))\<rparr>"

section \<open>Running it\<close>

text \<open>The object's switches; the condition setters leave them alone.\<close>

lemma demo_switches:
  "is_paused demo_object = False" "was_deleted demo_object = False"
  "external_create_incomplete demo_object = False" "should_create demo_object"
  "should_update demo_object" "should_only_observe demo_object = False"
  "ready_not_set_after_observe demo_object = False" "create_succeeded_during t demo_object d = False"
  "mg_conditions demo_object = []"
  by (simp_all add: demo_object_def blank_meta_def object_meta.defs is_paused_def was_deleted_def
      external_create_incomplete_def marker_defs incomplete_markers_def zero_time_def is_zero_def
      policy_simps management_policy_def key_defs ready_not_set_after_observe_def condition_consts
      create_succeeded_during_def)

lemmas pass_unfold = reconcile_def pass_def fetch_def check_paused_def check_orphaned_def finalize_def
  connect_client_def gated_def gate_def record_op_def with_client_def observe_external_def
  check_ready_contract_def resolve_handshake_def check_observe_only_def check_creation_grace_def
  check_deleted_def delete_external_def ensure_finalizer_def check_create_def create_external_def
  mark_pending_def create_succeeded_def create_failed_def check_late_initialized_def check_settled_def
  settle_def update_external_def conclude_def set_conds_def write_status_def status_update_def
  mark_not_observed_def annotations_failed_def defer_reconcile_def poll_interval_def

lemmas step_unfold = ret_def stop_def andthen_def modify_def asks_def finally_do_def api_def ext_def
  connect_def observe_def clock_def edit_mg_def emit_def log_ev_def release_slot_def disconnect_def
  put_conditions_def Let_def

lemmas demo_unfold = demo_run_def begin_pass_def demo_start_def demo_def demo_store_def
  absent_def present_def pass_unfold step_unfold demo_switches record_outcome_def

lemma demo_creates: "list_ex is_ext (rs_trace (fst (demo_run (demo (Inr absent) None) demo_object)))"
  by (simp add: demo_unfold)

end
