(* ===== verification/Reconcile_Props.thy ===== *)
theory Reconcile_Props
  imports Demo
begin

text \<open>
  The properties of the reconcile pass.  The safety properties are read off the protocol every
  trace follows; those about outcomes walk the pass once more.  Traces are latest first: in
  \<open>later @ e # earlier\<close> the events of \<open>earlier\<close> happened before \<open>e\<close>.
\<close>

section \<open>Reading the protocol\<close>

lemma valid_at: "valid (later @ e # earlier) \<Longrightarrow> justified e earlier \<and> valid earlier"
  by (induction later) auto

lemma list_ex_event: "list_ex P tr \<Longrightarrow> \<exists>later e earlier. tr = later @ e # earlier \<and> P e"
  by (induction tr) (auto, metis append_Nil, metis append_Cons)

lemma read_event:
  "list_ex (is_read P) tr \<Longrightarrow>
     \<exists>later b a ob earlier. tr = later @ Observed b a (Inr ob) # earlier \<and> P ob"
  by (drule list_ex_event) (auto elim!: is_read.elims split: sum.splits, blast)

lemma connected_event:
  "list_ex is_connected tr \<Longrightarrow> \<exists>later b a earlier. tr = later @ Connected b a None # earlier"
  by (drule list_ex_event) (auto elim!: is_connected.elims)

lemma finalized_event:
  "list_ex (is_finalized P) tr \<Longrightarrow>
     \<exists>b m. ApiCall AddFinalizer b m None \<in> set tr \<and> \<not> was_deleted b \<and> P m"
  by (drule list_ex_event) (auto elim!: is_finalized.elims, blast)

lemma reconcile_valid:
  "reconcile R (begin_pass R w seen) = (s, out) \<Longrightarrow> valid (rs_trace s)"
  using reconcile_closed[of R w seen s out] by (simp add: closed_def)

lemma reconcile_justified:
  "reconcile R (begin_pass R w seen) = (s, out) \<Longrightarrow> rs_trace s = later @ e # earlier \<Longrightarrow>
   justified e earlier \<and> valid earlier"
  using reconcile_valid[of R w seen s out] valid_at by metis

text \<open>Whoever observes has connected with an object that is neither paused nor to be orphaned.\<close>

lemma read_connected:
  assumes "valid tr" "list_ex (is_read P) tr"
  shows "\<exists>b a. Connected b a None \<in> set tr \<and> \<not> is_paused b \<and> (was_deleted b \<longrightarrow> should_delete b)"
proof -
  obtain later b a ob earlier where tr: "tr = later @ Observed b a (Inr ob) # earlier"
    using read_event[OF assms(2)] by blast
  have "list_ex is_connected earlier" "valid earlier"
    using valid_at[of later "Observed b a (Inr ob)" earlier] assms(1) tr by auto
  then obtain l2 b' a' e2 where e: "earlier = l2 @ Connected b' a' None # e2" "valid earlier"
    using connected_event by blast
  then have "\<not> is_paused b'" "was_deleted b' \<longrightarrow> should_delete b'"
    using valid_at[of l2 "Connected b' a' None" e2] by auto
  then show ?thesis using tr e(1) by auto
qed

section \<open>External calls\<close>

text \<open>
  C1: Create is called only for a reason.  The object was not paused and not being deleted, Observe
  said the resource does not exist, the policy allows creating, no other external call was made
  before it in the pass, and the last thing written is this object, marked as pending creation
  and accepted by the API server.
\<close>

theorem create_is_guarded:
  assumes "reconcile R (begin_pass R w seen) = (s, out)"
    and "rs_trace s = later @ ExtCall XCreate m a r # earlier"
  shows "\<exists>b0 c0 b1 a1 ob b2 mf t. Connected b0 c0 None \<in> set earlier \<and> \<not> is_paused b0
    \<and> Observed b1 a1 (Inr ob) \<in> set earlier \<and> \<not> ob_exists ob
    \<and> ApiCall AddFinalizer b2 mf None \<in> set earlier \<and> \<not> was_deleted b2 \<and> should_create mf
    \<and> last_api earlier = Some (UpdateManaged, set_create_pending mf t, m, None)
    \<and> no_ext earlier"
proof -
  have j: "no_ext earlier" "valid earlier"
    "list_ex (is_read (\<lambda>ob. ext_ok XCreate ob m earlier)) earlier"
    using reconcile_justified[OF assms] by auto
  obtain b0 c0 where c: "Connected b0 c0 None \<in> set earlier" "\<not> is_paused b0"
    using read_connected[OF j(2,3)] by blast
  obtain l b1 a1 ob e where ob: "earlier = l @ Observed b1 a1 (Inr ob) # e" "ext_ok XCreate ob m earlier"
    using read_event[OF j(3)] by blast
  then have "\<not> ob_exists ob" and "list_ex (is_finalized (\<lambda>mf. should_create mf
      \<and> (\<exists>t. last_api earlier = Some (UpdateManaged, set_create_pending mf t, m, None)))) earlier"
    by (auto simp: ext_ok_def)
  moreover obtain b2 mf t where "ApiCall AddFinalizer b2 mf None \<in> set earlier" "\<not> was_deleted b2"
    "should_create mf" "last_api earlier = Some (UpdateManaged, set_create_pending mf t, m, None)"
    using finalized_event[OF calculation(2)] by blast
  moreover have "Observed b1 a1 (Inr ob) \<in> set earlier" using ob(1) by simp
  ultimately show ?thesis using c j(1) by blast
qed

lemma trace_event:
  "list_ex P (rs_trace (fst (demo_run R mg))) \<Longrightarrow> \<exists>later e earlier.
     reconcile R (begin_pass R (demo_start mg) []) = (fst (demo_run R mg), snd (demo_run R mg))
     \<and> rs_trace (fst (demo_run R mg)) = later @ e # earlier \<and> P e"
  by (drule list_ex_event) (simp add: demo_run_def)

fun is_call :: "ext_op \<Rightarrow> 'p ev \<Rightarrow> bool" where
  "is_call op (ExtCall op' _ _ _) = (op = op')"
| "is_call op _ = False"

lemma is_call_iff: "is_call op e \<longleftrightarrow> (\<exists>m a r. e = ExtCall op m a r)"
  by (cases e) auto

lemma demo_call:
  assumes "list_ex (is_call op) (rs_trace (fst (demo_run R mg)))"
  obtains later m a r earlier
  where "reconcile R (begin_pass R (demo_start mg) []) = (fst (demo_run R mg), snd (demo_run R mg))"
    "rs_trace (fst (demo_run R mg)) = later @ ExtCall op m a r # earlier"
  using trace_event[OF assms] by (auto simp: is_call_iff)

theorem create_is_guarded_witness:
  "\<exists>later m a r earlier t mf. rs_trace (fst (demo_run (demo (Inr absent) None) demo_object))
     = later @ ExtCall XCreate m a r # earlier
     \<and> last_api earlier = Some (UpdateManaged, set_create_pending mf t, m, None)"
proof -
  have "list_ex (is_call XCreate) (rs_trace (fst (demo_run (demo (Inr absent) None) demo_object)))"
    by (simp add: demo_unfold)
  then obtain later m a r earlier where t: "reconcile (demo (Inr absent) None)
        (begin_pass (demo (Inr absent) None) (demo_start demo_object) [])
      = (fst (demo_run (demo (Inr absent) None) demo_object), snd (demo_run (demo (Inr absent) None) demo_object))"
    "rs_trace (fst (demo_run (demo (Inr absent) None) demo_object)) = later @ ExtCall XCreate m a r # earlier"
    by (rule demo_call)
  from create_is_guarded[OF t] t(2) show ?thesis by blast
qed

text \<open>
  C3: Delete is called only on an object that is being deleted and whose policies allow deleting,
  after Observe found the resource, and as the first external call of the pass.
\<close>

theorem delete_is_guarded:
  assumes "reconcile R (begin_pass R w seen) = (s, out)"
    and "rs_trace s = later @ ExtCall XDelete m a r # earlier"
  shows "was_deleted m \<and> should_delete m \<and> no_ext earlier
    \<and> (\<exists>b0 c0 b1 a1 ob. Connected b0 c0 None \<in> set earlier \<and> \<not> is_paused b0
        \<and> Observed b1 a1 (Inr ob) \<in> set earlier \<and> ob_exists ob)"
proof -
  have j: "no_ext earlier" "valid earlier"
    "list_ex (is_read (\<lambda>ob. ext_ok XDelete ob m earlier)) earlier"
    using reconcile_justified[OF assms] by auto
  obtain l b1 a1 ob e where "earlier = l @ Observed b1 a1 (Inr ob) # e" "ext_ok XDelete ob m earlier"
    using read_event[OF j(3)] by blast
  with read_connected[OF j(2,3)] j(1) show ?thesis by (auto simp: ext_ok_def)
qed

definition deleted_object :: "unit managed" where
  "deleted_object = demo_object\<lparr>om_deletion := Some noon\<rparr>"

lemma deleted_switches:
  "is_paused deleted_object = False" "was_deleted deleted_object" "should_delete deleted_object"
  "external_create_incomplete deleted_object = False" "should_only_observe deleted_object = False"
  by (simp_all add: deleted_object_def demo_object_def blank_meta_def object_meta.defs is_paused_def
      was_deleted_def is_zero_def external_create_incomplete_def marker_defs incomplete_markers_def
      zero_time_def policy_simps management_policy_def deletion_policy_def key_defs)

theorem delete_is_guarded_witness:
  "\<exists>later m a r earlier. rs_trace (fst (demo_run (demo (Inr present) None) deleted_object))
     = later @ ExtCall XDelete m a r # earlier \<and> was_deleted m"
proof -
  have "list_ex (is_call XDelete) (rs_trace (fst (demo_run (demo (Inr present) None) deleted_object)))"
    by (simp add: demo_unfold deleted_switches)
  then obtain later m a r earlier where t: "reconcile (demo (Inr present) None)
        (begin_pass (demo (Inr present) None) (demo_start deleted_object) [])
      = (fst (demo_run (demo (Inr present) None) deleted_object), snd (demo_run (demo (Inr present) None) deleted_object))"
    "rs_trace (fst (demo_run (demo (Inr present) None) deleted_object)) = later @ ExtCall XDelete m a r # earlier"
    by (rule demo_call)
  from delete_is_guarded[OF t] t(2) show ?thesis by blast
qed

text \<open>A critical update that meets nothing but conflicts, until it gives up, is reported as an error.\<close>

fun tells_error :: "'p ev \<Rightarrow> bool" where
  "tells_error (ApiCall op b a r) = (op = UpdateStatus \<and> reason_of b type_synced = reason_reconcile_error)"
| "tells_error _ = False"

lemma stamp_conflict_is_told:
  "list_ex tells_error (rs_trace (fst (demo_run ((demo (Inr absent) None)
     \<lparr>r_critical := (\<lambda>mg w. (w, mg, Some e)), r_is_conflict := (\<lambda>_. True)\<rparr>) demo_object)))"
  by (auto simp: demo_unfold reason_of_def set_conditions_def get_set_condition condition_equal_def)

text \<open>The deletion policy has no say under the management policy observe-delete: orphans are deleted too.\<close>

lemma orphan_policy:
  "deletion_policy ob = deletion_orphan \<Longrightarrow> should_delete ob \<longleftrightarrow> management_policy ob = policy_observe_delete"
  by (auto simp: policy_simps)

definition orphaned_object :: "unit managed" where
  "orphaned_object = add_annotations (add_annotations deleted_object (singleton_map key_deletion_policy deletion_orphan))
     (singleton_map key_management_policy policy_observe_delete)"

lemma orphan_is_deleted:
  "deletion_policy orphaned_object = deletion_orphan"
  "list_ex (is_call XDelete) (rs_trace (fst (demo_run (demo (Inr present) None) orphaned_object)))"
proof -
  have sw: "is_paused orphaned_object = False" "was_deleted orphaned_object" "external_create_incomplete orphaned_object = False"
    "should_only_observe orphaned_object = False" and p: "deletion_policy orphaned_object = deletion_orphan"
    "management_policy orphaned_object = policy_observe_delete"
    by (simp_all add: orphaned_object_def deleted_object_def demo_object_def blank_meta_def object_meta.defs
        is_paused_def was_deleted_def is_zero_def external_create_incomplete_def marker_defs incomplete_markers_def
        zero_time_def policy_simps management_policy_def deletion_policy_def key_defs)
  show "deletion_policy orphaned_object = deletion_orphan" by (rule p(1))
  show "list_ex (is_call XDelete) (rs_trace (fst (demo_run (demo (Inr present) None) orphaned_object)))"
    using orphan_policy[OF p(1)] p(2) by (simp add: demo_unfold sw)
qed

text \<open>
  C32: Update is called only when Observe found the resource out of date and the policy allows
  updating, on an object that was not being deleted, after the finalizer was ensured, and, when
  the resource does not exist, only past a create branch the policy closed.
\<close>

theorem update_is_guarded:
  assumes "reconcile R (begin_pass R w seen) = (s, out)"
    and "rs_trace s = later @ ExtCall XUpdate m a r # earlier"
  shows "should_update m \<and> no_ext earlier
    \<and> (\<exists>b1 a1 ob b2 mf. Observed b1 a1 (Inr ob) \<in> set earlier \<and> \<not> ob_up_to_date ob
        \<and> ApiCall AddFinalizer b2 mf None \<in> set earlier \<and> \<not> was_deleted b2
        \<and> (ob_exists ob \<or> \<not> should_create mf))"
proof -
  have j: "no_ext earlier" "list_ex (is_read (\<lambda>ob. ext_ok XUpdate ob m earlier)) earlier"
    using reconcile_justified[OF assms] by auto
  obtain l b1 a1 ob e where ob: "earlier = l @ Observed b1 a1 (Inr ob) # e" "ext_ok XUpdate ob m earlier"
    using read_event[OF j(2)] by blast
  then have "\<not> ob_up_to_date ob" "should_update m"
    "list_ex (is_finalized (\<lambda>mf. ob_exists ob \<or> \<not> should_create mf)) earlier"
    by (auto simp: ext_ok_def)
  moreover obtain b2 mf where "ApiCall AddFinalizer b2 mf None \<in> set earlier" "\<not> was_deleted b2"
    "ob_exists ob \<or> \<not> should_create mf"
    using finalized_event[OF calculation(3)] by blast
  moreover have "Observed b1 a1 (Inr ob) \<in> set earlier" using ob(1) by simp
  ultimately show ?thesis using j(1) by blast
qed

theorem update_is_guarded_witness:
  "\<exists>later m a r earlier. rs_trace (fst (demo_run (demo (Inr present) None) demo_object))
     = later @ ExtCall XUpdate m a r # earlier \<and> should_update m"
proof -
  have "list_ex (is_call XUpdate) (rs_trace (fst (demo_run (demo (Inr present) None) demo_object)))"
    by (simp add: demo_unfold)
  then obtain later m a r earlier where t: "reconcile (demo (Inr present) None)
        (begin_pass (demo (Inr present) None) (demo_start demo_object) [])
      = (fst (demo_run (demo (Inr present) None) demo_object), snd (demo_run (demo (Inr present) None) demo_object))"
    "rs_trace (fst (demo_run (demo (Inr present) None) demo_object)) = later @ ExtCall XUpdate m a r # earlier"
    by (rule demo_call)
  from update_is_guarded[OF t] t(2) show ?thesis by blast
qed

lemma valid_one_ext: "valid tr \<Longrightarrow> length (filter is_ext tr) \<le> 1"
proof (induction tr)
  case (Cons e tr)
  show ?case
  proof (cases "is_ext e")
    case True
    then have "no_ext tr" using Cons.prems by (cases e) auto
    then have "filter is_ext tr = []" by (induction tr) auto
    with True show ?thesis by simp
  next
    case False
    then show ?thesis using Cons by simp
  qed
qed simp

text \<open>C13: a pass makes at most one external call that changes anything.\<close>

theorem at_most_one_change:
  "length (filter is_ext (rs_trace (fst (reconcile R (begin_pass R w seen))))) \<le> 1"
  by (rule valid_one_ext, rule reconcile_valid) (rule prod.collapse[symmetric])

theorem at_most_one_change_example:
  "length (filter is_ext (rs_trace (fst (demo_run (demo (Inr absent) None) demo_object)))) = 1"
  by (simp add: demo_unfold)

section \<open>The outcome of Create\<close>

fun is_api :: "'p ev \<Rightarrow> bool" where
  "is_api (ApiCall _ _ _ _) = True"
| "is_api _ = False"

lemma owed_skip: "\<not> list_ex is_ext l \<Longrightarrow> \<not> list_ex is_api l \<Longrightarrow> owed (l @ tr) = owed tr"
proof (induction l)
  case (Cons e l)
  then show ?case by (cases e) auto
qed simp

lemma no_ext_after: "valid (later @ ExtCall op m a r # earlier) \<Longrightarrow> \<not> list_ex is_ext later"
proof (induction later)
  case (Cons e later)
  have "\<not> is_ext e"
  proof
    assume "is_ext e"
    then have "no_ext (later @ ExtCall op m a r # earlier)" using Cons.prems by (cases e) auto
    then show False by (simp add: no_ext_def)
  qed
  with Cons show ?case by simp
qed simp

lemma owed_first_api:
  assumes v: "valid (later @ ExtCall XCreate m a r # earlier)"
    and o: "owed (later @ ExtCall XCreate m a r # earlier) = None"
  shows "\<exists>l2 t a' r' l1. later = l2 @ ApiCall UpdateCritical
      (if r = None then set_create_succeeded a t else set_create_failed a t) a' r' # l1 \<and> \<not> list_ex is_api l1"
proof -
  have ne: "\<not> list_ex is_ext later" by (rule no_ext_after[OF v])
  then have "list_ex is_api later"
    using owed_skip[of later "ExtCall XCreate m a r # earlier"] o by (cases "list_ex is_api later") auto
  then obtain l2 e l1 where l: "later = l2 @ e # l1" "is_api e" "\<not> list_ex is_api l1"
    by (metis list_ex_iff split_list_last_prop)
  then obtain op b a' r' where e: "e = ApiCall op b a' r'" by (cases e) auto
  have "owed (l1 @ ExtCall XCreate m a r # earlier) = Some (a, r)"
    using owed_skip[of l1 "ExtCall XCreate m a r # earlier"] l ne by simp
  moreover have "justified e (l1 @ ExtCall XCreate m a r # earlier)"
    using valid_at[of l2 e] v l by simp
  ultimately have "op = UpdateCritical"
    "\<exists>t. b = (if r = None then set_create_succeeded a t else set_create_failed a t)"
    using e by simp_all
  then show ?thesis using l e by blast
qed

text \<open>
  C2: the outcome of every Create is recorded.  Whatever Create answered, conflicts included, the
  next call of the API server is the critical update that stamps the object succeeded or failed.
\<close>

theorem create_outcome_recorded:
  assumes "reconcile R (begin_pass R w seen) = (s, out)"
    and "rs_trace s = later @ ExtCall XCreate m a r # earlier"
  shows "\<exists>l2 t a' r' l1. later = l2 @ ApiCall UpdateCritical
      (if r = None then set_create_succeeded a t else set_create_failed a t) a' r' # l1 \<and> \<not> list_ex is_api l1"
  using owed_first_api[of later m a r earlier] reconcile_closed[OF assms(1)] assms(2)
  by (simp add: closed_def)

theorem create_outcome_recorded_witness:
  "\<exists>m a r later. ExtCall XCreate m a r \<in> set (rs_trace (fst (demo_run (demo (Inr absent) (Some (new_err ''no''))) demo_object)))
     \<and> (\<exists>t b. ApiCall UpdateCritical (if r = None then set_create_succeeded a t else set_create_failed a t) b later
          \<in> set (rs_trace (fst (demo_run (demo (Inr absent) (Some (new_err ''no''))) demo_object))))"
proof -
  let ?R = "demo (Inr absent) (Some (new_err ''no''))"
  have "list_ex (is_call XCreate) (rs_trace (fst (demo_run ?R demo_object)))"
    by (simp add: demo_unfold)
  then obtain later m a r earlier where t: "reconcile ?R (begin_pass ?R (demo_start demo_object) [])
      = (fst (demo_run ?R demo_object), snd (demo_run ?R demo_object))"
    "rs_trace (fst (demo_run ?R demo_object)) = later @ ExtCall XCreate m a r # earlier"
    by (rule demo_call)
  obtain l2 t' a' r' l1 where "later = l2 @ ApiCall UpdateCritical
      (if r = None then set_create_succeeded a t' else set_create_failed a t') a' r' # l1"
    using create_outcome_recorded[OF t] by blast
  then show ?thesis unfolding t(2) by (intro exI conjI) auto
qed

section \<open>Slots\<close>

fun is_slot :: "'p ev \<Rightarrow> bool" where
  "is_slot (Took _) = True"
| "is_slot (Gave _) = True"
| "is_slot _ = False"

lemma open_skip: "\<not> list_ex is_slot l \<Longrightarrow> open_slot (l @ tr) = open_slot tr"
proof (induction l)
  case (Cons e l)
  then show ?case by (cases e) auto
qed simp

text \<open>
  A pass holds at most one of the governor's slots at a time and gives every slot back: after
  a slot is taken the next slot event gives that slot back, and at the end none is held.
\<close>

theorem slots_given_back:
  assumes "reconcile R (begin_pass R w seen) = (s, out)"
  shows "rs_slot s = None \<and> (\<forall>later ks earlier. rs_trace s = later @ Took ks # earlier \<longrightarrow>
     open_slot earlier = None \<and> (\<exists>l2 l1. later = l2 @ Gave ks # l1 \<and> \<not> list_ex is_slot l1))"
proof (intro conjI allI impI)
  have c: "closed s" by (rule reconcile_closed[OF assms])
  then show "rs_slot s = None" by (simp add: closed_def)
  fix later ks earlier assume tr: "rs_trace s = later @ Took ks # earlier"
  then show "open_slot earlier = None" using reconcile_justified[OF assms tr] by simp
  have "list_ex is_slot later"
    using open_skip[of later "Took ks # earlier"] c tr by (auto simp: closed_def)
  then obtain l2 e l1 where l: "later = l2 @ e # l1" "is_slot e" "\<not> list_ex is_slot l1"
    by (metis list_ex_iff split_list_last_prop)
  have "justified e (l1 @ Took ks # earlier)"
    using valid_at[of l2 e] c tr l(1) by (simp add: closed_def)
  moreover have "open_slot (l1 @ Took ks # earlier) = Some ks"
    using open_skip[OF l(3), of "Took ks # earlier"] by simp
  ultimately have "e = Gave ks" using l(2) by (cases e) auto
  with l show "\<exists>l2 l1. later = l2 @ Gave ks # l1 \<and> \<not> list_ex is_slot l1" by blast
qed

theorem slots_given_back_witness:
  "rs_slot (fst (demo_run throttled_demo demo_object)) = None"
  using slots_given_back[OF prod.collapse[symmetric], of throttled_demo "demo_start demo_object" "[]"]
  by (simp add: demo_run_def)

section \<open>What the status says\<close>

fun is_status :: "'p ev \<Rightarrow> bool" where
  "is_status (ApiCall op _ _ _) = (op = UpdateStatus)"
| "is_status _ = False"

lemma status_event:
  assumes "dropWhile (\<lambda>e. \<not> is_status e) tr = e # earlier"
  shows "\<exists>later b a r. tr = later @ ApiCall UpdateStatus b a r # earlier"
proof -
  have "is_status e" using hd_dropWhile[of "\<lambda>e. \<not> is_status e" tr] assms by simp
  then obtain b a r where "e = ApiCall UpdateStatus b a r" by (cases e) auto
  then show ?thesis using takeWhile_dropWhile_id[of "\<lambda>e. \<not> is_status e" tr] assms by metis
qed

text \<open>
  C11: after Connect or Observe failed, every status the pass writes says so: Synced is
  ReconcileError, and Ready is NotObserved or Deleting, never a stale True, unless the provider
  assessed Ready itself.
\<close>

theorem failure_is_told:
  assumes "reconcile R (begin_pass R w seen) = (s, out)"
    and "rs_trace s = later @ ApiCall UpdateStatus b a r # earlier" "failed_read earlier = Some e"
  shows "c_reason (get_condition (mg_conditions b) type_synced) = reason_reconcile_error
    \<and> (\<not> is_ready_assessed (Some e) \<longrightarrow>
         c_reason (get_condition (mg_conditions b) type_ready) \<in> {reason_not_observed, reason_deleting})"
  using reconcile_justified[OF assms(1,2)] assms(3) by (auto simp: told_failure_def reason_of_def)

theorem failure_is_told_witness:
  "\<exists>b. c_reason (get_condition (mg_conditions b) type_synced) = reason_reconcile_error
     \<and> c_reason (get_condition (mg_conditions b) type_ready) \<in> {reason_not_observed, reason_deleting}
     \<and> (\<exists>a r. ApiCall UpdateStatus b a r
          \<in> set (rs_trace (fst (demo_run (demo (Inl (new_err ''gone'')) None) demo_object))))"
proof -
  let ?R = "demo (Inl (new_err ''gone'')) None"
  let ?tr = "rs_trace (fst (demo_run ?R demo_object))"
  have na: "\<not> is_ready_assessed (Some (new_err m))" for m
    by (simp add: is_ready_assessed_def new_err_def)
  have "\<exists>e tr. dropWhile (\<lambda>e. \<not> is_status e) ?tr = e # tr \<and> failed_read tr = Some (new_err ''gone'')"
    by (simp add: demo_unfold na)
  then obtain later b a r earlier where t: "?tr = later @ ApiCall UpdateStatus b a r # earlier"
    "failed_read earlier = Some (new_err ''gone'')"
    using status_event by blast
  have run: "reconcile ?R (begin_pass ?R (demo_start demo_object) [])
      = (fst (demo_run ?R demo_object), snd (demo_run ?R demo_object))" by (simp add: demo_run_def)
  from failure_is_told[OF run t] na t(1) show ?thesis by fastforce
qed

text \<open>
  C12: a deferral is not a failure and says nothing about readiness.  The only API write after the
  governor deferred a call is the status, of the object as it was at the gate with Synced set to
  the deferral's message, or of that very object on the startup ramp; no slot is taken and no
  external call is made after it.
\<close>

theorem deferral_leaves_ready:
  assumes "reconcile R (begin_pass R w seen) = (s, out)"
    and "rs_trace s = later @ e # earlier" "last_deferral earlier = Some (d, m)"
  shows "(\<forall>op b a r. e = ApiCall op b a r \<longrightarrow> op = UpdateStatus
       \<and> get_condition (mg_conditions b) type_ready = get_condition (mg_conditions m) type_ready
       \<and> (if d_reason d = DeferRamping then b = m
          else reason_of b type_synced = reason_reconcile_deferred))
    \<and> \<not> is_ext e \<and> \<not> is_observed e \<and> (\<forall>ks. e \<noteq> Took ks) \<and> (\<forall>b a r. e \<noteq> Connected b a r)"
proof -
  have j: "justified e earlier" using reconcile_justified[OF assms(1,2)] by simp
  have ready: "get_condition (mg_conditions (put_conditions [cond_reconcile_deferred x t] m)) type_ready
      = get_condition (mg_conditions m) type_ready" for x t
    by (simp add: put_conditions_def set_conditions_def get_set_condition)
  show ?thesis using j assms(3) ready
    by (cases e) (auto simp: told_deferral_def split: if_splits)
qed

lemma throttled_run:
  "\<exists>e tr d. dropWhile (\<lambda>e. \<not> is_status e) (rs_trace (fst (demo_run throttled_demo demo_object)))
     = e # tr \<and> last_deferral tr = Some (d, demo_object) \<and> d_reason d = DeferThrottled"
proof -
  obtain g d where "acquire_all (default_jitter (\<lambda>_. None)) 30 [''a''] throttled2 = (g, Some d)"
    "d_reason d = DeferThrottled"
    using throttled2_deferred[of "[''a'']" "default_jitter (\<lambda>_. None)"] by auto
  then show ?thesis
    by (simp add: demo_unfold throttled_demo_def rate_limit_keys_def governed_acquire_def unchanged_def)
qed

theorem deferral_leaves_ready_witness:
  "\<exists>b a r. ApiCall UpdateStatus b a r \<in> set (rs_trace (fst (demo_run throttled_demo demo_object)))
     \<and> reason_of b type_synced = reason_reconcile_deferred"
proof -
  obtain later b a r earlier d where
    t: "rs_trace (fst (demo_run throttled_demo demo_object)) = later @ ApiCall UpdateStatus b a r # earlier"
    "last_deferral earlier = Some (d, demo_object)" "d_reason d = DeferThrottled"
    using throttled_run status_event by blast
  have run: "reconcile throttled_demo (begin_pass throttled_demo (demo_start demo_object) [])
      = (fst (demo_run throttled_demo demo_object), snd (demo_run throttled_demo demo_object))"
    by (simp add: demo_run_def)
  from deferral_leaves_ready[OF run t(1,2)] t(1,3) show ?thesis by fastforce
qed

end
