(* ===== verification/Pass_Invariant.thy ===== *)
theory Pass_Invariant
  imports Demo
begin

text \<open>
  Invariants of a pass that every step keeps, whatever the stretch it belongs to.  The interface
  \<open>pass_invariant\<close> asks the steps; the theory gives the pass, and interprets it twice: for the
  governor's count of calls in flight, and for the metrics a pass may record.
\<close>

text \<open>The gate with everything the governor was told.\<close>

lemma walk_gate_full:
  assumes ungated: "\<And>es. Q None (s\<lparr>rs_key_errors := es\<rparr>)"
    and granted: "\<And>getg putg w t es keys g. r_governor R = Some (getg, putg) \<Longrightarrow>
      r_now R (rs_world s) = (w, t) \<Longrightarrow>
      acquire_all (default_jitter (r_draw R w)) (inst t) keys (getg w) = (g, None) \<Longrightarrow>
      Q None (log_ev (Took (normalize_keys keys))
        (s\<lparr>rs_key_errors := es, rs_world := putg g w, rs_slot := Some (normalize_keys keys)\<rparr>))"
    and deferred: "\<And>getg putg w t es keys g d. r_governor R = Some (getg, putg) \<Longrightarrow>
      r_now R (rs_world s) = (w, t) \<Longrightarrow>
      acquire_all (default_jitter (r_draw R w)) (inst t) keys (getg w) = (g, Some d) \<Longrightarrow>
      Q (Some d) (log_ev (Deferred d (rs_mg s)) (s\<lparr>rs_key_errors := es, rs_world := putg g w\<rparr>))"
  shows "wp (gate R k) Q T s"
proof (cases "r_governor R")
  case None
  then show ?thesis using ungated[of "rs_key_errors s"] by (simp add: gate_def wps)
next
  case (Some lens)
  obtain getg putg where lens: "lens = (getg, putg)" by fastforce
  have "\<exists>es keys. rate_limit_keys k s = (s\<lparr>rs_key_errors := es\<rparr>, Inr keys)"
    by (auto simp: rate_limit_keys_def split: option.split sum.split)
      (metis rstate.surjective rstate.update_convs(4))
  then obtain es keys where ks: "rate_limit_keys k s = (s\<lparr>rs_key_errors := es\<rparr>, Inr keys)" by blast
  let ?s = "s\<lparr>rs_key_errors := es\<rparr>"
  have acq: "wp (governed_acquire R getg putg keys) Q T ?s"
    using granted[of getg putg] deferred[of getg putg] Some lens
    by (auto simp: wp_def governed_acquire_def Let_def log_ev_def split: prod.split option.split)
  have "wp (rate_limit_keys k) Q' T s" if "Q' keys ?s" for Q'
    using that by (simp add: wp_def ks)
  then show ?thesis
    unfolding gate_def Some option.case lens fst_conv snd_conv
    by (intro walk_andthen) (auto simp: wps acq ungated)
qed

section \<open>The interface\<close>

definition apis :: "('w, 'p, 'c) reconciler \<Rightarrow> ('w, 'p) api set" where
  "apis R = {r_get R, r_update R, r_status_update R, r_critical R, r_add_finalizer R, r_remove_finalizer R}"

definition exts :: "('w, 'p, 'c) reconciler \<Rightarrow> ('w, 'p) api set" where
  "exts R = range (r_create R) \<union> range (r_ext_update R) \<union> range (r_delete R)"

lemma apis_mem [simp]:
  "r_get R \<in> apis R" "r_update R \<in> apis R" "r_status_update R \<in> apis R" "r_critical R \<in> apis R"
  "r_add_finalizer R \<in> apis R" "r_remove_finalizer R \<in> apis R"
  by (simp_all add: apis_def)

lemma exts_mem [simp]: "r_create R c \<in> exts R" "r_ext_update R c \<in> exts R" "r_delete R c \<in> exts R"
  by (simp_all add: exts_def)

text \<open>No operation the reconciler is given leads out of the worlds that satisfy \<open>P\<close>.\<close>

definition outside_keeps :: "('w, 'p, 'c) reconciler \<Rightarrow> ('w \<Rightarrow> bool) \<Rightarrow> bool" where
  "outside_keeps R P \<longleftrightarrow>
     (\<forall>f \<in> apis R \<union> exts R. \<forall>mg w. P w \<longrightarrow> P (fst (f mg w)))
     \<and> (\<forall>mg w. P w \<longrightarrow> P (fst (r_connect R mg w)))
     \<and> (\<forall>c mg w. P w \<longrightarrow> P (fst (r_observe R c mg w)))
     \<and> (\<forall>w. P w \<longrightarrow> P (fst (r_disconnect R w)))
     \<and> (\<forall>w. P w \<longrightarrow> P (fst (r_now R w)))
     \<and> (\<forall>mg d w. P w \<longrightarrow> P (fst (r_poll_hook R mg d w)))"

lemma outside_keepsD:
  assumes "outside_keeps R P" "P w"
  shows "f \<in> apis R \<Longrightarrow> f mg w = (w', x) \<Longrightarrow> P w'" "f \<in> exts R \<Longrightarrow> f mg w = (w', x) \<Longrightarrow> P w'"
    "r_connect R mg w = (w', y) \<Longrightarrow> P w'" "r_observe R c mg w = (w', z) \<Longrightarrow> P w'"
    "r_disconnect R w = (w', e) \<Longrightarrow> P w'" "r_now R w = (w', t) \<Longrightarrow> P w'"
    "r_poll_hook R mg d w = (w', d') \<Longrightarrow> P w'"
  using assms unfolding outside_keeps_def by (metis UnI1 UnI2 fst_conv)+

text \<open>
  \<open>ends G T m\<close>: from a state that satisfies \<open>G\<close>, \<open>m\<close> goes on in one that does, or stops with an outcome
  and a state in \<open>T\<close>.
\<close>

definition ends :: "('s \<Rightarrow> bool) \<Rightarrow> ('r \<Rightarrow> 's \<Rightarrow> bool) \<Rightarrow> ('s, 'r, 'a) pass \<Rightarrow> bool" where
  "ends G T m \<longleftrightarrow> (\<forall>s. G s \<longrightarrow> wp m (\<lambda>_. G) T s)"

named_theorems ending "rules for the ends of a pass"

lemma ends_andthen [ending]: "ends G T m \<Longrightarrow> (\<And>a. ends G T (f a)) \<Longrightarrow> ends G T (andthen m f)"
  unfolding ends_def wp_andthen by (blast intro: wp_mono)

lemma ends_if [ending]: "ends G T m \<Longrightarrow> ends G T n \<Longrightarrow> ends G T (if b then m else n)"
  by simp

lemma ends_option [ending]:
  "ends G T m \<Longrightarrow> (\<And>a. ends G T (f a)) \<Longrightarrow> ends G T (case x of None \<Rightarrow> m | Some a \<Rightarrow> f a)"
  by (simp split: option.split)

lemma ends_sum [ending]:
  "(\<And>a. ends G T (f a)) \<Longrightarrow> (\<And>b. ends G T (g b)) \<Longrightarrow> ends G T (case x of Inl a \<Rightarrow> f a | Inr b \<Rightarrow> g b)"
  by (simp split: sum.split)

lemma ends_let [ending]: "(\<And>x. ends G T (f x)) \<Longrightarrow> ends G T (let x = y in f x)"
  by simp

lemma ends_pure [ending]: "ends G T (ret a)" "ends G T (asks f)"
  by (simp_all add: ends_def wps)

lemma ends_modify: "(\<And>s. G s \<Longrightarrow> G (f s)) \<Longrightarrow> ends G T (modify f)"
  by (simp add: ends_def wps)

lemma ends_stop: "(\<And>s. G s \<Longrightarrow> T r s) \<Longrightarrow> ends G T (stop r)"
  by (simp add: ends_def wps)

lemma ends_finally:
  "ends G (\<lambda>r s. T r (c s)) m \<Longrightarrow> (\<And>s. G s \<Longrightarrow> G (c s)) \<Longrightarrow> ends G T (finally_do m c)"
  unfolding ends_def wp_finally by (blast intro: wp_mono)

lemma ends_cleanup:
  "ends G (\<lambda>_. G) m \<Longrightarrow> (\<And>s. G s \<Longrightarrow> G (c s)) \<Longrightarrow> ends G (\<lambda>_. G) (finally_do m c)"
  unfolding ends_def wp_finally by (blast intro: wp_mono)

text \<open>The rules for steps take any \<open>T\<close>, as steps do not stop.\<close>

text \<open>A deferral knows the governor that gave it, as the gate found it.\<close>

definition deferred_by ::
  "('w, 'p, 'c) reconciler \<Rightarrow> (('w, 'p) rstate \<Rightarrow> bool) \<Rightarrow> deferral \<Rightarrow> bool" where
  "deferred_by R G d \<longleftrightarrow> (\<exists>s getg putg w t keys g. G s \<and> r_governor R = Some (getg, putg)
     \<and> r_now R (rs_world s) = (w, t) \<and> G (s\<lparr>rs_world := w\<rparr>)
     \<and> acquire_all (default_jitter (r_draw R w)) (inst t) keys (getg w) = (g, Some d))"

locale step_invariant =
  fixes R :: "('w, 'p, 'c) reconciler" and G :: "('w, 'p) rstate \<Rightarrow> bool" and X :: "ext_op set"
  assumes keep_api: "G s \<Longrightarrow> f \<in> apis R \<Longrightarrow> f (rs_mg s) (rs_world s) = (w, mg, e) \<Longrightarrow>
      G (log_ev (ApiCall op (rs_mg s) mg e) (s\<lparr>rs_world := w, rs_mg := mg\<rparr>))"
    and keep_ext: "G s \<Longrightarrow> f \<in> exts R \<Longrightarrow> f (rs_mg s) (rs_world s) = (w, mg, e) \<Longrightarrow> xop \<in> X \<Longrightarrow>
      G (log_ev (ExtCall xop (rs_mg s) mg e) (s\<lparr>rs_world := w, rs_mg := mg\<rparr>))"
    and keep_connect: "G s \<Longrightarrow> r_connect R (rs_mg s) (rs_world s) = (w, mg, x) \<Longrightarrow>
      G (log_ev (Connected (rs_mg s) mg (conn_err x)) (s\<lparr>rs_world := w, rs_mg := mg\<rparr>))"
    and keep_observe: "G s \<Longrightarrow> r_observe R c (rs_mg s) (rs_world s) = (w, mg, ob) \<Longrightarrow>
      G (log_ev (Observed (rs_mg s) mg ob) (s\<lparr>rs_world := w, rs_mg := mg\<rparr>))"
    and keep_clock: "G s \<Longrightarrow> r_now R (rs_world s) = (w, t) \<Longrightarrow> G (s\<lparr>rs_world := w\<rparr>)"
    and keep_poll: "G s \<Longrightarrow> r_poll_hook R (rs_mg s) d (rs_world s) = (w, d') \<Longrightarrow> G (s\<lparr>rs_world := w\<rparr>)"
    and keep_mg: "G s \<Longrightarrow> G (s\<lparr>rs_mg := m\<rparr>)"
    and keep_errs: "G s \<Longrightarrow> G (s\<lparr>rs_key_errors := es\<rparr>)"
    and keep_emit: "G s \<Longrightarrow> G (log_ev (Emitted thr wn reason msg) s)"
    and keep_metrics: "G s \<Longrightarrow> G (s\<lparr>rs_trace := op_metrics R mop b @ rs_trace s\<rparr>)"
    and keep_granted: "G s \<Longrightarrow> r_governor R = Some (getg, putg) \<Longrightarrow>
      acquire_all (default_jitter draw) now keys (getg (rs_world s)) = (g, None) \<Longrightarrow>
      G (log_ev (Took (normalize_keys keys))
        (s\<lparr>rs_world := putg g (rs_world s), rs_slot := Some (normalize_keys keys)\<rparr>))"
    and keep_deferred: "G s \<Longrightarrow> r_governor R = Some (getg, putg) \<Longrightarrow>
      acquire_all (default_jitter draw) now keys (getg (rs_world s)) = (g, Some df) \<Longrightarrow>
      G (log_ev (Deferred df (rs_mg s)) (s\<lparr>rs_world := putg g (rs_world s)\<rparr>))"
    and keep_release: "G s \<Longrightarrow> G (release_slot R s)"
    and keep_disconnect: "G s \<Longrightarrow> G (disconnect R s)"
begin

lemma k_api: "f \<in> apis R \<Longrightarrow> ends G T (api op f)"
  unfolding ends_def by (auto intro!: walk_api keep_api)

lemma k_ext: "f \<in> exts R \<Longrightarrow> xop \<in> X \<Longrightarrow> ends G T (ext xop f)"
  unfolding ends_def by (auto intro!: walk_ext keep_ext)

lemma k_steps:
  "ends G T (connect R)" "ends G T (observe R c)" "ends G T (clock R)" "ends G T (poll_interval R)"
  "ends G T (emit thr wn reason msg)" "ends G T (edit_mg h)" "ends G T (record_op R mop b)"
  unfolding ends_def
  by (auto intro!: walk_connect walk_observe walk_clock walk_poll_interval walk_emit walk_edit_mg
      walk_record_op keep_connect keep_observe keep_emit keep_mg keep_metrics intro: keep_clock keep_poll)

lemma k_conditions: "ends G T (read_conditions R cs)"
  by (induction cs) (auto intro!: ending k_steps)

lemma k_set_conds: "ends G T (set_conds R cs)"
  unfolding set_conds_def by (intro ending k_conditions ends_modify keep_mg)

lemma k_release: "ends G T (modify (release_slot R))"
  by (intro ends_modify keep_release)

lemma k_write_status:
  assumes "\<And>s. G s \<Longrightarrow> T out s" "\<And>e s. G s \<Longrightarrow> T (no_result, wrap (Some e) err_update_status) s"
  shows "ends G T (write_status R out)"
  unfolding write_status_def status_update_def by (intro ending k_api k_steps ends_stop assms; simp)

lemma k_conclude:
  assumes "\<And>s. G s \<Longrightarrow> T out s" "\<And>e s. G s \<Longrightarrow> T (no_result, wrap (Some e) err_update_status) s"
  shows "ends G T (conclude R cs out)"
  unfolding conclude_def by (intro ending k_set_conds k_write_status assms)

lemma k_defer:
  assumes "\<And>s. G s \<Longrightarrow> T (requeue_after (d_requeue_after d), None) s"
    and "\<And>e s. G s \<Longrightarrow> T (no_result, wrap (Some e) err_update_status) s"
  shows "ends G T (defer_reconcile R pristine d)"
  unfolding defer_reconcile_def by (intro ending k_write_status k_steps k_set_conds ends_stop assms)

lemma k_gate_then:
  assumes "ends G T (f None)" "\<And>d. deferred_by R G d \<Longrightarrow> ends G T (f (Some d))"
  shows "ends G T (andthen (gate R k) f)"
  unfolding ends_def wp_andthen
proof (intro allI impI walk_gate_full)
  fix s es assume "G s"
  then show "wp (f None) (\<lambda>_. G) T (s\<lparr>rs_key_errors := es\<rparr>)"
    using assms(1) keep_errs[of s es] by (simp add: ends_def)
next
  fix s getg putg w t es keys g
  assume a: "G s" "r_governor R = Some (getg, putg)" "r_now R (rs_world s) = (w, t)"
    "acquire_all (default_jitter (r_draw R w)) (inst t) keys (getg w) = (g, None)"
  have "G (s\<lparr>rs_key_errors := es, rs_world := w\<rparr>)"
    using keep_clock[OF keep_errs[OF a(1)]] a(3) by simp
  from keep_granted[OF this a(2)] a(4) assms(1)
  show "wp (f None) (\<lambda>_. G) T (log_ev (Took (normalize_keys keys))
      (s\<lparr>rs_key_errors := es, rs_world := putg g w, rs_slot := Some (normalize_keys keys)\<rparr>))"
    by (simp add: ends_def)
next
  fix s getg putg w t es keys g d
  assume a: "G s" "r_governor R = Some (getg, putg)" "r_now R (rs_world s) = (w, t)"
    "acquire_all (default_jitter (r_draw R w)) (inst t) keys (getg w) = (g, Some d)"
  have 1: "G (s\<lparr>rs_key_errors := es, rs_world := w\<rparr>)"
    using keep_clock[OF keep_errs[OF a(1)]] a(3) by simp
  have "deferred_by R G d" unfolding deferred_by_def using a keep_clock[OF a(1,3)] by blast
  with keep_deferred[OF 1 a(2)] a(4) assms(2)
  show "wp (f (Some d)) (\<lambda>_. G) T (log_ev (Deferred d (rs_mg s)) (s\<lparr>rs_key_errors := es, rs_world := putg g w\<rparr>))"
    by (simp add: ends_def)
qed

lemma k_gated:
  assumes "ends G T call" "\<And>d s. deferred_by R G d \<Longrightarrow> G s \<Longrightarrow> T (requeue_after (d_requeue_after d), None) s"
    and "\<And>e s. G s \<Longrightarrow> T (no_result, wrap (Some e) err_update_status) s"
  shows "ends G T (gated R k pristine call)"
  unfolding gated_def
  by (rule k_gate_then) (auto intro!: ending assms k_release k_defer)

lemma k_gate: "ends G (\<lambda>_. G) (gate R k)"
  using k_gate_then[of "\<lambda>_. G" ret] by (simp add: ends_pure ends_def wps)

text \<open>The stretches of a pass; those that call out need their call in \<open>X\<close>.\<close>

lemmas k_rules = k_gate_then ending ends_finally ends_modify ends_stop keep_mg keep_release keep_disconnect
  k_api k_ext k_steps k_set_conds k_conclude k_gated k_defer

lemma k_finalize: "ends G (\<lambda>_. G) (finalize R)"
  unfolding finalize_def by (intro k_rules; simp add: keep_mg)

lemma k_stretches:
  "ends G (\<lambda>_. G) (fetch R)" "ends G (\<lambda>_. G) (check_paused R)" "ends G (\<lambda>_. G) (check_orphaned R)"
  "ends G (\<lambda>_. G) (connect_client R pristine)" "ends G (\<lambda>_. G) (observe_external R k pristine unresolved c)"
  "ends G (\<lambda>_. G) check_ready_contract" "ends G (\<lambda>_. G) (resolve_handshake R unresolved ob)"
  "ends G (\<lambda>_. G) (check_observe_only R ob)" "ends G (\<lambda>_. G) (check_creation_grace R ob)"
  "ends G (\<lambda>_. G) (ensure_finalizer R)" "ends G (\<lambda>_. G) (mark_pending R)"
  "ends G (\<lambda>_. G) (create_failed R e)" "ends G (\<lambda>_. G) (create_succeeded R)"
  "ends G (\<lambda>_. G) (check_late_initialized R ob)" "ends G (\<lambda>_. G) (check_settled R ob)"
  unfolding fetch_def check_paused_def check_orphaned_def connect_client_def observe_external_def
    check_ready_contract_def resolve_handshake_def annotations_failed_def check_observe_only_def
    check_creation_grace_def ensure_finalizer_def mark_pending_def create_failed_def create_succeeded_def
    check_late_initialized_def check_settled_def settle_def mark_not_observed_def
  by (intro k_rules k_finalize; simp add: keep_mg keep_release)+

lemma k_calls:
  "XDelete \<in> X \<Longrightarrow> ends G (\<lambda>_. G) (check_deleted R k pristine ob c)"
  "XUpdate \<in> X \<Longrightarrow> ends G (\<lambda>_. G) (update_external R k pristine c)"
  "XCreate \<in> X \<Longrightarrow> ends G (\<lambda>_. G) (check_create R k pristine ob c)"
  unfolding check_deleted_def delete_external_def update_external_def check_create_def create_external_def
  by (intro k_rules k_stretches k_finalize; simp add: keep_release)+

end

text \<open>An invariant that every external call keeps is kept by the pass.\<close>

locale pass_invariant = step_invariant R G UNIV
  for R :: "('w, 'p, 'c) reconciler" and G :: "('w, 'p) rstate \<Rightarrow> bool"
begin

lemma k_pass: "ends G (\<lambda>_. G) (pass R)"
  unfolding pass_def with_client_def
  by (intro ending ends_cleanup k_stretches k_calls; simp add: keep_release keep_disconnect)

lemma pass_keeps: "G s \<Longrightarrow> pass R s = (s', x) \<Longrightarrow> G s'"
  using k_pass by (auto simp: ends_def wp_def split: sum.splits)

end

end
