(* ===== verification/Pass_Liveness.thy ===== *)
theory Pass_Liveness
  imports Pass_Invariant
begin

text \<open>
  How a pass ends: every outcome brings the object back, by an error, a rate-limited requeue or a
  positive delay, unless the object is gone, paused or released.
\<close>

section \<open>Outcomes that bring the object back\<close>

definition comes_back :: "outcome \<Rightarrow> bool" where
  "comes_back out \<longleftrightarrow> snd out \<noteq> None \<or> res_requeue (fst out) \<or> 0 < res_after (fst out)"

lemma comes_back_simps [simp]:
  "comes_back (rate_limited_requeue, e)" "comes_back (r, Some x)" "comes_back (requeue_after d, None) = (0 < d)"
  by (simp_all add: comes_back_def rate_limited_requeue_def requeue_after_def)

section \<open>Worlds a pass keeps sound\<close>

text \<open>
  \<open>safe_world R ok\<close>: no operation the reconciler is given leads out of the worlds \<open>ok\<close>, in which
  the governor is healthy, and storing a healthy governor does not either.
\<close>

definition safe_world :: "('w, 'p, 'c) reconciler \<Rightarrow> ('w \<Rightarrow> bool) \<Rightarrow> bool" where
  "safe_world R ok \<longleftrightarrow> outside_keeps R ok
     \<and> (\<forall>getg putg. r_governor R = Some (getg, putg) \<longrightarrow>
          (\<forall>w. ok w \<longrightarrow> healthy (getg w)) \<and> (\<forall>g w. ok w \<longrightarrow> healthy g \<longrightarrow> ok (putg g w)))"

definition sound :: "('w, 'p, 'c) reconciler \<Rightarrow> ('w \<Rightarrow> bool) \<Rightarrow> ('w, 'p) rstate \<Rightarrow> bool" where
  "sound R ok s \<longleftrightarrow> (safe_world R ok \<longrightarrow> ok (rs_world s))"

lemma sound_step:
  assumes "sound R ok s" "safe_world R ok \<Longrightarrow> ok (rs_world s) \<Longrightarrow> ok (rs_world s')"
  shows "sound R ok s'"
  using assms by (simp add: sound_def)

lemma safe_world_keeps: "safe_world R ok \<Longrightarrow> outside_keeps R ok"
  by (simp add: safe_world_def)

interpretation world: pass_invariant R "sound R ok" for R :: "('w, 'p, 'c) reconciler" and ok :: "'w \<Rightarrow> bool"
proof (unfold_locales, goal_cases api ext connect observe clock poll mg errs emit metrics granted deferred release disconnect)
  case api from api(1) show ?case by (rule sound_step) (simp add: outside_keepsD(1)[OF safe_world_keeps _ api(2,3)])
next
  case ext from ext(1) show ?case by (rule sound_step) (simp add: outside_keepsD(2)[OF safe_world_keeps _ ext(2,3)])
next
  case connect
  from connect(1) show ?case by (rule sound_step) (simp add: outside_keepsD(3)[OF safe_world_keeps _ connect(2)])
next
  case observe
  from observe(1) show ?case by (rule sound_step) (simp add: outside_keepsD(4)[OF safe_world_keeps _ observe(2)])
next
  case clock
  from clock(1) show ?case by (rule sound_step) (simp add: outside_keepsD(6)[OF safe_world_keeps _ clock(2)])
next
  case poll
  from poll(1) show ?case by (rule sound_step) (simp add: outside_keepsD(7)[OF safe_world_keeps _ poll(2)])
next
  case granted
  from granted(1) show ?case
    by (rule sound_step) (simp add: safe_world_def granted(2) healthy_steps(1)[OF _ granted(3)])
next
  case deferred
  from deferred(1) show ?case
    by (rule sound_step) (simp add: safe_world_def deferred(2) healthy_steps(1)[OF _ deferred(3)])
next
  case release
  then show ?case
    by (rule sound_step)
      (auto simp: safe_world_def release_slot_def release_once_def healthy_steps(2) split: option.split)
next
  case disconnect
  then show ?case
    by (rule sound_step) (auto simp: disconnect_def Let_def split: prod.split option.split
        dest: outside_keepsD(5)[OF safe_world_keeps])
qed (simp_all add: sound_def)

text \<open>What a configuration must grant: positive intervals, a fair random source, a safe world.\<close>

definition configured :: "('w, 'p, 'c) reconciler \<Rightarrow> ('w \<Rightarrow> bool) \<Rightarrow> bool" where
  "configured R ok \<longleftrightarrow> safe_world R ok \<and> 0 < r_reobserve R
     \<and> (\<forall>mg w. ok w \<longrightarrow> 0 < snd (r_poll_hook R mg (r_poll_interval R) w))
     \<and> (\<forall>w. ok w \<longrightarrow> fair (r_draw R w))"

lemma configured_simps:
  assumes "configured R ok"
  shows "0 < r_reobserve R" "ok w \<Longrightarrow> r_poll_hook R mg (r_poll_interval R) w = (w', d) \<Longrightarrow> 0 < d"
  using assms by (auto simp: configured_def) (metis snd_conv)

lemma configured_deferral:
  assumes "configured R ok" "deferred_by R (sound R ok) d"
  shows "0 < d_requeue_after d"
proof -
  obtain s getg putg w t keys g where d: "r_governor R = Some (getg, putg)" "sound R ok (s\<lparr>rs_world := w\<rparr>)"
    "acquire_all (default_jitter (r_draw R w)) (inst t) keys (getg w) = (g, Some d)"
    using assms(2) unfolding deferred_by_def by blast
  then have "ok w" using assms(1) by (simp add: sound_def configured_def)
  then have "healthy (getg w)" "fair (r_draw R w)"
    using d(1) assms(1) by (simp_all add: configured_def safe_world_def)
  from healthy_requeue[OF this d(3)] show ?thesis ..
qed

section \<open>The passes that end for good\<close>

text \<open>The object was not found, its finalizer was removed, or it is paused.\<close>

fun explains :: "(err \<Rightarrow> bool) \<Rightarrow> 'p ev \<Rightarrow> bool" where
  "explains nf (ApiCall op b a r) =
     ((op = GetManaged \<and> (case r of None \<Rightarrow> False | Some e \<Rightarrow> nf e)) \<or> (op = RemoveFinalizer \<and> r = None))"
| "explains nf (Emitted _ _ reason _) = (reason = reason_paused)"
| "explains nf _ = False"

definition explained :: "('w, 'p, 'c) reconciler \<Rightarrow> ('w, 'p) rstate \<Rightarrow> bool" where
  "explained R s \<longleftrightarrow> list_ex (explains (r_is_not_found R)) (rs_trace s)"

definition tells :: "('w, 'p, 'c) reconciler \<Rightarrow> (outcome \<Rightarrow> ('w, 'p) rstate \<Rightarrow> bool) \<Rightarrow> bool" where
  "tells R T \<longleftrightarrow> (\<forall>out s. comes_back out \<longrightarrow> T out s) \<and> (\<forall>out s. explained R s \<longrightarrow> T out s)"

lemma tells_back: "tells R T \<Longrightarrow> comes_back out \<Longrightarrow> T out s"
  unfolding tells_def by blast

lemma tells_explained: "tells R T \<Longrightarrow> explained R s \<Longrightarrow> T out s"
  unfolding tells_def by blast

lemma ends_anyway:
  assumes "ends G (\<lambda>_ _. True) m" "\<And>s. wp m (\<lambda>_ _. True) T s"
  shows "ends G T m"
  using wp_conj[OF assms(1)[unfolded ends_def, rule_format] assms(2)]
  unfolding ends_def by (auto elim: wp_mono)

lemma sound_mg: "sound R ok s \<Longrightarrow> sound R ok (s\<lparr>rs_mg := m\<rparr>)"
  by (simp add: sound_def)

lemma ends_back: "tells R T \<Longrightarrow> comes_back out \<Longrightarrow> ends G T (stop out)"
  by (rule ends_stop) (rule tells_back)

lemma ends_conclude_back: "tells R T \<Longrightarrow> comes_back out \<Longrightarrow> ends (sound R ok) T (conclude R cs out)"
  by (rule world.k_conclude; erule tells_back; simp)

lemma conclude_back: "tells R T \<Longrightarrow> comes_back out \<Longrightarrow> wp (conclude R cs out) (\<lambda>_ _. True) T s"
  by (rule walk_conclude, erule tells_back) (simp split: option.split)

lemma ends_fetch:
  assumes "tells R T" shows "ends (sound R ok) T (fetch R)"
proof (rule ends_anyway)
  show "ends (sound R ok) (\<lambda>_ _. True) (fetch R)"
    unfolding fetch_def by (intro ending world.k_steps world.k_api ends_modify ends_stop; simp add: sound_mg)
  show "wp (fetch R) (\<lambda>_ _. True) T s" for s
    unfolding fetch_def
  proof (intro walk_andthen walk_modify walk_api walk_record_op walk_option walk_stop walk_ret, goal_cases)
    case (2 w mg e a)
    show ?case
    proof (cases "r_is_not_found R a")
      case True
      with 2 show ?thesis by (intro tells_explained[OF assms]) (simp add: explained_def)
    next
      case False
      then show ?thesis by (intro tells_back[OF assms]) simp
    qed
  qed simp
qed

lemma ends_check_paused:
  assumes "tells R T" shows "ends (sound R ok) T (check_paused R)"
proof (rule ends_anyway)
  show "ends (sound R ok) (\<lambda>_ _. True) (check_paused R)"
    unfolding check_paused_def by (intro ending world.k_steps world.k_conclude; simp)
  show "wp (check_paused R) (\<lambda>_ _. True) T s" for s
    unfolding check_paused_def
    by (intro walk TrueI) (rule tells_explained[OF assms], simp add: explained_def)
qed

lemma ends_finalize:
  assumes "tells R T" shows "ends (sound R ok) T (finalize R)"
proof (rule ends_anyway)
  show "ends (sound R ok) (\<lambda>_ _. True) (finalize R)"
    unfolding finalize_def by (intro ending world.k_steps world.k_api world.k_conclude ends_stop; simp)
  show "wp (finalize R) (\<lambda>_ _. True) T s" for s
    unfolding finalize_def
    by (intro walk_andthen walk_api walk_record_op walk_option walk_if walk_stop conclude_back[OF assms]
        tells_back[OF assms] tells_explained[OF assms]; simp add: explained_def)
qed

lemma ends_poll:
  assumes "configured R ok" "\<And>d. 0 < d \<Longrightarrow> ends (sound R ok) T (f d)"
  shows "ends (sound R ok) T (andthen (poll_interval R) f)"
  unfolding ends_def wp_andthen
proof (intro allI impI walk_poll_interval)
  fix s w d
  assume s: "sound R ok s" and p: "r_poll_hook R (rs_mg s) (r_poll_interval R) (rs_world s) = (w, d)"
  have "ok (rs_world s)" using s assms(1) by (simp add: sound_def configured_def)
  then have "0 < d" using configured_simps(2)[OF assms(1)] p by blast
  with assms(2) world.keep_poll[OF s p] show "wp (f d) (\<lambda>_. sound R ok) T (s\<lparr>rs_world := w\<rparr>)"
    by (simp add: ends_def)
qed

lemma ends_gated:
  assumes c: "configured R ok" and T: "tells R T" and "ends (sound R ok) T call"
  shows "ends (sound R ok) T (gated R k pristine call)"
  by (intro world.k_gated assms(3) tells_back[OF T]; simp add: configured_deferral[OF c])

text \<open>The stretches of the pass.\<close>

lemma ends_phases:
  assumes c: "configured R ok" and T: "tells R T"
  shows "ends (sound R ok) T (check_orphaned R)" "ends (sound R ok) T (mark_not_observed R e)"
    "ends (sound R ok) T check_ready_contract" "ends (sound R ok) T (resolve_handshake R unresolved ob)"
    "ends (sound R ok) T (check_observe_only R ob)" "ends (sound R ok) T (check_creation_grace R ob)"
    "ends (sound R ok) T (ensure_finalizer R)" "ends (sound R ok) T (mark_pending R)"
    "ends (sound R ok) T (create_failed R e)" "ends (sound R ok) T (create_succeeded R)"
    "ends (sound R ok) T (check_late_initialized R ob)" "ends (sound R ok) T (settle R)"
  unfolding check_orphaned_def mark_not_observed_def check_ready_contract_def resolve_handshake_def
    annotations_failed_def check_observe_only_def check_creation_grace_def ensure_finalizer_def
    mark_pending_def create_failed_def create_succeeded_def check_late_initialized_def settle_def
  by (intro ends_poll[OF c] ending world.k_steps world.k_api world.k_set_conds ends_back[OF T]
      ends_conclude_back[OF T] ends_finalize[OF T]; simp add: configured_simps[OF c])+

lemma ends_calls:
  assumes c: "configured R ok" and T: "tells R T"
  shows "ends (sound R ok) T (connect_client R pristine)"
    "ends (sound R ok) T (observe_external R k pristine unresolved cl)"
    "ends (sound R ok) T (delete_external R k pristine cl)" "ends (sound R ok) T (update_external R k pristine cl)"
  unfolding connect_client_def observe_external_def delete_external_def update_external_def
  by (intro ends_poll[OF c] ending ends_gated[OF c T] world.k_steps world.k_ext ends_back[OF T]
      ends_conclude_back[OF T] ends_phases(2)[OF c T]; simp)+

lemma ends_create_external:
  assumes c: "configured R ok" and T: "tells R T"
  shows "ends (sound R ok) T (create_external R k pristine cl)"
  unfolding create_external_def
  by (rule world.k_gate_then)
    (auto intro!: ending world.k_steps world.k_ext world.k_release world.k_defer ends_phases[OF c T]
      tells_back[OF T] simp: configured_deferral[OF c])

lemma ends_with_client:
  assumes c: "configured R ok" and T: "tells R T"
  shows "ends (sound R ok) T (with_client R pristine unresolved cl)"
  unfolding with_client_def check_deleted_def check_create_def check_settled_def
  by (intro ending ends_phases[OF c T] ends_calls[OF c T] ends_create_external[OF c T] ends_finalize[OF T])

lemma explained_cleanup:
  "explained R s \<Longrightarrow> explained R (release_slot R' s)" "explained R s \<Longrightarrow> explained R (disconnect R' s)"
  by (auto simp: explained_def release_slot_def disconnect_def release_once_def Let_def
      split: option.splits prod.splits)

lemma tells_cleanup:
  "tells R T \<Longrightarrow> tells R (\<lambda>r s. T r (release_slot R s))"
  "tells R T \<Longrightarrow> tells R (\<lambda>r s. T r (disconnect R s))"
  unfolding tells_def using explained_cleanup by blast+

lemma ends_pass:
  assumes c: "configured R ok" and T: "tells R T"
  shows "ends (sound R ok) T (pass R)"
  unfolding pass_def
  by (intro ending ends_fetch[OF T] ends_check_paused[OF T] ends_phases(1)[OF c T] ends_finally
      ends_calls(1)[OF c] ends_with_client[OF c] tells_cleanup(2) tells_cleanup(1) T
      world.keep_release world.keep_disconnect)

lemma explained_metrics: "explained R s \<Longrightarrow> explained R (fold log_ev es s)"
  by (induction es arbitrary: s) (simp_all add: explained_def)

lemma run_comes_back:
  assumes "configured R ok" "ok w" "reconcile R (begin_pass R w seen) = (s, out)"
  shows "comes_back out \<or> list_ex (explains (r_is_not_found R)) (rs_trace s)"
proof -
  obtain s' ms where p: "pass R (metered R (begin_pass R w seen)) = (s', Inl out)"
    "s = fold log_ev (map Metric ms) s'" using assms(3) by (rule reconcile_run)
  have "ends (sound R ok) (\<lambda>r s. comes_back r \<or> explained R s) (pass R)"
    by (rule ends_pass[OF assms(1)]) (simp add: tells_def)
  moreover have "sound R ok (metered R (begin_pass R w seen))"
    using assms(2) by (simp add: sound_def metered_def begin_pass_def)
  ultimately have "comes_back out \<or> explained R s'"
    using p(1) by (auto simp: ends_def wp_def dest!: spec[of _ "metered R (begin_pass R w seen)"])
  then show ?thesis using explained_metrics[of R s' "map Metric ms"] p(2) by (auto simp: explained_def)
qed

text \<open>
  C8: a pass never drops the object.  With positive intervals, a fair random source and a governor
  that stays healthy, every outcome is an error, a rate-limited requeue or a positive delay, except
  when the object was not found, when its finalizer was removed, or when it is paused.
\<close>

theorem pass_comes_back:
  assumes "configured R ok" "ok w" "reconcile R (begin_pass R w seen) = (s, out)"
  shows "comes_back out \<or> list_ex (explains (r_is_not_found R)) (rs_trace s)"
  by (rule run_comes_back[OF assms])

lemma demo_closed:
  fixes P :: "demo_world \<Rightarrow> bool"
  assumes "\<And>mg w. P w \<Longrightarrow> P (w\<lparr>dw_object := mg\<rparr>)"
  shows "outside_keeps throttled_demo P"
  using assms by (simp add: outside_keeps_def apis_def exts_def throttled_demo_def demo_def demo_store_def)

lemma throttled2_healthy: "healthy throttled2"
proof (rule reachable_healthy)
  show "gov_reachable two_workers throttled2 {#}"
    using gov2_new gov_steps.intros gov_step.observe unfolding gov_reachable_def throttled2_def by blast
qed (simp_all add: two_workers_def throttled2_sat)

theorem pass_comes_back_witness:
  "let (s, out) = reconcile throttled_demo (begin_pass throttled_demo (demo_start demo_object) [])
   in comes_back out \<or> list_ex (explains (\<lambda>_. False)) (rs_trace s)"
proof -
  let ?ok = "\<lambda>w. healthy (dw_governor w)"
  have "safe_world throttled_demo ?ok"
    by (simp add: safe_world_def demo_closed) (simp add: throttled_demo_def)
  then have c: "configured throttled_demo ?ok"
    by (simp add: configured_def) (simp add: throttled_demo_def demo_def fair_def)
  have o: "?ok (demo_start demo_object)" by (simp add: demo_start_def throttled2_healthy)
  have "r_is_not_found throttled_demo = (\<lambda>_. False)" by (simp add: throttled_demo_def demo_def)
  with pass_comes_back[OF c o] show ?thesis by (simp split: prod.split)
qed

end
