(* ===== verification/Pass_Books.thy ===== *)
theory Pass_Books
  imports Pass_Liveness
begin

text \<open>
  What a pass leaves in the governor and in the metrics, by the interface of \<open>Pass_Invariant\<close>.
\<close>

section \<open>The governor\<close>

text \<open>The slots a pass took and has not given back.\<close>

fun outstanding :: "'p ev list \<Rightarrow> tokens" where
  "outstanding [] = {#}"
| "outstanding (e # tr) =
     (case e of Took ks \<Rightarrow> add_mset ks (outstanding tr) | Gave ks \<Rightarrow> outstanding tr - {#ks#}
      | _ \<Rightarrow> outstanding tr)"

lemma outstanding_metrics [simp]: "outstanding (op_metrics R op b @ tr) = outstanding tr"
  by (simp add: op_metrics_def)

lemma valid_outstanding:
  "valid tr \<Longrightarrow> outstanding tr = (case open_slot tr of None \<Rightarrow> {#} | Some ks \<Rightarrow> {#ks#})"
  by (induction tr) (auto split: ev.splits)

text \<open>
  The governor is a field of the world, as are the slots \<open>oth\<close> that other workers hold.  What happens
  outside the pass, while its calls run, keeps the books: other workers come and go, signals and
  samples arrive, and the counters go on counting the slots of the others and of the pass.
\<close>

definition keeps_books ::
  "('w, 'p, 'c) reconciler \<Rightarrow> ('w \<Rightarrow> governor) \<Rightarrow> (governor \<Rightarrow> 'w \<Rightarrow> 'w) \<Rightarrow> ('w \<Rightarrow> tokens) \<Rightarrow> bool" where
  "keeps_books R getg putg oth \<longleftrightarrow> r_governor R = Some (getg, putg) \<and> (\<forall>g w. getg (putg g w) = g)
     \<and> (\<forall>g w. oth (putg g w) = oth w) \<and> (\<forall>own. outside_keeps R (\<lambda>w. gov_ok (getg w) (oth w + own)))"

definition balanced ::
  "('w, 'p, 'c) reconciler \<Rightarrow> ('w \<Rightarrow> governor) \<Rightarrow> (governor \<Rightarrow> 'w \<Rightarrow> 'w) \<Rightarrow> ('w \<Rightarrow> tokens)
     \<Rightarrow> ('w, 'p) rstate \<Rightarrow> bool" where
  "balanced R getg putg oth s \<longleftrightarrow> (keeps_books R getg putg oth \<longrightarrow>
     gov_ok (getg (rs_world s)) (oth (rs_world s) + outstanding (rs_trace s))
     \<and> (\<forall>ks. rs_slot s = Some ks \<longrightarrow> ks \<in># outstanding (rs_trace s)))"

lemma balanced_step:
  assumes "balanced R getg putg oth s" "rs_slot s' = rs_slot s" "outstanding (rs_trace s') = outstanding (rs_trace s)"
    and "\<And>own. outside_keeps R (\<lambda>w. gov_ok (getg w) (oth w + own)) \<Longrightarrow>
      gov_ok (getg (rs_world s)) (oth (rs_world s) + own) \<Longrightarrow> gov_ok (getg (rs_world s')) (oth (rs_world s') + own)"
  shows "balanced R getg putg oth s'"
  using assms by (auto simp: balanced_def keeps_books_def)

lemma balanced_granted:
  assumes "balanced R getg' putg' oth s" "r_governor R = Some (getg, putg)"
    and "acquire_all (default_jitter draw) now keys (getg (rs_world s)) = (g, None)"
  shows "balanced R getg' putg' oth (log_ev (Took (normalize_keys keys))
    (s\<lparr>rs_world := putg g (rs_world s), rs_slot := Some (normalize_keys keys)\<rparr>))"
proof -
  have "keeps_books R getg' putg' oth \<Longrightarrow> gov_ok g (oth (rs_world s) + add_mset (normalize_keys keys) (outstanding (rs_trace s)))"
    using assms gate.ask_granted[of "getg (rs_world s)" "oth (rs_world s) + outstanding (rs_trace s)"]
    by (auto simp: balanced_def keeps_books_def)
  then show ?thesis using assms by (auto simp: balanced_def keeps_books_def)
qed

lemma balanced_deferred:
  assumes "balanced R getg' putg' oth s" "r_governor R = Some (getg, putg)"
    and "acquire_all (default_jitter draw) now keys (getg (rs_world s)) = (g, Some d)"
  shows "balanced R getg' putg' oth (log_ev (Deferred d (rs_mg s)) (s\<lparr>rs_world := putg g (rs_world s)\<rparr>))"
  using assms gate.ask_deferred[of "getg (rs_world s)" "oth (rs_world s) + outstanding (rs_trace s)"]
  by (auto simp: balanced_def keeps_books_def)

lemma balanced_release:
  assumes "balanced R getg putg oth s"
  shows "balanced R getg putg oth (release_slot R s)"
proof (cases "r_governor R = Some (getg, putg) \<and> rs_slot s \<noteq> None")
  case True
  then obtain ks where ks: "rs_slot s = Some ks" by blast
  show ?thesis unfolding balanced_def
  proof (intro impI)
    assume b: "keeps_books R getg putg oth"
    then have "gov_ok (getg (rs_world s)) (oth (rs_world s) + outstanding (rs_trace s))" "ks \<in># outstanding (rs_trace s)"
      using assms ks by (auto simp: balanced_def)
    then have "gov_ok (release ks (getg (rs_world s))) (oth (rs_world s) + (outstanding (rs_trace s) - {#ks#}))"
      using gate.given_back[of "getg (rs_world s)" "oth (rs_world s) + outstanding (rs_trace s)" ks] by simp
    then show "gov_ok (getg (rs_world (release_slot R s))) (oth (rs_world (release_slot R s)) + outstanding (rs_trace (release_slot R s)))
        \<and> (\<forall>ks'. rs_slot (release_slot R s) = Some ks' \<longrightarrow> ks' \<in># outstanding (rs_trace (release_slot R s)))"
      using True ks b by (simp add: release_slot_def release_once_def keeps_books_def)
  qed
next
  case False
  then show ?thesis using assms by (auto simp: balanced_def keeps_books_def release_slot_def split: option.split)
qed

lemmas books_keepD = outside_keepsD[where P = "\<lambda>w. gov_ok (getg w) (oth w + own)" for getg oth own]

interpretation books: pass_invariant R "balanced R getg putg oth"
  for R :: "('w, 'p, 'c) reconciler" and getg putg oth
proof (unfold_locales, goal_cases api ext connect observe clock poll mg errs emit metrics granted deferred release disconnect)
  case api
  from api(1) show ?case by (rule balanced_step) (simp_all add: books_keepD(1)[OF _ _ api(2,3)])
next
  case ext
  from ext(1) show ?case by (rule balanced_step) (simp_all add: books_keepD(2)[OF _ _ ext(2,3)])
next
  case connect
  from connect(1) show ?case by (rule balanced_step) (simp_all add: books_keepD(3)[OF _ _ connect(2)])
next
  case observe
  from observe(1) show ?case by (rule balanced_step) (simp_all add: books_keepD(4)[OF _ _ observe(2)])
next
  case clock
  from clock(1) show ?case by (rule balanced_step) (simp_all add: books_keepD(6)[OF _ _ clock(2)])
next
  case poll
  from poll(1) show ?case by (rule balanced_step) (simp_all add: books_keepD(7)[OF _ _ poll(2)])
next
  case granted then show ?case by (rule balanced_granted)
next
  case deferred then show ?case by (rule balanced_deferred)
next
  case release then show ?case by (rule balanced_release)
next
  case (disconnect s)
  then show ?case
    by (rule balanced_step) (auto simp: disconnect_def Let_def split: prod.split option.split
        dest: books_keepD(5))
qed (erule balanced_step; simp)+

lemma fold_log_world: "rs_world (fold log_ev es s) = rs_world s"
  by (induction es arbitrary: s) simp_all

lemma run_balanced:
  assumes "keeps_books R getg putg oth" "gov_ok (getg w) (oth w)" "reconcile R (begin_pass R w seen) = (s, out)"
  shows "gov_ok (getg (rs_world s)) (oth (rs_world s))"
proof -
  obtain s' ms where p: "pass R (metered R (begin_pass R w seen)) = (s', Inl out)"
    "s = fold log_ev (map Metric ms) s'" "closed s'" using assms(3) by (rule reconcile_run)
  have "balanced R getg putg oth (metered R (begin_pass R w seen))"
    using assms(2) by (simp add: balanced_def metered_def begin_pass_def)
  then have "balanced R getg putg oth s'" using books.pass_keeps p(1) by blast
  moreover have "outstanding (rs_trace s') = {#}"
    using p(3) valid_outstanding[of "rs_trace s'"] by (simp add: closed_def)
  ultimately have "gov_ok (getg (rs_world s')) (oth (rs_world s'))" using assms(1) by (simp add: balanced_def)
  then show ?thesis by (simp add: p(2) fold_log_world)
qed

text \<open>
  C9: a pass leaves in the governor's books what other workers hold, and nothing of its own.  On a governor
  whose counters count the calls of the other workers, while those come and go and signals and samples
  arrive during the calls of the pass, the counters count, on every way out of the pass, exactly the calls
  that the other workers then have in flight.
\<close>

theorem pass_balances_governor:
  assumes "keeps_books R getg putg oth" "gov_ok (getg w) (oth w)" "reconcile R (begin_pass R w seen) = (s, out)"
  shows "g_local_in_flight (getg (rs_world s)) = int (size (oth (rs_world s)))
    \<and> ks_in_flight (key_state_of (getg (rs_world s)) k) = users k (oth (rs_world s))"
  using run_balanced[OF assms] by (simp add: gov_ok_def key_ok_def)

theorem pass_balances_governor_witness:
  "let s = fst (reconcile throttled_demo (begin_pass throttled_demo
       ((demo_start demo_object)\<lparr>dw_governor := busy2\<rparr>) []))
   in g_local_in_flight (dw_governor (rs_world s)) = 1 \<and> ks_in_flight (key_state_of (dw_governor (rs_world s)) ''a'') = 1"
proof -
  let ?w = "(demo_start demo_object)\<lparr>dw_governor := busy2\<rparr>"
  have k: "keeps_books throttled_demo dw_governor (\<lambda>g w. w\<lparr>dw_governor := g\<rparr>) (\<lambda>_. {#[''a'']#})"
    by (simp add: keeps_books_def demo_closed) (simp add: throttled_demo_def)
  have g: "gov_ok (dw_governor ?w) {#[''a'']#}"
    using gov_reachable_ok[OF busy2_reachable] by (simp add: two_workers_def)
  obtain s out where r: "reconcile throttled_demo (begin_pass throttled_demo ?w []) = (s, out)"
    by (metis surj_pair)
  show ?thesis
    using pass_balances_governor[OF k g r, of "''a''"] by (simp add: r Let_def users_def)
qed

text \<open>Whatever another worker does by the governor's operations keeps the books with the slots of the pass.\<close>

lemma gov_step_frame: "gov_step (g, ts) (g', ts') \<Longrightarrow> gov_step (g, ts + own) (g', ts' + own)"
proof (erule gov_stepE, goal_cases)
  case (3 t)
  then show ?case using gov_step.released[of t "ts + own" g] by (simp add: subset_mset.add_diff_assoc2)
qed (simp_all add: gov_step.intros)

lemma others_keep_books:
  assumes "gov_step (g, oth) (g', oth')" "gov_ok g (oth + own)"
  shows "gov_ok g' (oth' + own)"
  using gov_step_ok[OF gov_step_frame[OF assms(1)] assms(2)] .

section \<open>Metrics\<close>

text \<open>The metrics a trace records, the earliest first, those of single operations left out.\<close>

fun of_outcome :: "metric \<Rightarrow> bool" where
  "of_outcome (Duration _) = False"
| "of_outcome (Failure _) = False"
| "of_outcome _ = True"

fun outcome_metrics :: "'p ev list \<Rightarrow> metric list" where
  "outcome_metrics [] = []"
| "outcome_metrics (e # tr) =
     outcome_metrics tr @ (case e of Metric m \<Rightarrow> if of_outcome m then [m] else [] | _ \<Rightarrow> [])"

definition metered_by :: "metric list \<Rightarrow> ('w, 'p) rstate \<Rightarrow> bool" where
  "metered_by ms s \<longleftrightarrow> outcome_metrics (rs_trace s) = ms"

lemma outcome_op_metrics [simp]: "outcome_metrics (op_metrics R op b @ tr) = outcome_metrics tr"
  by (simp add: op_metrics_def)

interpretation meters: pass_invariant R "metered_by ms" for R :: "('w, 'p, 'c) reconciler" and ms
  by unfold_locales
    (auto simp: metered_by_def release_slot_def release_once_def disconnect_def Let_def
      split: option.split prod.split)

lemma outcome_metrics_fold:
  "outcome_metrics (rs_trace (fold log_ev (map Metric ms) s)) = outcome_metrics (rs_trace s) @ filter of_outcome ms"
  by (induction ms arbitrary: s) simp_all

lemma run_metrics:
  assumes "reconcile R (begin_pass R w seen) = (s, out)"
  shows "outcome_metrics (rs_trace s) =
    (if r_metrics R then [InFlight 1, ReconcileDuration]
       @ (if snd out \<noteq> None then [ReconcileFailure, ErrorRequeue]
          else ReconcileSuccess # (if 0 < res_after (fst out) then [AfterRequeue]
            else if res_requeue (fst out) then [ImmediateRequeue] else [])) @ [InFlight (- 1)]
     else [])"
proof -
  obtain s' ms where p: "pass R (metered R (begin_pass R w seen)) = (s', Inl out)"
    "s = fold log_ev (map Metric ms) s'"
    "ms = (if r_metrics R then [ReconcileDuration]
       @ (if snd out \<noteq> None then [ReconcileFailure, ErrorRequeue]
          else ReconcileSuccess # (if res_after (fst out) > 0 then [AfterRequeue]
            else if res_requeue (fst out) then [ImmediateRequeue] else [])) @ [InFlight (- 1)] else [])"
    using assms by (rule reconcile_run)
  have "metered_by (if r_metrics R then [InFlight 1] else []) (metered R (begin_pass R w seen))"
    by (simp add: metered_by_def metered_def begin_pass_def)
  then have "metered_by (if r_metrics R then [InFlight 1] else []) s'"
    using meters.pass_keeps p(1) by blast
  then show ?thesis by (auto simp: metered_by_def p(2,3) outcome_metrics_fold)
qed

text \<open>
  the metrics of a pass.  With metrics on, a pass counts itself in flight, and then out, once,
  times itself once, and records a success or a failure with its requeue as its outcome was;
  with metrics off it records nothing of these.
\<close>

theorem pass_metrics:
  assumes "reconcile R (begin_pass R w seen) = (s, out)"
  shows "outcome_metrics (rs_trace s) =
    (if r_metrics R then [InFlight 1, ReconcileDuration]
       @ (if snd out \<noteq> None then [ReconcileFailure, ErrorRequeue]
          else ReconcileSuccess # (if 0 < res_after (fst out) then [AfterRequeue]
            else if res_requeue (fst out) then [ImmediateRequeue] else [])) @ [InFlight (- 1)]
     else [])"
  by (rule run_metrics[OF assms])

theorem pass_metrics_witness:
  "ReconcileSuccess \<in> set (outcome_metrics (rs_trace (fst (demo_run (demo (Inr absent) None) demo_object))))
   \<or> ReconcileFailure \<in> set (outcome_metrics (rs_trace (fst (demo_run (demo (Inr absent) None) demo_object))))"
proof -
  have m: "r_metrics (demo (Inr absent) None)" by (simp add: demo_def)
  obtain s out where r: "demo_run (demo (Inr absent) None) demo_object = (s, out)"
    by (cases "demo_run (demo (Inr absent) None) demo_object") blast
  from pass_metrics[OF r[unfolded demo_run_def]] m r show ?thesis by auto
qed

end
