(* ===== verification/Api_Helpers.thy ===== *)
theory Api_Helpers
  imports Reconciler_State
begin

text \<open>
  The two helpers a reconciler is given by default for its writes to the API server:
  \<open>RetryingCriticalAnnotationUpdater\<close> (src/pkg/reconciler/api.go) and \<open>APIFinalizer\<close>
  (src/pkg/resource/api.go).  The client's \<open>Get\<close> and \<open>Update\<close> are arguments; \<open>retry.OnError\<close> is
  one too, known only by its documentation: it calls the function again while its error is
  retriable, up to a number of times.  \<open>Get\<close> is taken to replace the object's maps, as the
  manager's cached client does, so the annotations captured before it are not changed by it.
\<close>

section \<open>Retries\<close>

text \<open>The documented behaviour of \<open>retry.OnError\<close> with a backoff of \<open>n + 1\<close> steps.\<close>

fun attempts ::
  "nat \<Rightarrow> (err \<Rightarrow> bool) \<Rightarrow> ('s \<Rightarrow> 's \<times> err option) \<Rightarrow> 's \<Rightarrow> 's \<times> err option" where
  "attempts 0 retriable f s = f s"
| "attempts (Suc n) retriable f s =
     (case f s of
        (s', None) \<Rightarrow> (s', None)
      | (s', Some e) \<Rightarrow> if retriable e then attempts n retriable f s' else (s', Some e))"

type_synonym 's on_error = "(err \<Rightarrow> bool) \<Rightarrow> ('s \<Rightarrow> 's \<times> err option) \<Rightarrow> 's \<Rightarrow> 's \<times> err option"

definition retries :: "nat \<Rightarrow> 's on_error \<Rightarrow> bool" where
  "retries n retry \<longleftrightarrow> (\<forall>retriable f s. retry retriable f s = attempts n retriable f s)"

text \<open>\<open>k\<close> attempts in a row that failed with a retriable error.\<close>

inductive failed_tries ::
  "(err \<Rightarrow> bool) \<Rightarrow> ('s \<Rightarrow> 's \<times> err option) \<Rightarrow> nat \<Rightarrow> 's \<Rightarrow> 's \<Rightarrow> bool"
  for retriable f where
  none: "failed_tries retriable f 0 s s"
| again: "f s = (s1, Some e) \<Longrightarrow> retriable e \<Longrightarrow> failed_tries retriable f k s1 s2 \<Longrightarrow>
    failed_tries retriable f (Suc k) s s2"

text \<open>The retries end: the last attempt succeeded, failed for good, or was the last allowed.\<close>

lemma attempts_end:
  assumes "attempts n retriable f s = (s', r)"
  obtains k s1 where "k \<le> n" "failed_tries retriable f k s s1" "f s1 = (s', r)"
    "r = None \<or> (\<exists>e. r = Some e \<and> \<not> retriable e) \<or> k = n"
proof -
  have "\<exists>k s1. k \<le> n \<and> failed_tries retriable f k s s1 \<and> f s1 = (s', r)
      \<and> (r = None \<or> (\<exists>e. r = Some e \<and> \<not> retriable e) \<or> k = n)"
    using assms
  proof (induction n arbitrary: s)
    case 0
    then show ?case by (auto intro: failed_tries.none)
  next
    case (Suc n)
    obtain s1 x where f: "f s = (s1, x)" by fastforce
    show ?case
    proof (cases "\<exists>e. x = Some e \<and> retriable e")
      case True
      then obtain e where e: "x = Some e" "retriable e" by blast
      with Suc.prems f have "attempts n retriable f s1 = (s', r)" by simp
      from Suc.IH[OF this] obtain k s2 where "k \<le> n" "failed_tries retriable f k s1 s2" "f s2 = (s', r)"
        "r = None \<or> (\<exists>e. r = Some e \<and> \<not> retriable e) \<or> k = n" by blast
      with f e show ?thesis
        by (intro exI[of _ "Suc k"] exI[of _ s2]) (auto intro: failed_tries.again)
    next
      case False
      then show ?thesis using Suc.prems f
        by (intro exI[of _ 0] exI[of _ s]) (auto intro: failed_tries.none split: option.splits)
    qed
  qed
  with that show thesis by blast
qed

section \<open>Critical annotations\<close>

definition err_update_critical :: string where
  "err_update_critical = ''cannot update critical annotations''"

text \<open>One attempt: read the object anew, put the captured annotations on it, write it.\<close>

definition critical_attempt ::
  "('w, 'p) api \<Rightarrow> ('w, 'p) api \<Rightarrow> strmap option \<Rightarrow> 'p managed \<times> 'w
     \<Rightarrow> ('p managed \<times> 'w) \<times> err option" where
  "critical_attempt get upd a = (\<lambda>(mg, w).
     case get mg w of
       (w, mg, Some e) \<Rightarrow> ((mg, w), Some e)
     | (w, mg, None) \<Rightarrow> (let (w, mg, e) = upd (add_annotations mg a) w in ((mg, w), e)))"

definition update_critical_annotations ::
  "('p managed \<times> 'w) on_error \<Rightarrow> (err \<Rightarrow> bool) \<Rightarrow> ('w, 'p) api \<Rightarrow> ('w, 'p) api \<Rightarrow> ('w, 'p) api" where
  "update_critical_annotations retry api_status get upd mg w =
     (let ((mg, w), e) = retry (\<lambda>e. is_api_error api_status (Some e))
            (critical_attempt get upd (om_annotations mg)) (mg, w)
      in (w, mg, wrap e err_update_critical))"

section \<open>Finalizers through the API server\<close>

definition err_update_object :: string where "err_update_object = ''cannot update object''"

definition api_add_finalizer :: "('w, 'p) api \<Rightarrow> string \<Rightarrow> ('w, 'p) api" where
  "api_add_finalizer upd f mg w =
     (if finalizer_exists mg f then (w, mg, None)
      else let (w, mg, e) = upd (add_finalizer mg f) w in (w, mg, wrap e err_update_object))"

text \<open>\<open>None\<close> when \<open>meta.RemoveFinalizer\<close> panics, which it may on a repeated finalizer.\<close>

definition api_remove_finalizer ::
  "('w, 'p) api \<Rightarrow> (err \<Rightarrow> bool) \<Rightarrow> string \<Rightarrow> 'p managed \<Rightarrow> 'w \<Rightarrow> ('w \<times> 'p managed \<times> err option) option" where
  "api_remove_finalizer upd is_not_found f mg w =
     (if \<not> finalizer_exists mg f then Some (w, mg, None)
      else map_option (\<lambda>mg. let (w, mg, e) = upd mg w
             in (w, mg, wrap (ignore_not_found is_not_found e) err_update_object))
             (remove_finalizer mg f))"

definition nop_finalizer :: "('w, 'p) api" where
  "nop_finalizer mg w = (w, mg, None)"

section \<open>What a critical update wrote\<close>

lemma critical_attempt_ok:
  assumes "critical_attempt get upd a (mg, w) = ((mg', w'), None)"
  obtains w2 mg2 where "get mg w = (w2, mg2, None)" "upd (add_annotations mg2 a) w2 = (w', mg', None)"
  using assms by (auto simp: critical_attempt_def split: prod.splits option.splits)

lemma update_critical_ok:
  assumes "retries n retry" "update_critical_annotations retry st get upd mg w = (w', mg', None)"
  obtains mg1 w1 w2 mg2 where "get mg1 w1 = (w2, mg2, None)"
    "upd (add_annotations mg2 (om_annotations mg)) w2 = (w', mg', None)"
proof -
  obtain m' v' where r: "attempts n (\<lambda>e. is_api_error st (Some e))
      (critical_attempt get upd (om_annotations mg)) (mg, w) = ((m', v'), None)" "m' = mg'" "v' = w'"
    using assms by (auto simp: update_critical_annotations_def retries_def wrap_def with_message_def
        split: prod.splits option.splits)
  obtain k s1 where "critical_attempt get upd (om_annotations mg) s1 = ((mg', w'), None)"
    using attempts_end[OF r(1)] r(2,3) by metis
  with that show thesis by (cases s1) (auto elim: critical_attempt_ok)
qed

lemma wrap_None [simp]: "wrap e m = None \<longleftrightarrow> e = None"
  by (simp add: wrap_def with_message_def split: option.split)

end
