(* ===== verification/Api_Props.thy ===== *)
theory Api_Props
  imports Api_Helpers Demo
begin

text \<open>Properties of the default annotation updater and finalizer.\<close>

lemma critical_attempt_cases:
  assumes "critical_attempt get upd a (mg, w) = ((mg', w'), e)"
  obtains (unread) x where "get mg w = (w', mg', Some x)" "e = Some x"
  | (sent) w2 mg2 where "get mg w = (w2, mg2, None)" "upd (add_annotations mg2 a) w2 = (w', mg', e)"
  using assms by (auto simp: critical_attempt_def split: prod.splits option.splits)

text \<open>
  C24: a critical update is its last attempt.  After some number of attempts, at most \<open>n\<close>, that
  each failed with an error of the API server, one more is made, and it is the last because it
  succeeded, failed with an error that is not the server's, or no more are allowed.  The
  object and the world are as that attempt left them and the result is its error, wrapped: the one of its
  read, or what the server answered to the object as read in it, with every captured annotation put on
  it and no other annotation and no finalizer changed.
\<close>

theorem critical_update_persists:
  assumes "retries n retry" "update_critical_annotations retry st get upd mg w = (w', mg', r)"
  shows "\<exists>k mg1 w1 e'. k \<le> n
    \<and> failed_tries (\<lambda>e. is_api_error st (Some e)) (critical_attempt get upd (om_annotations mg)) k (mg, w) (mg1, w1)
    \<and> (e' = None \<or> (\<exists>e. e' = Some e \<and> \<not> st e) \<or> k = n)
    \<and> r = wrap e' err_update_critical
    \<and> ((\<exists>e. get mg1 w1 = (w', mg', Some e) \<and> e' = Some e)
       \<or> (\<exists>w2 mg2 new. get mg1 w1 = (w2, mg2, None) \<and> upd new w2 = (w', mg', e')
           \<and> object_meta.more new = object_meta.more mg2 \<and> om_finalizers new = om_finalizers mg2
           \<and> (\<forall>key. annotation new key = (case Mapping.lookup (map_norm (om_annotations mg)) key of
                 Some v \<Rightarrow> v | None \<Rightarrow> annotation mg2 key))))"
proof -
  let ?f = "critical_attempt get upd (om_annotations mg)" and ?p = "\<lambda>e. is_api_error st (Some e)"
  obtain x where x: "attempts n ?p ?f (mg, w) = ((mg', w'), x)" "r = wrap x err_update_critical"
    using assms by (auto simp: update_critical_annotations_def retries_def split: prod.splits)
  obtain k mg1 w1 where k: "k \<le> n" "failed_tries ?p ?f k (mg, w) (mg1, w1)" "?f (mg1, w1) = ((mg', w'), x)"
    "x = None \<or> (\<exists>e. x = Some e \<and> \<not> ?p e) \<or> k = n"
    using attempts_end[OF x(1)] by (metis surj_pair)
  have "(\<exists>e. get mg1 w1 = (w', mg', Some e) \<and> x = Some e)
     \<or> (\<exists>w2 mg2 new. get mg1 w1 = (w2, mg2, None) \<and> upd new w2 = (w', mg', x)
           \<and> object_meta.more new = object_meta.more mg2 \<and> om_finalizers new = om_finalizers mg2
           \<and> (\<forall>key. annotation new key = (case Mapping.lookup (map_norm (om_annotations mg)) key of
                 Some v \<Rightarrow> v | None \<Rightarrow> annotation mg2 key)))"
    using k(3)
  proof (cases rule: critical_attempt_cases)
    case (sent w2 mg2)
    then show ?thesis
      by (intro disjI2 exI[of _ w2] exI[of _ mg2] exI[of _ "add_annotations mg2 (om_annotations mg)"])
        (simp add: map_get_add_annotations split: option.split)
  qed simp
  moreover have "x = None \<or> (\<exists>e. x = Some e \<and> \<not> st e) \<or> k = n" using k(4) by (auto simp: is_api_error_def)
  ultimately show ?thesis using k(1,2) x(2) by blast
qed

text \<open>A server that holds one object, and \<open>retry.OnError\<close> with the default five steps.\<close>

definition server_read :: "(unit managed, unit) api" where
  "server_read mg w = (w, w, None)"

definition server_write :: "(unit managed, unit) api" where
  "server_write mg w = (mg, mg, None)"

definition default_retry :: "'s on_error" where
  "default_retry = attempts 4"

lemma default_retry_retries: "retries 4 default_retry"
  by (simp add: retries_def default_retry_def)

theorem critical_update_persists_witness:
  "let (w', mg', r) = update_critical_annotations default_retry (\<lambda>_. True) server_read server_write
       (set_create_succeeded demo_object noon) demo_object
   in r = None \<and> annotation w' key_create_succeeded = format_rfc3339 noon"
proof -
  let ?mg = "set_create_succeeded demo_object noon"
  obtain w' mg' r where u: "update_critical_annotations default_retry (\<lambda>_. True) server_read server_write
      ?mg demo_object = (w', mg', r)" by (rule prod_cases3)
  then have r: "r = None"
    by (simp add: update_critical_annotations_def default_retry_def critical_attempt_def server_read_def
        server_write_def numeral_eq_Suc Let_def)
  have l: "Mapping.lookup (map_norm (om_annotations ?mg)) key_create_succeeded = Some (format_rfc3339 noon)"
    by (simp add: set_create_succeeded_def add_annotations_def demo_object_def blank_meta_def
        object_meta.defs singleton_map_def map_norm_def lookup_update)
  from critical_update_persists[OF default_retry_retries u] r l
  have "annotation w' key_create_succeeded = format_rfc3339 noon"
    by (auto simp: server_write_def)
  with u r show ?thesis by simp
qed

text \<open>
  C10: the updater closes the create handshake on the server.  When the object carries the pending
  marker written before \<open>Create\<close> and the clock did not go back since, a critical update of its
  outcome that succeeds leaves the server with an object whose creation is resolved, whatever
  annotations the server had for it.
\<close>

theorem critical_stamp_resolves:
  assumes "retries n retry" "printable p" "printable t" "inst p \<le> inst t"
    and "Mapping.lookup (map_norm (om_annotations mg)) key_create_pending = Some (format_rfc3339 p)"
    and "update_critical_annotations retry st get upd
      (if ok then set_create_succeeded mg t else set_create_failed mg t) w = (w', mg', None)"
  shows "\<exists>new w2. upd new w2 = (w', mg', None) \<and> \<not> external_create_incomplete new
    \<and> (if ok then get_create_succeeded new else get_create_failed new) = stored_marker t"
proof -
  let ?mg = "if ok then set_create_succeeded mg t else set_create_failed mg t"
  obtain w2 mg2 where u: "upd (add_annotations mg2 (om_annotations ?mg)) w2 = (w', mg', None)"
    using update_critical_ok[OF assms(1,6)] by metis
  define new where "new = add_annotations mg2 (om_annotations ?mg)"
  have "Mapping.lookup (map_norm (om_annotations ?mg)) key =
      (if key = (if ok then key_create_succeeded else key_create_failed) then Some (format_rfc3339 t)
       else Mapping.lookup (map_norm (om_annotations mg)) key)" for key
    by (auto simp: marker_defs add_annotations_def singleton_map_def map_norm_def lookup_map_merge
        lookup_update' lookup_empty split: option.split)
  then have m: "annotation new key = (if key = (if ok then key_create_succeeded else key_create_failed)
      then format_rfc3339 t else case Mapping.lookup (map_norm (om_annotations mg)) key of
        Some v \<Rightarrow> v | None \<Rightarrow> annotation mg2 key)" for key
    unfolding new_def by (simp only: map_get_add_annotations) (simp split: option.split)
  have "get_create_pending new = stored_marker p"
    "(if ok then get_create_succeeded new else get_create_failed new) = stored_marker t"
    using assms(2,3,5) by (simp_all add: marker_defs(1-3) m marker_time_format)
  moreover from this have "\<not> external_create_incomplete new"
    using trunc_second_mono[OF assms(4)]
    by (auto simp: unresolved_is_incomplete[symmetric] markers.unresolved_iff stored_marker_def
        simp del: unresolved_is_incomplete split: if_splits)
  ultimately show ?thesis using u unfolding new_def by blast
qed

theorem critical_stamp_resolves_witness:
  "\<exists>new w2 w' mg'. server_write new w2 = (w', mg', None) \<and> \<not> external_create_incomplete new
    \<and> get_create_failed new = stored_marker noon"
proof -
  let ?mg = "set_create_pending demo_object noon"
  have n: "printable noon" by code_simp
  have l: "Mapping.lookup (map_norm (om_annotations ?mg)) key_create_pending = Some (format_rfc3339 noon)"
    by (simp add: set_create_pending_def add_annotations_def demo_object_def blank_meta_def
        object_meta.defs singleton_map_def map_norm_def lookup_update)
  obtain w' mg' where "update_critical_annotations default_retry (\<lambda>_. True) server_read server_write
      (if False then set_create_succeeded ?mg noon else set_create_failed ?mg noon) demo_object = (w', mg', None)"
    by (simp add: update_critical_annotations_def default_retry_def critical_attempt_def server_read_def
        server_write_def numeral_eq_Suc Let_def)
  from critical_stamp_resolves[OF default_retry_retries n n order.refl l this] show ?thesis by auto
qed

section \<open>The finalizer\<close>

lemma finalizer_exists_add: "finalizer_exists (add_finalizer ob f) f"
  by (auto simp: finalizer_exists_iff add_finalizer_def list_ex_iff)

end
