(* ===== verification/New_Reconciler.thy ===== *)
theory New_Reconciler
  imports Api_Helpers Reconcile Float64
begin

text \<open>
  \<open>NewReconciler\<close>, its options and defaults (src/pkg/reconciler/reconciler.go and ratelimit.go).
  A client is \<open>'c option\<close>: \<open>None\<close> is the \<open>NopClient\<close> of the default connecter.  An option changes the
  reconciler and, for the governor, which registers each reconciler, the world.  Options for logs,
  recorders and timeouts have no counterpart: what they set is not part of the model.
\<close>

section \<open>Connecters and clients\<close>

text \<open>The two interfaces a connecter or a client may implement to name its rate-limit keys.\<close>

record ('w, 'p) key_methods =
  km_keys :: "('w, 'p) keyer option"
  km_key :: "('p managed \<Rightarrow> 'w \<Rightarrow> err + string) option"

definition keyer_of :: "('w, 'p) key_methods \<Rightarrow> ('w, 'p) keyer option" where
  "keyer_of v =
     (case km_keys v of Some k \<Rightarrow> Some k
      | None \<Rightarrow> map_option (\<lambda>k mg w. case k mg w of Inl e \<Rightarrow> Inl e | Inr key \<Rightarrow> Inr [key]) (km_key v))"

record ('w, 'p) external_client =
  xc_observe :: "'p managed \<Rightarrow> 'w \<Rightarrow> 'w \<times> 'p managed \<times> (err + observation)"
  xc_create :: "('w, 'p) api"
  xc_update :: "('w, 'p) api"
  xc_delete :: "('w, 'p) api"
  xc_keys :: "('w, 'p) key_methods"

record ('w, 'p, 'c) connecter =
  cn_connect :: "'p managed \<Rightarrow> 'w \<Rightarrow> 'w \<times> 'p managed \<times> (err + 'c)"
  cn_client :: "'c \<Rightarrow> ('w, 'p) external_client"
  cn_keys :: "('w, 'p) key_methods"

definition no_observation :: observation where
  "no_observation = \<lparr>ob_exists = False, ob_up_to_date = False, ob_late_initialized = False, ob_diff = []\<rparr>"

definition no_keys :: "('w, 'p) key_methods" where
  "no_keys = \<lparr>km_keys = None, km_key = None\<rparr>"

definition nop_call :: "('w, 'p) api" where
  "nop_call mg w = (w, mg, None)"

definition nop_client :: "('w, 'p) external_client" where
  "nop_client = \<lparr>xc_observe = (\<lambda>mg w. (w, mg, Inr no_observation)), xc_create = nop_call,
     xc_update = nop_call, xc_delete = nop_call, xc_keys = no_keys\<rparr>"

definition nop_disconnect :: "'w \<Rightarrow> 'w \<times> err option" where
  "nop_disconnect w = (w, None)"

section \<open>Options\<close>

type_synonym ('w, 'p, 'c) reconciler_option =
  "('w, 'p, 'c option) reconciler \<times> 'w \<Rightarrow> ('w, 'p, 'c option) reconciler \<times> 'w"

definition with_poll_interval :: "duration \<Rightarrow> ('w, 'p, 'c) reconciler_option" where
  "with_poll_interval d = (\<lambda>(R, w). (R\<lparr>r_poll_interval := d\<rparr>, w))"

definition with_poll_interval_hook ::
  "('p managed \<Rightarrow> duration \<Rightarrow> 'w \<Rightarrow> 'w \<times> duration) \<Rightarrow> ('w, 'p, 'c) reconciler_option" where
  "with_poll_interval_hook h = (\<lambda>(R, w). (R\<lparr>r_poll_hook := h\<rparr>, w))"

text \<open>The jitter hook; \<open>rnd\<close> is \<open>rand.Float64\<close>.\<close>

definition poll_jitter :: "(f64 \<Rightarrow> int) \<Rightarrow> f64 \<Rightarrow> duration \<Rightarrow> duration \<Rightarrow> duration" where
  "poll_jitter oob x jitter interval =
     i64 (interval + f_trunc oob (f_mul (f_mul (f_add x (Fin (- 1 / 2))) (Fin 2)) (f_of_int jitter)))"

definition with_poll_jitter_hook ::
  "(f64 \<Rightarrow> int) \<Rightarrow> ('w \<Rightarrow> 'w \<times> f64) \<Rightarrow> duration \<Rightarrow> ('w, 'p, 'c) reconciler_option" where
  "with_poll_jitter_hook oob rnd jitter = with_poll_interval_hook
     (\<lambda>_ interval w. case rnd w of (w, x) \<Rightarrow> (w, poll_jitter oob x jitter interval))"

definition with_creation_grace_period :: "duration \<Rightarrow> ('w, 'p, 'c) reconciler_option" where
  "with_creation_grace_period d = (\<lambda>(R, w). (R\<lparr>r_creation_grace := d\<rparr>, w))"

definition with_create_recovery_grace_period :: "duration \<Rightarrow> ('w, 'p, 'c) reconciler_option" where
  "with_create_recovery_grace_period d = (\<lambda>(R, w). (R\<lparr>r_recovery_grace := d\<rparr>, w))"

definition with_create_recovery_reobserve_interval :: "duration \<Rightarrow> ('w, 'p, 'c) reconciler_option" where
  "with_create_recovery_reobserve_interval d = (\<lambda>(R, w). (R\<lparr>r_reobserve := d\<rparr>, w))"

definition client_of :: "('w, 'p, 'c) connecter \<Rightarrow> 'c option \<Rightarrow> ('w, 'p) external_client" where
  "client_of cn c = (case c of None \<Rightarrow> nop_client | Some c \<Rightarrow> cn_client cn c)"

definition with_external_connect_disconnecter ::
  "('w, 'p, 'c) connecter \<Rightarrow> ('w \<Rightarrow> 'w \<times> err option) \<Rightarrow> ('w, 'p, 'c) reconciler_option" where
  "with_external_connect_disconnecter cn disc = (\<lambda>(R, w).
     (R\<lparr>r_connect := (\<lambda>mg w. case cn_connect cn mg w of
            (w, mg, Inl e) \<Rightarrow> (w, mg, Inl e) | (w, mg, Inr c) \<Rightarrow> (w, mg, Inr (Some c))),
        r_disconnect := disc,
        r_observe := (\<lambda>c. xc_observe (client_of cn c)),
        r_create := (\<lambda>c. xc_create (client_of cn c)),
        r_ext_update := (\<lambda>c. xc_update (client_of cn c)),
        r_delete := (\<lambda>c. xc_delete (client_of cn c)),
        r_client_keyer := (\<lambda>c. keyer_of (xc_keys (client_of cn c))),
        r_keyer := keyer_of (cn_keys cn)\<rparr>, w))"

definition with_external_connecter :: "('w, 'p, 'c) connecter \<Rightarrow> ('w, 'p, 'c) reconciler_option" where
  "with_external_connecter cn = with_external_connect_disconnecter cn nop_disconnect"

definition with_critical_annotation_updater :: "('w, 'p) api \<Rightarrow> ('w, 'p, 'c) reconciler_option" where
  "with_critical_annotation_updater u = (\<lambda>(R, w). (R\<lparr>r_critical := u\<rparr>, w))"

definition with_finalizer :: "('w, 'p) api \<Rightarrow> ('w, 'p) api \<Rightarrow> ('w, 'p, 'c) reconciler_option" where
  "with_finalizer add remove = (\<lambda>(R, w). (R\<lparr>r_add_finalizer := add, r_remove_finalizer := remove\<rparr>, w))"

definition with_metrics :: "('w, 'p, 'c) reconciler_option" where
  "with_metrics = (\<lambda>(R, w). (R\<lparr>r_metrics := True\<rparr>, w))"

definition with_rate_limit_governor ::
  "(('w \<Rightarrow> governor) \<times> (governor \<Rightarrow> 'w \<Rightarrow> 'w)) option \<Rightarrow> ('w, 'p, 'c) reconciler_option" where
  "with_rate_limit_governor lens = (\<lambda>(R, w).
     (case lens of
        None \<Rightarrow> (R, w)
      | Some (getg, putg) \<Rightarrow>
          (R\<lparr>r_governor := Some (getg, putg)\<rparr>, putg (register_reconciler (getg w)) w)))"

section \<open>The constructor\<close>

definition finalizer_name :: string where "finalizer_name = ''finalizer.managedresource.krateo.io''"
definition default_poll_interval :: duration where "default_poll_interval = 60 * second"
definition default_grace_period :: duration where "default_grace_period = 30 * second"
definition default_recovery_grace :: duration where "default_recovery_grace = 120 * second"
definition default_reobserve :: duration where "default_reobserve = 15 * second"

definition default_poll_hook :: "'p managed \<Rightarrow> duration \<Rightarrow> 'w \<Rightarrow> 'w \<times> duration" where
  "default_poll_hook mg d w = (w, d)"

text \<open>
  What a manager gives: the client's operations, the scheme's blank object, and the tests on errors
  and objects of the Kubernetes libraries.  \<open>mn_panic\<close> is what a panic in a pass comes back as:
  the manager recovers it.
\<close>

record ('w, 'p) cluster =
  mn_new :: "'p managed"
  mn_get :: "('w, 'p) api"
  mn_update :: "('w, 'p) api"
  mn_status_update :: "('w, 'p) api"
  mn_retry :: "('p managed \<times> 'w) on_error"
  mn_api_status :: "err \<Rightarrow> bool"
  mn_is_conflict :: "err \<Rightarrow> bool"
  mn_is_not_found :: "err \<Rightarrow> bool"
  mn_deep_equal :: "'p managed \<Rightarrow> 'p managed \<Rightarrow> bool"
  mn_now :: "'w \<Rightarrow> 'w \<times> gotime"
  mn_draw :: "'w \<Rightarrow> int \<Rightarrow> int option"
  mn_panic :: err

definition managed_finalizer :: "('w, 'p) cluster \<Rightarrow> ('w, 'p) api" where
  "managed_finalizer m mg w =
     (case api_remove_finalizer (mn_update m) (mn_is_not_found m) finalizer_name mg w of
        Some r \<Rightarrow> r | None \<Rightarrow> (w, mg, Some (mn_panic m)))"

definition blank_reconciler :: "('w, 'p) cluster \<Rightarrow> ('w, 'p, 'c option) reconciler" where
  "blank_reconciler m =
     \<lparr>r_new = mn_new m, r_get = mn_get m, r_update = mn_update m, r_status_update = mn_status_update m,
      r_critical = update_critical_annotations (mn_retry m) (mn_api_status m) (mn_get m) (mn_update m),
      r_add_finalizer = api_add_finalizer (mn_update m) finalizer_name,
      r_remove_finalizer = managed_finalizer m,
      r_connect = (\<lambda>mg w. (w, mg, Inr None)), r_disconnect = nop_disconnect,
      r_observe = (\<lambda>_. xc_observe nop_client), r_create = (\<lambda>_. xc_create nop_client),
      r_ext_update = (\<lambda>_. xc_update nop_client), r_delete = (\<lambda>_. xc_delete nop_client),
      r_keyer = None, r_client_keyer = (\<lambda>_. None), r_governor = None,
      r_now = mn_now m, r_draw = mn_draw m, r_is_conflict = mn_is_conflict m,
      r_is_not_found = mn_is_not_found m, r_deep_equal = mn_deep_equal m, r_metrics = False,
      r_poll_interval = default_poll_interval, r_poll_hook = default_poll_hook,
      r_creation_grace = default_grace_period, r_recovery_grace = default_recovery_grace,
      r_reobserve = default_reobserve\<rparr>"

definition new_reconciler ::
  "('w, 'p) cluster \<Rightarrow> ('w, 'p, 'c) reconciler_option list \<Rightarrow> 'w \<Rightarrow> ('w, 'p, 'c option) reconciler \<times> 'w" where
  "new_reconciler m opts w = fold (\<lambda>opt. opt) opts (blank_reconciler m, w)"

end
