(* ===== verification/New_Props.thy ===== *)
theory New_Props
  imports New_Reconciler Pass_Liveness
begin

text \<open>Reconcilers as \<open>NewReconciler\<close> builds them.\<close>

section \<open>Sensible options\<close>

text \<open>
  \<open>keeps ok f\<close>: an operation on an object leaves a sound world sound.  An option is sensible when what
  it installs does, when its intervals are positive, and when a governor it installs is healthy in
  every sound world.
\<close>

definition keeps :: "('w \<Rightarrow> bool) \<Rightarrow> ('p managed \<Rightarrow> 'w \<Rightarrow> 'w \<times> 'x) \<Rightarrow> bool" where
  "keeps ok f \<longleftrightarrow> (\<forall>mg w. ok w \<longrightarrow> ok (fst (f mg w)))"

lemma keepsI: "(\<And>mg w. ok w \<Longrightarrow> ok (fst (f mg w))) \<Longrightarrow> keeps ok f"
  by (simp add: keeps_def)

lemma keepsD: "keeps ok f \<Longrightarrow> ok w \<Longrightarrow> f mg w = (w', x) \<Longrightarrow> ok w'"
  unfolding keeps_def by (metis fst_conv)

inductive sensible_option :: "('w \<Rightarrow> bool) \<Rightarrow> ('w, 'p, 'c) reconciler_option \<Rightarrow> bool" for ok where
  interval: "0 < d \<Longrightarrow> sensible_option ok (with_poll_interval d)"
| hook: "(\<And>d. keeps ok (\<lambda>mg. h mg d)) \<Longrightarrow> (\<And>mg d w. 0 < d \<Longrightarrow> 0 < snd (h mg d w)) \<Longrightarrow>
    sensible_option ok (with_poll_interval_hook h)"
| creation_grace: "sensible_option ok (with_creation_grace_period d)"
| recovery_grace: "sensible_option ok (with_create_recovery_grace_period d)"
| reobserve: "0 < d \<Longrightarrow> sensible_option ok (with_create_recovery_reobserve_interval d)"
| connecter: "keeps ok (cn_connect cn) \<Longrightarrow>
    (\<And>c. keeps ok (xc_observe (cn_client cn c)) \<and> keeps ok (xc_create (cn_client cn c))
       \<and> keeps ok (xc_update (cn_client cn c)) \<and> keeps ok (xc_delete (cn_client cn c))) \<Longrightarrow>
    (\<And>w. ok w \<Longrightarrow> ok (fst (disc w))) \<Longrightarrow>
    sensible_option ok (with_external_connect_disconnecter cn disc)"
| critical: "keeps ok u \<Longrightarrow> sensible_option ok (with_critical_annotation_updater u)"
| finalizer: "keeps ok add \<Longrightarrow> keeps ok remove \<Longrightarrow> sensible_option ok (with_finalizer add remove)"
| metrics: "sensible_option ok with_metrics"
| ungoverned: "sensible_option ok (with_rate_limit_governor None)"
| governed: "(\<And>w. ok w \<Longrightarrow> healthy (getg w)) \<Longrightarrow> (\<And>g w. ok w \<Longrightarrow> healthy g \<Longrightarrow> ok (putg g w)) \<Longrightarrow>
    sensible_option ok (with_rate_limit_governor (Some (getg, putg)))"

text \<open>What the manager must grant: calls that keep the world sound, retries that end, fair draws.\<close>

definition sensible_cluster :: "('w \<Rightarrow> bool) \<Rightarrow> ('w, 'p) cluster \<Rightarrow> bool" where
  "sensible_cluster ok m \<longleftrightarrow> keeps ok (mn_get m) \<and> keeps ok (mn_update m) \<and> keeps ok (mn_status_update m)
     \<and> (\<exists>n. retries n (mn_retry m)) \<and> (\<forall>w. ok w \<longrightarrow> ok (fst (mn_now m w)))
     \<and> (\<forall>w. ok w \<longrightarrow> fair (mn_draw m w))"

text \<open>A property of the state that one attempt keeps, all the retries keep.\<close>

lemma attempts_keep:
  assumes "\<And>s. P s \<Longrightarrow> P (fst (f s))" "P s"
  shows "P (fst (attempts n retriable f s))"
  using assms(2)
proof (induction n arbitrary: s)
  case (Suc n)
  then show ?case using assms(1)[OF Suc.prems] by (auto split: prod.split option.split)
qed (simp add: assms(1))

lemma critical_keeps:
  assumes "retries n retry" "keeps ok get" "keeps ok upd"
  shows "keeps ok (update_critical_annotations retry st get upd)"
proof -
  have one: "ok (snd (fst (critical_attempt get upd a s)))" if "ok (snd s)" for a s
  proof -
    obtain mg w where s: "s = (mg, w)" by fastforce
    obtain w2 mg2 r where g: "get mg w = (w2, mg2, r)" by (metis prod_cases3)
    obtain w3 x where u: "upd (add_annotations mg2 a) w2 = (w3, x)" by (metis surj_pair)
    have "ok w2" "ok w3" using that s keepsD[OF assms(2) _ g] keepsD[OF assms(3) _ u] by simp_all
    then show ?thesis by (simp add: critical_attempt_def s g u split: option.split prod.split)
  qed
  have "ok (snd (fst (attempts n rt (critical_attempt get upd a) (mg, w))))" if "ok w" for rt a mg w
    by (rule attempts_keep[where P = "\<lambda>s. ok (snd s)"]) (use one that in simp_all)
  then show ?thesis using assms(1)
    by (simp add: keeps_def update_critical_annotations_def retries_def split_beta Let_def)
qed

lemma finalizers_keep:
  assumes "keeps ok upd"
  shows "keeps ok (api_add_finalizer upd f)"
    "api_remove_finalizer upd nf f mg w = Some r \<Longrightarrow> ok w \<Longrightarrow> ok (fst r)"
  using assms by (auto simp: keeps_def api_add_finalizer_def api_remove_finalizer_def split_beta Let_def
      split: if_splits)

lemma managed_finalizer_keeps: "keeps ok (mn_update m) \<Longrightarrow> keeps ok (managed_finalizer m)"
  by (rule keepsI) (simp add: managed_finalizer_def finalizers_keep(2) split: option.split)

section \<open>The reconciler they build\<close>

text \<open>
  What each option keeps: the reconciler is configured for sound worlds, with a poll interval that is
  positive and stays so through its hook.
\<close>

definition well_set :: "('w \<Rightarrow> bool) \<Rightarrow> ('w, 'p) cluster \<Rightarrow> ('w, 'p, 'c) reconciler \<Rightarrow> bool" where
  "well_set ok m R \<longleftrightarrow> configured R ok \<and> 0 < r_poll_interval R
     \<and> (\<forall>mg d w. 0 < d \<longrightarrow> 0 < snd (r_poll_hook R mg d w)) \<and> r_is_not_found R = mn_is_not_found m"

lemma outside_keeps_iff:
  "outside_keeps R ok \<longleftrightarrow>
     keeps ok (r_get R) \<and> keeps ok (r_update R) \<and> keeps ok (r_status_update R) \<and> keeps ok (r_critical R)
     \<and> keeps ok (r_add_finalizer R) \<and> keeps ok (r_remove_finalizer R) \<and> keeps ok (r_connect R)
     \<and> (\<forall>c. keeps ok (r_create R c) \<and> keeps ok (r_ext_update R c) \<and> keeps ok (r_delete R c)
          \<and> keeps ok (r_observe R c))
     \<and> (\<forall>d. keeps ok (\<lambda>mg. r_poll_hook R mg d))
     \<and> (\<forall>w. ok w \<longrightarrow> ok (fst (r_disconnect R w)) \<and> ok (fst (r_now R w)))"
proof -
  have "(\<forall>f \<in> apis R \<union> exts R. \<forall>mg w. ok w \<longrightarrow> ok (fst (f mg w))) \<longleftrightarrow> (\<forall>f \<in> apis R \<union> exts R. keeps ok f)"
    by (simp only: keeps_def)
  then show ?thesis unfolding outside_keeps_def by (simp only:) (auto simp: apis_def exts_def keeps_def)
qed

lemmas well_set_defs = well_set_def configured_def safe_world_def outside_keeps_iff

lemma well_set_blank:
  assumes "sensible_cluster ok m"
  shows "well_set ok m (blank_reconciler m)"
proof -
  obtain n where n: "retries n (mn_retry m)" using assms by (auto simp: sensible_cluster_def)
  have k: "keeps ok (mn_get m)" "keeps ok (mn_update m)" "keeps ok (mn_status_update m)"
    and t: "\<forall>w. ok w \<longrightarrow> ok (fst (mn_now m w))" "\<forall>w. ok w \<longrightarrow> fair (mn_draw m w)"
    using assms by (simp_all add: sensible_cluster_def)
  have "keeps ok (\<lambda>(mg :: 'b managed) w. (w, mg, x :: 'x))" "keeps ok (\<lambda>(mg :: 'b managed) w. (w, d :: int))"
    "keeps ok (nop_call :: ('a, 'b) api)" for x d
    by (simp_all add: keeps_def nop_call_def)
  with k t critical_keeps[OF n k(1,2)] finalizers_keep(1)[OF k(2)] managed_finalizer_keeps[OF k(2)]
  show ?thesis
    by (simp add: well_set_defs blank_reconciler_def nop_client_def nop_disconnect_def
        default_poll_hook_def default_poll_interval_def default_reobserve_def) (simp add: keeps_def default_poll_hook_def)
qed

lemma client_keeps:
  assumes "\<And>c. keeps ok (xc_observe (cn_client cn c)) \<and> keeps ok (xc_create (cn_client cn c))
       \<and> keeps ok (xc_update (cn_client cn c)) \<and> keeps ok (xc_delete (cn_client cn c))"
  shows "keeps ok (xc_observe (client_of cn c))" "keeps ok (xc_create (client_of cn c))"
    "keeps ok (xc_update (client_of cn c))" "keeps ok (xc_delete (client_of cn c))"
  using assms by (simp_all add: client_of_def nop_client_def keeps_def nop_call_def split: option.split)

lemma connect_keeps:
  assumes "keeps ok (cn_connect cn)"
  shows "keeps ok (\<lambda>mg w. case cn_connect cn mg w of
      (w, mg, Inl e) \<Rightarrow> (w, mg, Inl e) | (w, mg, Inr c) \<Rightarrow> (w, mg, Inr (Some c)))"
proof (rule keepsI)
  fix mg :: "'b managed" and w assume "ok w"
  obtain w' mg' r where "cn_connect cn mg w = (w', mg', r)" by (metis prod_cases3)
  with keepsD[OF assms \<open>ok w\<close> this]
  show "ok (fst (case cn_connect cn mg w of
      (w, mg, Inl e) \<Rightarrow> (w, mg, Inl e) | (w, mg, Inr c) \<Rightarrow> (w, mg, Inr (Some c))))"
    by (simp split: sum.split)
qed

lemma option_keeps:
  assumes "sensible_option ok opt" "well_set ok m R"
  shows "well_set ok m (fst (opt (R, w)))"
  using assms(1)
proof cases
  case (connecter cn disc)
  then show ?thesis using assms(2) connect_keeps[of ok cn] client_keeps[of ok cn]
    by (simp add: well_set_defs with_external_connect_disconnecter_def)
qed (use assms(2) in \<open>simp_all add: well_set_defs with_poll_interval_def with_poll_interval_hook_def
    with_creation_grace_period_def with_create_recovery_grace_period_def
    with_create_recovery_reobserve_interval_def with_critical_annotation_updater_def
    with_finalizer_def with_metrics_def with_rate_limit_governor_def\<close>)

lemma options_keep:
  assumes "\<forall>opt \<in> set opts. sensible_option ok opt" "well_set ok m R"
  shows "well_set ok m (fst (fold (\<lambda>opt. opt) opts (R, w)))"
  using assms
proof (induction opts arbitrary: R w)
  case (Cons opt opts)
  then have "well_set ok m (fst (opt (R, w)))" using option_keeps by fastforce
  with Cons show ?case by (cases "opt (R, w)") simp
qed simp

lemma built_well_set:
  assumes "sensible_cluster ok m" "\<forall>opt \<in> set opts. sensible_option ok opt" "new_reconciler m opts w0 = (R, w1)"
  shows "well_set ok m R"
  using options_keep[OF assms(2) well_set_blank[OF assms(1)], of w0] assms(3)
  by (simp add: new_reconciler_def)

text \<open>
  A reconciler built by \<open>NewReconciler\<close> never drops an object.  With sensible options in any
  number and order, on a manager whose calls keep the world sound, every pass ends in an error, a
  requeue or a positive delay, unless the object is gone, released or paused.  The two helpers the
  constructor installs for the writes to the API server, with their retries, are part of it.
\<close>

theorem new_reconciler_comes_back:
  assumes "sensible_cluster ok m" "\<forall>opt \<in> set opts. sensible_option ok opt"
    and "new_reconciler m opts w0 = (R, w1)"
    and "ok w" "reconcile R (begin_pass R w seen) = (s, out)"
  shows "comes_back out \<or> list_ex (explains (mn_is_not_found m)) (rs_trace s)"
proof -
  have "well_set ok m R" by (rule built_well_set[OF assms(1-3)])
  then have "configured R ok" "r_is_not_found R = mn_is_not_found m" by (simp_all add: well_set_def)
  with run_comes_back[OF this(1) assms(4,5)] show ?thesis by simp
qed

definition demo_cluster :: "(demo_world, unit) cluster" where
  "demo_cluster =
     \<lparr>mn_new = demo_object, mn_get = (\<lambda>_ w. (w, dw_object w, None)), mn_update = demo_store,
      mn_status_update = demo_store, mn_retry = attempts 4, mn_api_status = (\<lambda>_. True),
      mn_is_conflict = (\<lambda>_. False), mn_is_not_found = (\<lambda>_. False), mn_deep_equal = (\<lambda>_ _. False),
      mn_now = (\<lambda>w. (w, Time (dw_now w) 0)), mn_draw = (\<lambda>_ _. None), mn_panic = new_err ''panic''\<rparr>"

definition demo_connecter :: "(demo_world, unit, unit) connecter" where
  "demo_connecter = \<lparr>cn_connect = (\<lambda>mg w. (w, mg, Inr ())), cn_client = (\<lambda>_. nop_client), cn_keys = no_keys\<rparr>"

definition demo_options :: "(demo_world, unit, unit) reconciler_option list" where
  "demo_options = [with_external_connect_disconnecter demo_connecter nop_disconnect,
     with_poll_interval second, with_create_recovery_reobserve_interval second,
     with_rate_limit_governor (Some (dw_governor, \<lambda>g w. w\<lparr>dw_governor := g\<rparr>)), with_metrics]"

theorem new_reconciler_comes_back_witness:
  "let (R, w1) = new_reconciler demo_cluster demo_options (demo_start demo_object);
       (s, out) = reconcile R (begin_pass R w1 [])
   in comes_back out \<or> list_ex (explains (\<lambda>_. False)) (rs_trace s)"
proof -
  let ?ok = "\<lambda>w. healthy (dw_governor w)"
  define N where "N = new_reconciler demo_cluster demo_options (demo_start demo_object)"
  have m: "sensible_cluster ?ok demo_cluster"
    by (auto simp: sensible_cluster_def keeps_def demo_cluster_def demo_store_def retries_def fair_def)
  have o: "\<forall>opt \<in> set demo_options. sensible_option ?ok opt"
    by (auto simp: demo_options_def demo_connecter_def keeps_def nop_client_def nop_call_def
        nop_disconnect_def intro!: sensible_option.intros)
  have w: "dw_governor (snd N) = register_reconciler throttled2"
    by (simp add: N_def demo_options_def new_reconciler_def demo_start_def with_metrics_def
        with_external_connect_disconnecter_def with_poll_interval_def
        with_create_recovery_reobserve_interval_def with_rate_limit_governor_def)
  have "gov_steps (gov2, {#}) (throttled2, {#})"
    unfolding throttled2_def by (rule gov_steps.step[OF gov_steps.refl gov_step.observe])
  moreover have "g_per_controller throttled2 = 2" "g_reconcilers throttled2 = 0"
    by (simp_all add: throttled2_def observe_signal_eq gov2_def two_workers_def off_saturation_def
        new_governor_def split: signal_kind.split)
  ultimately have "gov_reachable two_workers (register_reconciler throttled2) {#}"
    using gov_steps.step[OF _ gov_step.register] gov2_new by (fastforce simp: gov_reachable_def)
  then have "healthy (register_reconciler throttled2)"
    by (rule reachable_healthy) (simp_all add: two_workers_def throttled2_sat register_fields)
  then have "?ok (snd N)" by (simp add: w)
  moreover have "mn_is_not_found demo_cluster = (\<lambda>_. False)" by (simp add: demo_cluster_def)
  ultimately show ?thesis
    using new_reconciler_comes_back[OF m o, of "demo_start demo_object" "fst N" "snd N" "snd N" "[]"]
    by (simp add: N_def Let_def split_beta)
qed

end
