(* ===== verification/Backoff.thy ===== *)
theory Backoff
  imports Float64
begin

text \<open>
  The exponential limiter of src/pkg/workqueue/workqueue.go and the request limiter of
  src/pkg/ratelimiter/reconciler.go.  An operation of the limiter runs under its mutex, so it is
  one function; \<open>When\<close> reads the clock twice, at \<open>now\<close> and \<open>now'\<close>.  The conversion of a float out of
  the range of \<open>int64\<close> is the parameter \<open>oob\<close>.
\<close>

section \<open>The exponential limiter\<close>

record failure_request =
  fr_attempts :: int
  fr_last :: instant

record 'i backoff =
  bo_failures :: "('i, failure_request) mapping"
  bo_base :: duration
  bo_max :: duration

definition new_backoff :: "duration \<Rightarrow> duration \<Rightarrow> 'i backoff" where
  "new_backoff base cap = \<lparr>bo_failures = Mapping.empty, bo_base = base, bo_max = cap\<rparr>"

text \<open>\<open>r.failures[item]\<close>, the zero value when the key is missing.\<close>

definition failure_of :: "'i backoff \<Rightarrow> 'i \<Rightarrow> failure_request" where
  "failure_of l i = (case Mapping.lookup (bo_failures l) i of
     None \<Rightarrow> \<lparr>fr_attempts = 0, fr_last = 0\<rparr> | Some f \<Rightarrow> f)"

definition idle :: "'i backoff \<Rightarrow> instant \<Rightarrow> 'i \<Rightarrow> bool" where
  "idle l now i \<longleftrightarrow> i64 (2 * bo_max l) < time_sub now (fr_last (failure_of l i))"

definition backoff_delay :: "(f64 \<Rightarrow> int) \<Rightarrow> duration \<Rightarrow> duration \<Rightarrow> int \<Rightarrow> duration" where
  "backoff_delay oob base cap n =
     (let b = f_mul (f_of_int base) (round64 (pow2 n))
      in if f_less (Fin 9223372036854775808) b then cap
         else let calculated = f_trunc oob b in if calculated > cap then cap else calculated)"

definition backoff_when ::
  "(f64 \<Rightarrow> int) \<Rightarrow> instant \<Rightarrow> instant \<Rightarrow> 'i \<Rightarrow> 'i backoff \<Rightarrow> 'i backoff \<times> duration" where
  "backoff_when oob now now' i l =
     (case Mapping.lookup (bo_failures l) i of
        None \<Rightarrow>
          (l\<lparr>bo_failures := Mapping.update i \<lparr>fr_attempts = 1, fr_last = now\<rparr> (bo_failures l)\<rparr>, bo_base l)
      | Some f \<Rightarrow>
          if idle l now i then (l, 0)
          else (l\<lparr>bo_failures := Mapping.update i
                   \<lparr>fr_attempts = i64 (fr_attempts f + 1), fr_last = now'\<rparr> (bo_failures l)\<rparr>,
                backoff_delay oob (bo_base l) (bo_max l) (fr_attempts f)))"

definition num_requeues :: "'i \<Rightarrow> 'i backoff \<Rightarrow> int" where
  "num_requeues i l = fr_attempts (failure_of l i)"

definition backoff_forget :: "instant \<Rightarrow> 'i \<Rightarrow> 'i backoff \<Rightarrow> 'i backoff" where
  "backoff_forget now i l =
     (if idle l now i then l\<lparr>bo_failures := Mapping.delete i (bo_failures l)\<rparr> else l)"

section \<open>The request limiter\<close>

text \<open>
  \<open>ratelimiter.Reconciler\<close>: the items it has limited, over a limiter \<open>'l\<close> whose \<open>When\<close> and \<open>Forget\<close>
  are arguments.  A pass is \<open>Some\<close> of what the inner reconciler returned, a limited request \<open>None\<close>
  with its delay in the requeue; \<open>inner\<close> runs on the item and a world.
\<close>

record ('i, 'l) request_limiter =
  rl_limited :: "'i set"
  rl_limit :: 'l

definition limiter_when ::
  "('t \<Rightarrow> 'i \<Rightarrow> 'l \<Rightarrow> 'l \<times> duration) \<Rightarrow> 't \<Rightarrow> 'i \<Rightarrow> ('i, 'l) request_limiter
     \<Rightarrow> ('i, 'l) request_limiter \<times> duration" where
  "limiter_when lwhen t i rl =
     (if i \<in> rl_limited rl then (rl\<lparr>rl_limited := rl_limited rl - {i}\<rparr>, 0)
      else let (l, d) = lwhen t i (rl_limit rl);
               rl = rl\<lparr>rl_limit := l\<rparr>
           in (if d \<noteq> 0 then rl\<lparr>rl_limited := insert i (rl_limited rl)\<rparr> else rl, d))"

datatype 'r answer = Limited duration | Passed 'r

definition limiter_reconcile ::
  "('t \<Rightarrow> 'i \<Rightarrow> 'l \<Rightarrow> 'l \<times> duration) \<Rightarrow> ('t \<Rightarrow> 'i \<Rightarrow> 'l \<Rightarrow> 'l) \<Rightarrow> ('i \<Rightarrow> 'w \<Rightarrow> 'w \<times> 'r) \<Rightarrow> 't \<Rightarrow> 'i
     \<Rightarrow> ('i, 'l) request_limiter \<times> 'w \<Rightarrow> (('i, 'l) request_limiter \<times> 'w) \<times> 'r answer" where
  "limiter_reconcile lwhen lforget inner t i = (\<lambda>(rl, w).
     let (rl, d) = limiter_when lwhen t i rl
     in if d > 0 then ((rl, w), Limited d)
        else let rl = rl\<lparr>rl_limit := lforget t i (rl_limit rl)\<rparr>; (w, r) = inner i w
             in ((rl, w), Passed r))"

fun limiter_run ::
  "('t \<Rightarrow> 'i \<Rightarrow> 'l \<Rightarrow> 'l \<times> duration) \<Rightarrow> ('t \<Rightarrow> 'i \<Rightarrow> 'l \<Rightarrow> 'l) \<Rightarrow> ('i \<Rightarrow> 'w \<Rightarrow> 'w \<times> 'r) \<Rightarrow> ('t \<times> 'i) list
     \<Rightarrow> ('i, 'l) request_limiter \<times> 'w \<Rightarrow> (('i, 'l) request_limiter \<times> 'w) \<times> 'r answer list" where
  "limiter_run lwhen lforget inner [] s = (s, [])"
| "limiter_run lwhen lforget inner ((t, i) # rs) s =
     (let (s, a) = limiter_reconcile lwhen lforget inner t i s;
          (s, as) = limiter_run lwhen lforget inner rs s
      in (s, a # as))"

section \<open>The delay\<close>

text \<open>
  The backoff is exact: the base is an \<open>int64\<close> of at most 53 bits and not a power of two, so no
  product with a power of two is the one float at the edge of the range.
\<close>

definition sane_base :: "duration \<Rightarrow> bool" where
  "sane_base base \<longleftrightarrow> 0 < base \<and> base < 9007199254740992 \<and> \<not> base dvd 9223372036854775808"

lemma sane_not_edge: "sane_base base \<Longrightarrow> base * 2 ^ n \<noteq> 9223372036854775808"
  by (metis sane_base_def dvd_triv_left)

lemma backoff_delay_exact:
  assumes "sane_base base" "base \<le> cap" "cap \<le> max_int64"
  shows "backoff_delay oob base cap (int n) = min cap (base * 2 ^ n)"
proof -
  have b: "f_of_int base = Fin (of_int base)"
    using assms(1) by (intro f_of_int_exact) (simp_all add: sane_base_def)
  show ?thesis
  proof (cases "n \<le> 970")
    case True
    have "round64 (pow2 (int n)) = Fin (2 ^ n)"
      using round64_exact[of 1 "int n"] True by simp
    moreover have "round64 (of_int base * 2 ^ n) = Fin (of_int (base * 2 ^ n))"
      using round64_exact[of base "int n"] True assms(1) by (simp add: sane_base_def)
    ultimately have m: "f_mul (f_of_int base) (round64 (pow2 (int n))) = Fin (of_int (base * 2 ^ n))"
      by (simp add: b)
    have "(9223372036854775808 < (of_int (base * 2 ^ n) :: rat)) = (9223372036854775808 < base * 2 ^ n)"
      by (metis of_int_less_iff of_int_numeral)
    then have l: "f_less (Fin 9223372036854775808) (Fin (of_int (base * 2 ^ n))) = (9223372036854775808 < base * 2 ^ n)"
      by simp
    show ?thesis
    proof (cases "9223372036854775808 < base * 2 ^ n")
      case True
      then show ?thesis unfolding backoff_delay_def Let_def m l using assms(3) by simp
    next
      case False
      then have "base * 2 ^ n < 9223372036854775808" using sane_not_edge[OF assms(1), of n] by linarith
      moreover have "0 < base * 2 ^ n" using assms(1) by (simp add: sane_base_def)
      ultimately have "in_i64 (base * 2 ^ n)" by (simp add: in_i64_def)
      from f_trunc_int[OF this] False show ?thesis unfolding backoff_delay_def Let_def m l by simp
    qed
  next
    case False
    have pos: "1 \<le> base" using assms(1) by (simp add: sane_base_def)
    have big: "9223372036854775808 * 2 \<le> base * 2 ^ n"
    proof -
      have "(2::int) ^ 64 \<le> 2 ^ n" using False by (intro power_increasing) simp_all
      then have "1 * 2 ^ 64 \<le> base * 2 ^ n" using pos by (intro mult_mono) simp_all
      then show ?thesis by simp
    qed
    have e: "pow2 64 = 18446744073709551616" by (simp add: pow2_def)
    have up: "f_less (Fin 9223372036854775808) x" if "f_le (Fin (pow2 64)) x" for x
      using that by (cases x) (auto simp: e)
    have p: "f_le (Fin (pow2 64)) (round64 (pow2 (int n)))"
      using False by (intro round64_ge_pow2) (simp_all add: pow2_le_iff del: pow2_nat)
    have "f_less (Fin 9223372036854775808) (f_mul (f_of_int base) (round64 (pow2 (int n))))"
    proof (cases "round64 (pow2 (int n))")
      case (Fin r)
      then have "pow2 64 \<le> r" using p by simp
      moreover have "(1::rat) \<le> of_int base" using pos by (metis of_int_1 of_int_le_iff)
      ultimately have "1 * pow2 64 \<le> of_int base * r"
        by (intro mult_mono) (simp_all add: e)
      then have "f_le (Fin (pow2 64)) (round64 (of_int base * r))" by (intro round64_ge_pow2) simp_all
      then show ?thesis unfolding b Fin f_mul.simps by (rule up)
    next
      case NaN
      with p show ?thesis by (simp only: f_le.simps)
    next
      case (Inf s)
      have "(of_int base :: rat) \<noteq> 0" "\<not> (of_int base :: rat) < 0" using pos by auto
      then show ?thesis using p unfolding b Inf by simp
    qed
    then show ?thesis using big assms(3) by (simp add: backoff_delay_def Let_def)
  qed
qed

section \<open>Runs of failures\<close>

text \<open>
  A run of failures of an item: each \<open>When\<close> reads the clock twice, and calls of other items may come
  between.
\<close>

fun backoff_run ::
  "(f64 \<Rightarrow> int) \<Rightarrow> (instant \<times> instant \<times> 'i) list \<Rightarrow> 'i backoff \<Rightarrow> 'i backoff \<times> duration list" where
  "backoff_run oob [] l = (l, [])"
| "backoff_run oob ((now, now', i) # cs) l =
     (let (l, d) = backoff_when oob now now' i l; (l, ds) = backoff_run oob cs l in (l, d # ds))"

lemma backoff_when_fields [simp]:
  "bo_base (fst (backoff_when oob now now' i l)) = bo_base l"
  "bo_max (fst (backoff_when oob now now' i l)) = bo_max l"
  by (auto simp: backoff_when_def Let_def split: option.split)

lemma backoff_when_other:
  "i \<noteq> j \<Longrightarrow> Mapping.lookup (bo_failures (fst (backoff_when oob now now' i l))) j = Mapping.lookup (bo_failures l) j"
  by (auto simp: backoff_when_def Let_def Mapping.lookup_update_neq split: option.split)

text \<open>What the limiter has promised an item: how many delays it has handed out since it forgot it.\<close>

definition promised :: "'i backoff \<Rightarrow> 'i \<Rightarrow> nat \<Rightarrow> bool" where
  "promised l i n \<longleftrightarrow> (case Mapping.lookup (bo_failures l) i of
     None \<Rightarrow> n = 0 | Some f \<Rightarrow> 0 < n \<and> fr_attempts f = int n)"

lemma promised_next:
  assumes "promised l i n" "int n < max_int64" "n = 0 \<or> \<not> idle l now i"
  shows "promised (fst (backoff_when oob now now' i l)) i (Suc n)"
  using assms
  by (auto simp: promised_def backoff_when_def lookup_update i64_id in_i64_def Let_def split: option.splits)

lemma promised_delay:
  assumes "promised l i n" "n = 0 \<or> \<not> idle l now i"
    and "sane_base (bo_base l)" "bo_base l \<le> bo_max l" "bo_max l \<le> max_int64"
  shows "snd (backoff_when oob now now' i l) = min (bo_max l) (bo_base l * 2 ^ n)"
  using assms backoff_delay_exact[OF assms(3-5), of oob n]
  by (auto simp: promised_def backoff_when_def Let_def split: option.splits)

section \<open>The interface of a limiter\<close>

text \<open>
  What the request limiter relies on: the limiter keeps its invariant, and its delays are neither
  negative nor longer than its maximum.
\<close>

locale delay_limiter =
  fixes lwhen :: "'t \<Rightarrow> 'i \<Rightarrow> 'l \<Rightarrow> 'l \<times> duration" and lforget :: "'t \<Rightarrow> 'i \<Rightarrow> 'l \<Rightarrow> 'l"
    and ok :: "'l \<Rightarrow> bool" and cap :: duration
  assumes when_ok: "ok l \<Longrightarrow> lwhen t i l = (l', d) \<Longrightarrow> ok l' \<and> 0 \<le> d \<and> d \<le> cap"
    and forget_ok: "ok l \<Longrightarrow> ok (lforget t i l)"
begin

lemma reconcile_cases:
  assumes "ok (rl_limit rl)" "limiter_reconcile lwhen lforget inner t i (rl, w) = ((rl', w'), a)"
  shows "ok (rl_limit rl') \<and> rl_limited rl' - {i} = rl_limited rl - {i}
    \<and> (case a of
         Limited d \<Rightarrow> 0 < d \<and> d \<le> cap \<and> i \<notin> rl_limited rl \<and> i \<in> rl_limited rl' \<and> w' = w
       | Passed r \<Rightarrow> i \<notin> rl_limited rl' \<and> (w', r) = inner i w)"
proof (cases "i \<in> rl_limited rl")
  case True
  then show ?thesis using assms forget_ok
    by (auto simp: limiter_reconcile_def limiter_when_def split: prod.splits)
next
  case False
  obtain l d where l: "lwhen t i (rl_limit rl) = (l, d)" by fastforce
  have "ok l \<and> 0 \<le> d \<and> d \<le> cap" by (rule when_ok[OF assms(1) l])
  then show ?thesis using assms(2) False l forget_ok
    by (auto simp: limiter_reconcile_def limiter_when_def Let_def split: prod.splits if_splits)
qed

text \<open>Requests for other items neither clear nor set an item's mark.\<close>

lemma run_others:
  assumes "ok (rl_limit (fst s))" "limiter_run lwhen lforget inner rs s = (s', as)" "\<forall>(t, j) \<in> set rs. j \<noteq> i"
  shows "ok (rl_limit (fst s')) \<and> (i \<in> rl_limited (fst s') \<longleftrightarrow> i \<in> rl_limited (fst s))"
  using assms
proof (induction rs arbitrary: s as)
  case (Cons r rs)
  obtain t j where r: "r = (t, j)" by fastforce
  obtain rl w where s: "s = (rl, w)" by fastforce
  obtain rl1 w1 a where s1: "limiter_reconcile lwhen lforget inner t j (rl, w) = ((rl1, w1), a)"
    by (metis prod.collapse)
  obtain as1 where rest: "limiter_run lwhen lforget inner rs (rl1, w1) = (s', as1)"
    using Cons.prems(2) by (auto simp: r s s1 split: prod.splits)
  have k: "ok (rl_limit rl1)" "rl_limited rl1 - {j} = rl_limited rl - {j}"
    using reconcile_cases[OF _ s1] Cons.prems(1) by (simp_all add: s)
  then show ?case using Cons.IH[OF _ rest] Cons.prems(3) by (auto simp: r s)
qed simp

lemma limited_then_passed:
  assumes "ok (rl_limit rl)" "limiter_reconcile lwhen lforget inner t i (rl, w) = (s1, Limited d)"
    and "limiter_run lwhen lforget inner rs s1 = (s2, as)" "\<forall>(t, j) \<in> set rs. j \<noteq> i"
  shows "0 < d \<and> d \<le> cap \<and> snd s1 = w
    \<and> (\<exists>rl' w' r. limiter_reconcile lwhen lforget inner t' i s2 = ((rl', w'), Passed r) \<and> (w', r) = inner i (snd s2))"
proof -
  obtain rl1 w1 where s1: "s1 = (rl1, w1)" by fastforce
  have a: "ok (rl_limit rl1)" "0 < d" "d \<le> cap" "i \<in> rl_limited rl1" "w1 = w"
    using reconcile_cases[OF assms(1) assms(2)[unfolded s1]] by simp_all
  obtain rl2 w2 where s2: "s2 = (rl2, w2)" by fastforce
  have b: "ok (rl_limit rl2)" "i \<in> rl_limited rl2"
    using run_others[OF _ assms(3,4)] a(1,4) by (simp_all add: s1 s2)
  obtain rl3 w3 x where s3: "limiter_reconcile lwhen lforget inner t' i (rl2, w2) = ((rl3, w3), x)"
    by (metis prod.collapse)
  with reconcile_cases[OF b(1) s3] b(2) show ?thesis
    using a by (cases x) (auto simp: s1 s2)
qed

end

section \<open>The exponential limiter provides it\<close>

definition backoff_ok :: "'i backoff \<Rightarrow> bool" where
  "backoff_ok l \<longleftrightarrow> sane_base (bo_base l) \<and> bo_base l \<le> bo_max l \<and> bo_max l \<le> max_int64"

lemma backoff_delay_bounds:
  assumes "sane_base base" "base \<le> cap" "cap \<le> max_int64"
  shows "0 \<le> backoff_delay oob base cap n \<and> backoff_delay oob base cap n \<le> cap"
proof (cases "0 \<le> n")
  case True
  then show ?thesis using backoff_delay_exact[OF assms, of oob "nat n"] assms(1,2)
    by (auto simp: sane_base_def min_def)
next
  case False
  have "pow2 n \<le> pow2 0" unfolding pow2_le_iff using False by simp
  then obtain v where v: "round64 (pow2 n) = Fin v" "0 \<le> v" "v \<le> pow2 0"
    using round64_le_pow2[of "pow2 n" 0] by (auto simp: less_imp_le)
  have b: "f_of_int base = Fin (of_int base)" "0 < base" "base < 9007199254740992"
    using assms(1) by (simp_all add: sane_base_def f_of_int_exact)
  have "(of_int base :: rat) \<le> of_int 9007199254740992" using b(3) by (simp only: of_int_le_iff)
  then have "of_int base * v \<le> of_int 9007199254740992 * 1" using v b(2) by (intro mult_mono) (simp_all add: pow2_def)
  then have "of_int base * v \<le> pow2 53" by (simp add: pow2_def)
  then obtain r where r: "round64 (of_int base * v) = Fin r" "0 \<le> r" "r \<le> pow2 53"
    using round64_le_pow2[of "of_int base * v" 53] v(2) b(2) by auto
  then have "0 \<le> \<lfloor>r\<rfloor>" "\<lfloor>r\<rfloor> \<le> 9007199254740992"
    by (simp_all add: pow2_def floor_le_iff)
  then have "in_i64 \<lfloor>r\<rfloor>" by (simp add: in_i64_def)
  then have t: "f_trunc oob (Fin r) = \<lfloor>r\<rfloor>" using r(2) by (simp add: f_trunc_def Let_def)
  have "f_mul (f_of_int base) (round64 (pow2 n)) = Fin r" by (simp add: b(1) v(1) r(1))
  then show ?thesis unfolding backoff_delay_def Let_def
    using t \<open>0 \<le> \<lfloor>r\<rfloor>\<close> assms(2) b(2) by auto
qed

interpretation exponential: delay_limiter
  "\<lambda>(now, now'). backoff_when oob now now'" "\<lambda>(now, now'). backoff_forget now'"
  "\<lambda>l. backoff_ok l \<and> bo_max l = cap" cap
  for oob :: "f64 \<Rightarrow> int" and cap :: duration
proof (unfold_locales, goal_cases)
  case (1 l t i l' d)
  then have c: "sane_base (bo_base l)" "bo_base l \<le> bo_max l" "bo_max l \<le> max_int64" "bo_max l = cap"
    by (simp_all add: backoff_ok_def)
  note b = backoff_delay_bounds[OF c(1-3)]
  have "0 \<le> bo_base l" using c(1) by (simp add: sane_base_def)
  with 1 b c show ?case
    by (cases t) (auto simp: backoff_when_def backoff_ok_def Let_def split: option.splits if_splits)
next
  case (2 l t i)
  then show ?case by (auto simp: backoff_forget_def backoff_ok_def split: prod.split)
qed

end
