(* ===== verification/Queue_Wait.thy ===== *)
theory Queue_Wait
  imports Prelude "HOL-Library.AList"
begin

text \<open>
  The queue telemetry of src/pkg/controller/queue_wait.go: a wrapper around a work queue that
  records how long items wait and how many do.  The wrapped queue is outside the repository: its
  operations are the record \<open>queue_ops\<close>, on a queue of any type.  What the recorder is told is a
  list, the earliest first.  A Go map of times is an association list; its order never matters.
\<close>

section \<open>The wrapped queue\<close>

record ('i, 'o, 'q) queue_ops =
  qo_add :: "'i \<Rightarrow> 'q \<Rightarrow> 'q"
  qo_add_after :: "'i \<Rightarrow> duration \<Rightarrow> 'q \<Rightarrow> 'q"
  qo_add_rate_limited :: "'i \<Rightarrow> 'q \<Rightarrow> 'q"
  qo_get :: "'q \<Rightarrow> 'q \<times> 'i \<times> bool"
  qo_done :: "'i \<Rightarrow> 'q \<Rightarrow> 'q"
  qo_shut_down :: "'q \<Rightarrow> 'q"
  qo_shut_down_with_drain :: "'q \<Rightarrow> 'q"
  qo_shutting_down :: "'q \<Rightarrow> bool"
  qo_len :: "'q \<Rightarrow> int"
  qo_forget :: "'i \<Rightarrow> 'q \<Rightarrow> 'q"
  qo_num_requeues :: "'i \<Rightarrow> 'q \<Rightarrow> int"
  qo_add_with_opts :: "'o \<Rightarrow> 'i list \<Rightarrow> 'q \<Rightarrow> 'q"
  qo_get_with_priority :: "'q \<Rightarrow> 'q \<times> 'i \<times> int \<times> bool"

section \<open>State\<close>

datatype queue_event = Depth int | OldestAge duration | WaitTime duration | WorkTime duration

record ('i, 'q) queue_wait =
  qw_queue :: 'q
  qw_enqueued :: "('i \<times> instant) list"
  qw_started :: "('i \<times> instant) list"
  qw_recorded :: "queue_event list"

definition new_queue_wait :: "'q \<Rightarrow> ('i, 'q) queue_wait" where
  "new_queue_wait q = \<lparr>qw_queue = q, qw_enqueued = [], qw_started = [], qw_recorded = []\<rparr>"

definition tell :: "queue_event list \<Rightarrow> ('i, 'q) queue_wait \<Rightarrow> ('i, 'q) queue_wait" where
  "tell es s = s\<lparr>qw_recorded := qw_recorded s @ es\<rparr>"

definition oldest_item_age :: "instant \<Rightarrow> ('i, 'q) queue_wait \<Rightarrow> duration" where
  "oldest_item_age now s =
     fold (\<lambda>(_, started) oldest. if time_sub now started > oldest then time_sub now started else oldest)
       (qw_enqueued s) 0"

definition record_enqueue_at :: "'i \<Rightarrow> instant \<Rightarrow> ('i, 'q) queue_wait \<Rightarrow> ('i, 'q) queue_wait \<times> bool \<times> duration" where
  "record_enqueue_at i t s =
     (case map_of (qw_enqueued s) i of
        Some _ \<Rightarrow> (s, False, oldest_item_age t s)
      | None \<Rightarrow>
          (let s = s\<lparr>qw_enqueued := AList.update i t (qw_enqueued s)\<rparr>; age = oldest_item_age t s
           in (tell [Depth 1, OldestAge age] s, True, age)))"

definition record_dequeue_at ::
  "'i \<Rightarrow> instant \<Rightarrow> ('i, 'q) queue_wait \<Rightarrow> ('i, 'q) queue_wait \<times> duration \<times> duration \<times> bool" where
  "record_dequeue_at i t s =
     (case map_of (qw_enqueued s) i of
        None \<Rightarrow> (s, 0, oldest_item_age t s, False)
      | Some started \<Rightarrow>
          (let s = s\<lparr>qw_enqueued := AList.delete i (qw_enqueued s),
                     qw_started := AList.update i t (qw_started s)\<rparr>;
               age = oldest_item_age t s; waited = time_sub t started
           in (tell [Depth (- 1), WaitTime waited, OldestAge age] s, waited, age, True)))"

definition record_done_at :: "'i \<Rightarrow> instant \<Rightarrow> ('i, 'q) queue_wait \<Rightarrow> ('i, 'q) queue_wait \<times> duration \<times> bool" where
  "record_done_at i t s =
     (case map_of (qw_started s) i of
        None \<Rightarrow> (s, 0, False)
      | Some started \<Rightarrow>
          (let s = s\<lparr>qw_started := AList.delete i (qw_started s)\<rparr>; worked = time_sub t started
           in (tell [WorkTime worked] s, worked, True)))"

definition reset_state :: "('i, 'q) queue_wait \<Rightarrow> ('i, 'q) queue_wait \<times> int" where
  "reset_state s = (s\<lparr>qw_enqueued := [], qw_started := []\<rparr>, int (length (qw_enqueued s)))"

section \<open>The operations\<close>

definition on_queue :: "('q \<Rightarrow> 'q) \<Rightarrow> ('i, 'q) queue_wait \<Rightarrow> ('i, 'q) queue_wait" where
  "on_queue f s = s\<lparr>qw_queue := f (qw_queue s)\<rparr>"

definition qw_add :: "('i, 'o, 'q) queue_ops \<Rightarrow> instant \<Rightarrow> 'i \<Rightarrow> ('i, 'q) queue_wait \<Rightarrow> ('i, 'q) queue_wait" where
  "qw_add Q now i s = on_queue (qo_add Q i) (fst (record_enqueue_at i now s))"

definition qw_add_after ::
  "('i, 'o, 'q) queue_ops \<Rightarrow> instant \<Rightarrow> 'i \<Rightarrow> duration \<Rightarrow> ('i, 'q) queue_wait \<Rightarrow> ('i, 'q) queue_wait" where
  "qw_add_after Q now i d s = on_queue (qo_add_after Q i d) (fst (record_enqueue_at i now s))"

definition qw_add_rate_limited ::
  "('i, 'o, 'q) queue_ops \<Rightarrow> instant \<Rightarrow> 'i \<Rightarrow> ('i, 'q) queue_wait \<Rightarrow> ('i, 'q) queue_wait" where
  "qw_add_rate_limited Q now i s = on_queue (qo_add_rate_limited Q i) (fst (record_enqueue_at i now s))"

definition qw_add_with_opts ::
  "('i, 'o, 'q) queue_ops \<Rightarrow> instant \<Rightarrow> 'o \<Rightarrow> 'i list \<Rightarrow> ('i, 'q) queue_wait \<Rightarrow> ('i, 'q) queue_wait" where
  "qw_add_with_opts Q now opts is s =
     on_queue (qo_add_with_opts Q opts is) (fold (\<lambda>i s. fst (record_enqueue_at i now s)) is s)"

definition qw_get ::
  "('i, 'o, 'q) queue_ops \<Rightarrow> instant \<Rightarrow> ('i, 'q) queue_wait \<Rightarrow> ('i, 'q) queue_wait \<times> 'i \<times> bool" where
  "qw_get Q now s =
     (let (q, i, shutdown) = qo_get Q (qw_queue s); s = s\<lparr>qw_queue := q\<rparr>
      in (if \<not> shutdown then fst (record_dequeue_at i now s) else s, i, shutdown))"

definition qw_get_with_priority ::
  "('i, 'o, 'q) queue_ops \<Rightarrow> instant \<Rightarrow> ('i, 'q) queue_wait \<Rightarrow> ('i, 'q) queue_wait \<times> 'i \<times> int \<times> bool" where
  "qw_get_with_priority Q now s =
     (let (q, i, priority, shutdown) = qo_get_with_priority Q (qw_queue s); s = s\<lparr>qw_queue := q\<rparr>
      in (if \<not> shutdown then fst (record_dequeue_at i now s) else s, i, priority, shutdown))"

definition qw_done :: "('i, 'o, 'q) queue_ops \<Rightarrow> instant \<Rightarrow> 'i \<Rightarrow> ('i, 'q) queue_wait \<Rightarrow> ('i, 'q) queue_wait" where
  "qw_done Q now i s = on_queue (qo_done Q i) (fst (record_done_at i now s))"

definition qw_shut_down :: "('i, 'o, 'q) queue_ops \<Rightarrow> ('i, 'q) queue_wait \<Rightarrow> ('i, 'q) queue_wait" where
  "qw_shut_down Q s =
     (let (s, pending) = reset_state s
      in on_queue (qo_shut_down Q) (if pending > 0 then tell [Depth (- pending)] s else s))"

section \<open>Any operation\<close>

datatype ('i, 'o) queue_op =
    Add 'i | AddAfter 'i duration | AddRateLimited 'i | AddWithOpts 'o "'i list" | Get | GetWithPriority
  | Done 'i | ShutDown | ShutDownWithDrain | ShuttingDown | Len | Forget 'i | NumRequeues 'i

datatype 'i queue_res = NoRes | Got 'i "int option" bool | Flag bool | Num int

fun qw_step ::
  "('i, 'o, 'q) queue_ops \<Rightarrow> instant \<Rightarrow> ('i, 'o) queue_op \<Rightarrow> ('i, 'q) queue_wait
     \<Rightarrow> ('i, 'q) queue_wait \<times> 'i queue_res" where
  "qw_step Q now (Add i) s = (qw_add Q now i s, NoRes)"
| "qw_step Q now (AddAfter i d) s = (qw_add_after Q now i d s, NoRes)"
| "qw_step Q now (AddRateLimited i) s = (qw_add_rate_limited Q now i s, NoRes)"
| "qw_step Q now (AddWithOpts opts is) s = (qw_add_with_opts Q now opts is s, NoRes)"
| "qw_step Q now Get s = (case qw_get Q now s of (s, i, b) \<Rightarrow> (s, Got i None b))"
| "qw_step Q now GetWithPriority s =
     (case qw_get_with_priority Q now s of (s, i, p, b) \<Rightarrow> (s, Got i (Some p) b))"
| "qw_step Q now (Done i) s = (qw_done Q now i s, NoRes)"
| "qw_step Q now ShutDown s = (qw_shut_down Q s, NoRes)"
| "qw_step Q now ShutDownWithDrain s = (on_queue (qo_shut_down_with_drain Q) s, NoRes)"
| "qw_step Q now ShuttingDown s = (s, Flag (qo_shutting_down Q (qw_queue s)))"
| "qw_step Q now Len s = (s, Num (qo_len Q (qw_queue s)))"
| "qw_step Q now (Forget i) s = (on_queue (qo_forget Q i) s, NoRes)"
| "qw_step Q now (NumRequeues i) s = (s, Num (qo_num_requeues Q i (qw_queue s)))"

text \<open>The same operation on the queue itself.\<close>

fun plain_step :: "('i, 'o, 'q) queue_ops \<Rightarrow> ('i, 'o) queue_op \<Rightarrow> 'q \<Rightarrow> 'q \<times> 'i queue_res" where
  "plain_step Q (Add i) q = (qo_add Q i q, NoRes)"
| "plain_step Q (AddAfter i d) q = (qo_add_after Q i d q, NoRes)"
| "plain_step Q (AddRateLimited i) q = (qo_add_rate_limited Q i q, NoRes)"
| "plain_step Q (AddWithOpts opts is) q = (qo_add_with_opts Q opts is q, NoRes)"
| "plain_step Q Get q = (case qo_get Q q of (q, i, b) \<Rightarrow> (q, Got i None b))"
| "plain_step Q GetWithPriority q = (case qo_get_with_priority Q q of (q, i, p, b) \<Rightarrow> (q, Got i (Some p) b))"
| "plain_step Q (Done i) q = (qo_done Q i q, NoRes)"
| "plain_step Q ShutDown q = (qo_shut_down Q q, NoRes)"
| "plain_step Q ShutDownWithDrain q = (qo_shut_down_with_drain Q q, NoRes)"
| "plain_step Q ShuttingDown q = (q, Flag (qo_shutting_down Q q))"
| "plain_step Q Len q = (q, Num (qo_len Q q))"
| "plain_step Q (Forget i) q = (qo_forget Q i q, NoRes)"
| "plain_step Q (NumRequeues i) q = (q, Num (qo_num_requeues Q i q))"

fun qw_run ::
  "('i, 'o, 'q) queue_ops \<Rightarrow> (instant \<times> ('i, 'o) queue_op) list \<Rightarrow> ('i, 'q) queue_wait
     \<Rightarrow> ('i, 'q) queue_wait \<times> 'i queue_res list" where
  "qw_run Q [] s = (s, [])"
| "qw_run Q ((now, op) # ops) s =
     (let (s, r) = qw_step Q now op s; (s, rs) = qw_run Q ops s in (s, r # rs))"

fun plain_run ::
  "('i, 'o, 'q) queue_ops \<Rightarrow> (instant \<times> ('i, 'o) queue_op) list \<Rightarrow> 'q \<Rightarrow> 'q \<times> 'i queue_res list" where
  "plain_run Q [] q = (q, [])"
| "plain_run Q ((now, op) # ops) q =
     (let (q, r) = plain_step Q op q; (q, rs) = plain_run Q ops q in (q, r # rs))"

section \<open>Facts\<close>

lemma on_queue_fields [simp]:
  "qw_queue (on_queue f s) = f (qw_queue s)" "qw_enqueued (on_queue f s) = qw_enqueued s"
  "qw_started (on_queue f s) = qw_started s" "qw_recorded (on_queue f s) = qw_recorded s"
  by (simp_all add: on_queue_def)

lemma tell_fields [simp]:
  "qw_queue (tell es s) = qw_queue s" "qw_enqueued (tell es s) = qw_enqueued s"
  "qw_started (tell es s) = qw_started s" "qw_recorded (tell es s) = qw_recorded s @ es"
  by (simp_all add: tell_def)

lemma record_queue [simp]:
  "qw_queue (fst (record_enqueue_at i t s)) = qw_queue s"
  "qw_queue (fst (record_dequeue_at i t s)) = qw_queue s"
  "qw_queue (fst (record_done_at i t s)) = qw_queue s"
  "qw_queue (fst (reset_state s)) = qw_queue s"
  by (auto simp: record_enqueue_at_def record_dequeue_at_def record_done_at_def reset_state_def Let_def
      split: option.split)

lemma record_all_queue [simp]: "qw_queue (fold (\<lambda>i s. fst (record_enqueue_at i now s)) is s) = qw_queue s"
  by (induction "is" arbitrary: s) simp_all

lemmas qw_defs = qw_add_def qw_add_after_def qw_add_rate_limited_def qw_add_with_opts_def qw_get_def
  qw_get_with_priority_def qw_done_def qw_shut_down_def

lemma qw_step_plain: "(qw_queue (fst (qw_step Q now op s)), snd (qw_step Q now op s)) = plain_step Q op (qw_queue s)"
  by (cases op) (auto simp: qw_defs reset_state_def Let_def split: prod.split)

section \<open>The gauge\<close>

fun depth_change :: "queue_event \<Rightarrow> int" where
  "depth_change (Depth d) = d"
| "depth_change _ = 0"

definition gauge :: "('i, 'q) queue_wait \<Rightarrow> int" where
  "gauge s = sum_list (map depth_change (qw_recorded s))"

definition counted :: "('i, 'q) queue_wait \<Rightarrow> bool" where
  "counted s \<longleftrightarrow> gauge s = int (length (qw_enqueued s)) \<and> distinct (map fst (qw_enqueued s))"

lemma counted_fields:
  "counted s \<Longrightarrow> counted (on_queue f s)" "counted s \<Longrightarrow> counted (s\<lparr>qw_queue := q\<rparr>)"
  by (simp_all add: counted_def gauge_def)

lemma alist_update_new: "map_of xs k = None \<Longrightarrow> AList.update k v xs = xs @ [(k, v)]"
  by (induction xs) (auto split: if_splits)

lemma alist_delete_length:
  "distinct (map fst xs) \<Longrightarrow> k \<in> fst ` set xs \<Longrightarrow> length (AList.delete k xs) + 1 = length xs"
  by (induction xs) (auto simp: delete_id simp del: delete_def)

lemma counted_enqueue: "counted s \<Longrightarrow> counted (fst (record_enqueue_at i t s))"
  by (auto simp: counted_def gauge_def record_enqueue_at_def Let_def alist_update_new map_of_eq_None_iff
      split: option.split)

lemma counted_dequeue:
  assumes "counted s" shows "counted (fst (record_dequeue_at i t s))"
proof (cases "map_of (qw_enqueued s) i")
  case (Some t0)
  then have "length (AList.delete i (qw_enqueued s)) + 1 = length (qw_enqueued s)"
    using assms by (intro alist_delete_length) (auto simp: counted_def dest!: map_of_SomeD intro: rev_image_eqI)
  then show ?thesis using assms Some
    by (auto simp: counted_def gauge_def record_dequeue_at_def Let_def intro: distinct_delete)
qed (use assms in \<open>simp add: record_dequeue_at_def\<close>)

lemma counted_done: "counted s \<Longrightarrow> counted (fst (record_done_at i t s))"
  by (auto simp: counted_def gauge_def record_done_at_def Let_def split: option.split)

lemma counted_enqueue_all: "counted s \<Longrightarrow> counted (fold (\<lambda>i s. fst (record_enqueue_at i now s)) is s)"
  by (induction "is" arbitrary: s) (simp_all add: counted_enqueue)

lemma counted_step: "counted s \<Longrightarrow> counted (fst (qw_step Q now op s))"
proof (cases op)
  case ShutDown
  then show "counted s \<Longrightarrow> counted (fst (qw_step Q now op s))"
    by (auto simp: qw_defs reset_state_def counted_def gauge_def)
qed (auto simp: qw_defs Let_def split: prod.split
    intro!: counted_fields(1) counted_enqueue counted_dequeue counted_done counted_enqueue_all counted_fields(2))

lemma counted_run: "counted s \<Longrightarrow> counted (fst (qw_run Q ops s))"
proof (induction ops arbitrary: s)
  case (Cons x ops)
  obtain now op where x: "x = (now, op)" by fastforce
  have "counted (fst (qw_step Q now op s))" by (rule counted_step[OF Cons.prems])
  from Cons.IH[OF this] show ?case by (simp add: x Let_def split_beta)
qed simp

end
