(* ===== verification/Queue_Props.thy ===== *)
theory Queue_Props
  imports Backoff Queue_Wait
begin

text \<open>Properties of the limiters in front of a controller's queue.\<close>

section \<open>Growth\<close>

text \<open>
  \<open>steady window i prev cs\<close>: in the calls \<open>cs\<close> no call for \<open>i\<close> comes more than \<open>window\<close> after the
  limiter last noted one, at \<open>prev\<close>.
\<close>

fun steady :: "duration \<Rightarrow> 'i \<Rightarrow> instant option \<Rightarrow> (instant \<times> instant \<times> 'i) list \<Rightarrow> bool" where
  "steady window i prev [] \<longleftrightarrow> True"
| "steady window i prev ((now, now', j) # cs) \<longleftrightarrow>
     (if j \<noteq> i then steady window i prev cs
      else case prev of
        None \<Rightarrow> steady window i (Some now) cs
      | Some t \<Rightarrow> time_sub now t \<le> window \<and> steady window i (Some now') cs)"

definition noted :: "'i backoff \<Rightarrow> 'i \<Rightarrow> instant option" where
  "noted l i = map_option fr_last (Mapping.lookup (bo_failures l) i)"

definition delays_of :: "'i \<Rightarrow> (instant \<times> instant \<times> 'i) list \<Rightarrow> duration list \<Rightarrow> duration list" where
  "delays_of i cs ds = map snd (filter (\<lambda>((_, _, j), _). j = i) (zip cs ds))"

lemma steady_not_idle:
  "steady (i64 (2 * bo_max l)) i (noted l i) ((now, now', i) # cs) \<Longrightarrow> promised l i n \<Longrightarrow>
   (n = 0 \<or> \<not> idle l now i)
   \<and> steady (i64 (2 * bo_max l)) i (noted (fst (backoff_when oob now now' i l)) i) cs"
  by (auto simp: noted_def promised_def idle_def failure_of_def backoff_when_def lookup_update Let_def
      split: option.splits)

lemma backoff_run_delays:
  assumes "sane_base (bo_base l)" "bo_base l \<le> bo_max l" "bo_max l \<le> max_int64"
    and "promised l i n" "steady (i64 (2 * bo_max l)) i (noted l i) cs"
    and "int n + int (length cs) < max_int64" "backoff_run oob cs l = (l', ds)"
  shows "delays_of i cs ds = map (\<lambda>k. min (bo_max l) (bo_base l * 2 ^ k)) [n..<n + length (delays_of i cs ds)]"
  using assms
proof (induction cs arbitrary: l n ds)
  case Nil
  then show ?case by (simp add: delays_of_def)
next
  case (Cons c cs)
  obtain now now' j where c: "c = (now, now', j)" by (rule prod_cases3)
  obtain l1 d where w: "backoff_when oob now now' j l = (l1, d)" by fastforce
  obtain l2 ds2 where r: "backoff_run oob cs l1 = (l2, ds2)" by fastforce
  have ds: "ds = d # ds2" "l2 = l'" using Cons.prems(7) by (simp_all add: c w r)
  have f: "bo_base l1 = bo_base l" "bo_max l1 = bo_max l"
    using backoff_when_fields[of oob now now' j l] by (simp_all add: w)
  show ?case
  proof (cases "j = i")
    case False
    have k: "Mapping.lookup (bo_failures l1) i = Mapping.lookup (bo_failures l) i"
      using backoff_when_other[OF False, of oob now now' l] by (simp add: w)
    have "delays_of i cs ds2 = map (\<lambda>k. min (bo_max l) (bo_base l * 2 ^ k)) [n..<n + length (delays_of i cs ds2)]"
      using Cons.IH[of l1 n ds2] Cons.prems(1-6) False r ds(2) by (simp add: f k c promised_def noted_def)
    then show ?thesis using False by (simp add: c ds(1) delays_of_def)
  next
    case True
    then have s: "n = 0 \<or> \<not> idle l now i" "steady (i64 (2 * bo_max l)) i (noted l1 i) cs"
      using steady_not_idle[of l i now now' cs n oob] Cons.prems(4,5) w by (auto simp: c)
    have "promised l1 i (Suc n)"
      using promised_next[OF Cons.prems(4) _ s(1), of oob now'] Cons.prems(6) w True by simp
    then have IH: "delays_of i cs ds2
        = map (\<lambda>k. min (bo_max l) (bo_base l * 2 ^ k)) [Suc n..<Suc n + length (delays_of i cs ds2)]"
      using Cons.IH[of l1 "Suc n" ds2] Cons.prems(1-3,6) s(2) r ds(2) by (simp add: f)
    have "d = min (bo_max l) (bo_base l * 2 ^ n)"
      using promised_delay[OF Cons.prems(4) s(1) Cons.prems(1-3), of oob now'] w True by simp
    moreover have "delays_of i (c # cs) ds = d # delays_of i cs ds2" using True by (simp add: c ds(1) delays_of_def)
    ultimately show ?thesis using IH by (simp add: upt_conv_Cons del: upt_Suc)
  qed
qed

text \<open>
  C26: repeated failures back off exponentially.  From a limiter that has not seen the item, as long
  as its failures keep coming within twice the maximum delay, its k-th delay is the base times
  two to the k, exactly, capped at the maximum, whatever other items do in between and however
  often it fails: the float product never overflows into a wrong delay.
\<close>

theorem backoff_doubles:
  assumes "sane_base base" "base \<le> cap" "cap \<le> max_int64"
    and "steady (i64 (2 * cap)) i None cs" "int (length cs) < max_int64"
    and "backoff_run oob cs (new_backoff base cap) = (l, ds)"
  shows "delays_of i cs ds = map (\<lambda>k. min cap (base * 2 ^ k)) [0..<length (delays_of i cs ds)]"
  using backoff_run_delays[of "new_backoff base cap" i 0 cs oob l ds] assms
  by (simp add: new_backoff_def promised_def noted_def lookup_empty)

definition three_failures :: "(instant \<times> instant \<times> nat) list" where
  "three_failures = [(5, 6, 1), (7, 8, 2), (second, second + 1, 1), (2 * second, 2 * second, 1)]"

theorem backoff_doubles_witness:
  "delays_of 1 three_failures (snd (backoff_run (\<lambda>_. 0) three_failures (new_backoff second (60 * second))))
     = [second, 2 * second, 4 * second]"
proof -
  let ?r = "backoff_run (\<lambda>_. 0) three_failures (new_backoff second (60 * second))"
  have s: "sane_base second" by (simp add: sane_base_def)
  have w: "steady (i64 (2 * (60 * second))) 1 None three_failures"
    by (simp add: three_failures_def time_sub_def i64_id in_i64_def)
  define D where "D = delays_of 1 three_failures (snd ?r)"
  have len: "length D = 3" by (simp add: D_def delays_of_def three_failures_def split: prod.split)
  have "D = map (\<lambda>k. min (60 * second) (second * 2 ^ k)) [0..<length D]" unfolding D_def
    by (rule backoff_doubles[OF s _ _ w _ prod.collapse[symmetric]]) (simp_all add: three_failures_def)
  then have "D = map (\<lambda>k. min (60 * second) (second * 2 ^ k)) [0..<3]" unfolding len .
  then show ?thesis unfolding D_def[symmetric] by (simp add: upt_rec)
qed

text \<open>Calls on a limiter, at the clock readings they make, and the answers of its \<open>When\<close>s.\<close>

datatype 'i limiter_call = Call_When instant instant 'i | Call_Forget instant 'i

fun limiter_calls ::
  "(f64 \<Rightarrow> int) \<Rightarrow> 'i limiter_call list \<Rightarrow> 'i backoff \<Rightarrow> 'i backoff \<times> ('i \<times> duration) list" where
  "limiter_calls oob [] l = (l, [])"
| "limiter_calls oob (Call_When now now' i # cs) l =
     (let (l, d) = backoff_when oob now now' i l; (l, as) = limiter_calls oob cs l in (l, (i, d) # as))"
| "limiter_calls oob (Call_Forget now i # cs) l = limiter_calls oob cs (backoff_forget now i l)"

text \<open>A call made for item \<open>i\<close> is a \<open>When\<close>, later than \<open>t\<close>.\<close>

fun only_when_after :: "instant \<Rightarrow> 'i \<Rightarrow> 'i limiter_call \<Rightarrow> bool" where
  "only_when_after t i (Call_When now now' j) \<longleftrightarrow> j = i \<longrightarrow> t < now"
| "only_when_after t i (Call_Forget now j) \<longleftrightarrow> j \<noteq> i"

lemma idle_iff:
  assumes "Mapping.lookup (bo_failures l) i = Some f" "0 \<le> bo_max l" "2 * bo_max l < max_int64"
  shows "idle l now i \<longleftrightarrow> fr_last f + 2 * bo_max l < now"
proof -
  have "i64 (2 * bo_max l) = 2 * bo_max l" using assms(2,3) by (simp add: i64_id in_i64_def)
  then show ?thesis using assms by (auto simp: idle_def failure_of_def time_sub_def)
qed

lemma backoff_forget_simps [simp]:
  "bo_base (backoff_forget now i l) = bo_base l" "bo_max (backoff_forget now i l) = bo_max l"
  "i \<noteq> j \<Longrightarrow> Mapping.lookup (bo_failures (backoff_forget now i l)) j = Mapping.lookup (bo_failures l) j"
  by (simp_all add: backoff_forget_def Mapping.lookup_delete_neq)

lemma limiter_calls_idle:
  assumes "Mapping.lookup (bo_failures l) i = Some f" "0 \<le> bo_max l" "2 * bo_max l < max_int64"
    and "list_all (only_when_after (fr_last f + 2 * bo_max l) i) cs" "limiter_calls oob cs l = (l', as)"
  shows "list_all (\<lambda>(j, d). j = i \<longrightarrow> d = 0) as \<and> Mapping.lookup (bo_failures l') i = Some f
    \<and> bo_base l' = bo_base l \<and> bo_max l' = bo_max l"
  using assms
proof (induction cs arbitrary: l as)
  case (Cons c cs)
  show ?case
  proof (cases c)
    case (Call_When now now' j)
    obtain l1 d where w: "backoff_when oob now now' j l = (l1, d)" by fastforce
    obtain as1 where r: "limiter_calls oob cs l1 = (l', as1)" "as = (j, d) # as1"
      using Cons.prems(5) by (auto simp: Call_When w split: prod.splits)
    have f: "bo_base l1 = bo_base l" "bo_max l1 = bo_max l"
      using backoff_when_fields[of oob now now' j l] by (simp_all add: w)
    have i: "j = i \<Longrightarrow> l1 = l \<and> d = 0"
      using w Cons.prems(1,4) idle_iff[OF Cons.prems(1-3)] by (simp add: backoff_when_def Call_When)
    have "Mapping.lookup (bo_failures l1) i = Some f"
      using i backoff_when_other[of j i oob now now' l] Cons.prems(1) by (cases "j = i") (simp_all add: w)
    from Cons.IH[OF this _ _ _ r(1)] show ?thesis using f i Cons.prems(2-4) by (simp add: r(2) Call_When)
  next
    case (Call_Forget now j)
    with Cons.prems(4) have "j \<noteq> i" by simp
    then show ?thesis using Cons.IH[of "backoff_forget now j l" as] Cons.prems by (simp add: Call_Forget)
  qed
qed simp

text \<open>
  C36: an item whose last noted failure is more than twice the maximum delay ago is not delayed: through any
  calls for other items, every \<open>When\<close> for it answers zero and its record stays as it was, until \<open>Forget\<close> is
  called for it.  Afterwards, at any time: up to and at twice the maximum it is delayed by the
  doubled base, after that not at all; \<open>Forget\<close> changes nothing in the first case and makes the
  next failure its first in the second.
\<close>

theorem idle_item_not_delayed:
  assumes "backoff_ok l" "2 * bo_max l < max_int64"
    and "Mapping.lookup (bo_failures l) i = Some f" "fr_attempts f = int n"
    and "list_all (only_when_after (fr_last f + 2 * bo_max l) i) cs" "limiter_calls oob cs l = (l', as)"
  shows "list_all (\<lambda>(j, d). j = i \<longrightarrow> d = 0) as \<and> Mapping.lookup (bo_failures l') i = Some f
    \<and> snd (backoff_when oob now now' i l') =
        (if now \<le> fr_last f + 2 * bo_max l then min (bo_max l) (bo_base l * 2 ^ n) else 0)
    \<and> snd (backoff_when oob now now' i (backoff_forget now i l')) =
        (if now \<le> fr_last f + 2 * bo_max l then min (bo_max l) (bo_base l * 2 ^ n) else bo_base l)"
proof -
  have c: "sane_base (bo_base l)" "bo_base l \<le> bo_max l" "bo_max l \<le> max_int64" "0 \<le> bo_max l"
    using assms(1) by (auto simp: backoff_ok_def sane_base_def)
  have k: "list_all (\<lambda>(j, d). j = i \<longrightarrow> d = 0) as" "Mapping.lookup (bo_failures l') i = Some f"
    "bo_base l' = bo_base l" "bo_max l' = bo_max l"
    using limiter_calls_idle[OF assms(3) c(4) assms(2,5,6)] by simp_all
  have "idle l' now i \<longleftrightarrow> fr_last f + 2 * bo_max l < now"
    using idle_iff[OF k(2), of now] k(4) c(4) assms(2) by simp
  then show ?thesis
    using k backoff_delay_exact[OF c(1-3), of oob n] assms(4)
    by (auto simp: backoff_when_def backoff_forget_def)
qed

definition idle_since_start :: "nat backoff" where
  "idle_since_start = fst (backoff_when (\<lambda>_. 0) 5 5 1 (new_backoff second (60 * second)))"

text \<open>One second past twice the maximum of a minute, with another item failing in between.\<close>

theorem idle_item_not_delayed_witness:
  "let (l, as) = limiter_calls (\<lambda>_. 0)
       [Call_When (130 * second) (130 * second) 1, Call_When (131 * second) (131 * second) 2,
        Call_When (300 * second) (300 * second) 1] idle_since_start
   in list_all (\<lambda>(j, d). j = 1 \<longrightarrow> d = 0) as
    \<and> snd (backoff_when (\<lambda>_. 0) (120 * second + 5) (121 * second) 1 l) = 2 * second
    \<and> snd (backoff_when (\<lambda>_. 0) (120 * second + 6) (121 * second) 1 l) = 0"
proof -
  let ?cs = "[Call_When (130 * second) (130 * second) 1, Call_When (131 * second) (131 * second) 2,
        Call_When (300 * second) (300 * second) 1] :: nat limiter_call list"
  let ?f = "\<lparr>fr_attempts = 1, fr_last = 5\<rparr>"
  obtain l as where r: "limiter_calls (\<lambda>_. 0) ?cs idle_since_start = (l, as)" by fastforce
  have b: "bo_max idle_since_start = 60 * second" "bo_base idle_since_start = second"
    by (simp_all add: idle_since_start_def new_backoff_def)
  have s: "backoff_ok idle_since_start" "2 * bo_max idle_since_start < max_int64"
    by (simp_all add: b backoff_ok_def sane_base_def)
  have f: "Mapping.lookup (bo_failures idle_since_start) 1 = Some ?f" "fr_attempts ?f = int 1"
    by (simp_all add: idle_since_start_def backoff_when_def new_backoff_def lookup_empty lookup_update)
  have "list_all (only_when_after (fr_last ?f + 2 * bo_max idle_since_start) 1) ?cs" by (simp add: b)
  from idle_item_not_delayed[OF s f this r] show ?thesis by (simp only: r Let_def prod.case) (simp add: b)
qed

section \<open>Limited requests\<close>

text \<open>
  A limited request is let through when it comes back.  Over the exponential limiter a request
  that is limited waits between nothing and the maximum delay, without reaching the inner
  reconciler; its next request passes to it without asking the limiter, whatever requests for
  other items come between.
\<close>

theorem limited_request_passes_next:
  fixes lwhen lforget and oob :: "f64 \<Rightarrow> int"
  defines "lwhen \<equiv> \<lambda>(now, now'). backoff_when oob now now'"
    and "lforget \<equiv> \<lambda>(now, now'). backoff_forget now'"
  assumes "backoff_ok (rl_limit rl)"
    and "limiter_reconcile lwhen lforget inner t i (rl, w) = (s1, Limited d)"
    and "limiter_run lwhen lforget inner rs s1 = (s2, as)" "\<forall>(t, j) \<in> set rs. j \<noteq> i"
  shows "0 < d \<and> d \<le> bo_max (rl_limit rl) \<and> snd s1 = w
    \<and> (\<exists>rl' w' r. limiter_reconcile lwhen lforget inner t' i s2 = ((rl', w'), Passed r)
         \<and> (w', r) = inner i (snd s2))"
  using exponential.limited_then_passed[of rl "bo_max (rl_limit rl)" oob inner t i w s1 d rs s2 as t'] assms
  by simp

text \<open>An inner reconciler that counts its calls.\<close>

definition counting :: "nat \<Rightarrow> nat \<Rightarrow> nat \<times> nat" where
  "counting i n = (n + 1, i)"

theorem limited_request_passes_next_witness:
  "let lwhen = (\<lambda>(now, now'). backoff_when (\<lambda>_. 0) now now'); lforget = (\<lambda>(now, now'). backoff_forget now');
       (s1, _) = limiter_reconcile lwhen lforget counting (5, 5) 1
         (\<lparr>rl_limited = {}, rl_limit = new_backoff second (60 * second)\<rparr>, 0);
       (s2, a) = limiter_reconcile lwhen lforget counting (6, 6) 1 s1
   in snd s1 = 0 \<and> snd s2 = 1 \<and> a = Passed 1"
proof -
  let ?rl = "\<lparr>rl_limited = {}, rl_limit = new_backoff second (60 * second)\<rparr> :: (nat, nat backoff) request_limiter"
  let ?when = "\<lambda>(now, now'). backoff_when (\<lambda>_. 0) now now'" and ?forget = "\<lambda>(now, now'). backoff_forget now'"
  have ok: "backoff_ok (rl_limit ?rl)" by (simp add: backoff_ok_def new_backoff_def sane_base_def)
  obtain s1 where l: "limiter_reconcile ?when ?forget counting (5, 5) 1 (?rl, 0) = (s1, Limited second)"
    by (simp add: limiter_reconcile_def limiter_when_def backoff_when_def new_backoff_def lookup_empty Let_def)
  have r: "limiter_run ?when ?forget counting [] s1 = (s1, [])" by simp
  from limited_request_passes_next[OF ok l r, of "(6, 6)"] l show ?thesis
    by (auto simp: counting_def)
qed

section \<open>Queue telemetry\<close>

text \<open>
  C25: the telemetry is transparent.  Whatever sequence of operations a controller runs on the
  wrapped queue, the queue inside ends as if they had been run on it directly, and every operation
  returns what it would have returned.
\<close>

theorem queue_wait_refines:
  "plain_run Q ops q = (let (s, rs) = qw_run Q ops (new_queue_wait q) in (qw_queue s, rs))"
proof -
  have "plain_run Q ops (qw_queue s) = (let (s, rs) = qw_run Q ops s in (qw_queue s, rs))" for s
  proof (induction ops arbitrary: s)
    case (Cons x ops)
    obtain now op where x: "x = (now, op)" by fastforce
    have "plain_step Q op (qw_queue s) = (qw_queue (fst (qw_step Q now op s)), snd (qw_step Q now op s))"
      by (rule qw_step_plain[symmetric])
    then show ?case using Cons.IH[of "fst (qw_step Q now op s)"] by (simp add: x Let_def split_beta)
  qed simp
  from this[of "new_queue_wait q"] show ?thesis by (simp add: new_queue_wait_def)
qed

text \<open>The items that wait: added, and since then neither handed out nor dropped by a shutdown.\<close>

fun waits :: "('i, 'o) queue_op \<Rightarrow> 'i queue_res \<Rightarrow> 'i set \<Rightarrow> 'i set" where
  "waits (Add i) _ W = insert i W"
| "waits (AddAfter i _) _ W = insert i W"
| "waits (AddRateLimited i) _ W = insert i W"
| "waits (AddWithOpts _ is) _ W = set is \<union> W"
| "waits ShutDown _ W = {}"
| "waits _ (Got i _ shutdown) W = (if shutdown then W else W - {i})"
| "waits _ _ W = W"

definition waiting :: "(instant \<times> ('i, 'o) queue_op) list \<Rightarrow> 'i queue_res list \<Rightarrow> 'i set \<Rightarrow> 'i set" where
  "waiting ops rs W = fold (\<lambda>((_, op), r). waits op r) (zip ops rs) W"

definition enqueued_items :: "('i, 'q) queue_wait \<Rightarrow> 'i set" where
  "enqueued_items s = fst ` set (qw_enqueued s)"

lemma keys_delete: "fst ` set (AList.delete k xs) = fst ` set xs - {k}"
  by (force simp: AList.delete_eq)

lemma enqueued_simps [simp]:
  "enqueued_items (on_queue f s) = enqueued_items s" "enqueued_items (s\<lparr>qw_queue := q\<rparr>) = enqueued_items s"
  "enqueued_items (fst (record_enqueue_at i t s)) = insert i (enqueued_items s)"
  "enqueued_items (fst (record_dequeue_at i t s)) = enqueued_items s - {i}"
  "enqueued_items (fst (record_done_at i t s)) = enqueued_items s"
  by (auto simp: enqueued_items_def record_enqueue_at_def record_dequeue_at_def record_done_at_def Let_def
      alist_update_new keys_delete map_of_eq_None_iff split: option.split
      dest!: map_of_SomeD intro: rev_image_eqI)

lemma enqueued_all [simp]:
  "enqueued_items (fold (\<lambda>i s. fst (record_enqueue_at i now s)) is s) = set is \<union> enqueued_items s"
  by (induction "is" arbitrary: s) auto

lemma enqueued_step:
  "enqueued_items (fst (qw_step Q now op s)) = waits op (snd (qw_step Q now op s)) (enqueued_items s)"
  by (cases op) (auto simp: qw_defs reset_state_def Let_def split: prod.split, auto simp: enqueued_items_def)

text \<open>
  The depth gauge counts.  After any sequence of operations, with whatever the queue inside
  answers, the changes of depth recorded so far add up to the number of items that were added and
  not handed out since, so the gauge is never negative and an item counts once however often it
  is added.
\<close>

theorem gauge_counts_waiting:
  "let (s, rs) = qw_run Q ops (new_queue_wait q) in gauge s = int (card (waiting ops rs {}))"
proof -
  have run: "enqueued_items (fst (qw_run Q ops s)) = waiting ops (snd (qw_run Q ops s)) (enqueued_items s)" for s
  proof (induction ops arbitrary: s)
    case (Cons x ops)
    obtain now op where x: "x = (now, op)" by fastforce
    show ?case using Cons.IH[of "fst (qw_step Q now op s)"] enqueued_step[of Q now op s]
      by (simp add: x Let_def split_beta waiting_def)
  qed (simp add: waiting_def)
  let ?s = "fst (qw_run Q ops (new_queue_wait q))"
  have "counted ?s" by (rule counted_run) (simp add: counted_def gauge_def new_queue_wait_def)
  then have "gauge ?s = int (card (enqueued_items ?s))"
    by (simp add: counted_def enqueued_items_def distinct_card flip: set_map)
  then show ?thesis using run[of "new_queue_wait q"]
    by (simp add: split_beta new_queue_wait_def enqueued_items_def)
qed

end
