(* ===== verification/Strconv.thy ===== *)
theory Strconv
  imports Float64 "HOL-Library.Sublist"
begin

text \<open>
  The parts of packages strings, strconv and time that src/pkg/ratelimit parses text with:
  \<open>strings.TrimSpace\<close>, \<open>strings.ToLower\<close> on ASCII, \<open>strconv.ParseFloat(s, 64)\<close> with its signs, special
  values, hexadecimal mantissas, underscores and capped exponents, and \<open>strconv.ParseUint(s, 10, 64)\<close>.
  A string is its bytes.  \<open>ParseFloat\<close> returns the float nearest to the number written, so the
  model reads the number exactly and rounds it once.
\<close>

section \<open>Bytes\<close>

definition ascii_lower :: "char \<Rightarrow> char" where
  "ascii_lower c =
     (let n = of_char c :: nat in if 65 \<le> n \<and> n \<le> 90 then char_of (n + 32) else c)"

definition is_ascii :: "char \<Rightarrow> bool" where "is_ascii c \<longleftrightarrow> (of_char c :: nat) < 128"

definition is_upper :: "char \<Rightarrow> bool" where
  "is_upper c \<longleftrightarrow> 65 \<le> (of_char c :: nat) \<and> (of_char c :: nat) \<le> 90"

definition byte :: "int \<Rightarrow> char" where "byte n = char_of n"

text \<open>The UTF-8 encodings of the runes \<open>unicode.IsSpace\<close> names.\<close>

definition white_runes :: "string list" where
  "white_runes =
     map (\<lambda>n. [byte n]) [9, 10, 11, 12, 13, 32]
     @ map (map byte)
         ([[0xC2, 0x85], [0xC2, 0xA0], [0xE1, 0x9A, 0x80]]
          @ map (\<lambda>k. [0xE2, 0x80, k]) [0x80, 0x81, 0x82, 0x83, 0x84, 0x85, 0x86, 0x87, 0x88, 0x89, 0x8A]
          @ [[0xE2, 0x80, 0xA8], [0xE2, 0x80, 0xA9], [0xE2, 0x80, 0xAF], [0xE2, 0x81, 0x9F], [0xE3, 0x80, 0x80]])"

definition strip_prefix :: "string \<Rightarrow> string \<Rightarrow> string option" where
  "strip_prefix p s = (if prefix p s then Some (drop (length p) s) else None)"

text \<open>Removes leading runes of the list; at most \<open>length s\<close> of them are there.\<close>

fun trim_runes :: "string list \<Rightarrow> nat \<Rightarrow> string \<Rightarrow> string" where
  "trim_runes ws 0 s = s"
| "trim_runes ws (Suc n) s =
     (case List.find (\<lambda>w. prefix w s) ws of
        None \<Rightarrow> s | Some w \<Rightarrow> trim_runes ws n (drop (length w) s))"

definition trim_left :: "string \<Rightarrow> string" where
  "trim_left s = trim_runes white_runes (length s) s"

definition trim_right :: "string \<Rightarrow> string" where
  "trim_right s = rev (trim_runes (map rev white_runes) (length s) (rev s))"

definition trim_space :: "string \<Rightarrow> string" where
  "trim_space s = trim_right (trim_left s)"

section \<open>ParseFloat\<close>

definition hex_val :: "char \<Rightarrow> int option" where
  "hex_val c =
     (case digit_val c of Some d \<Rightarrow> Some d
      | None \<Rightarrow> (let n = of_char (ascii_lower c) :: nat in
          if 97 \<le> n \<and> n \<le> 102 then Some (int n - 87) else None))"

definition digit_in :: "bool \<Rightarrow> char \<Rightarrow> int option" where
  "digit_in hex c = (if hex then hex_val c else digit_val c)"

text \<open>
  The digits of the mantissa: its value without the point, how many digits follow the point,
  whether a digit was seen, and what is left.
\<close>

fun scan_mantissa :: "bool \<Rightarrow> bool \<Rightarrow> bool \<Rightarrow> int \<Rightarrow> nat \<Rightarrow> string \<Rightarrow> int \<times> nat \<times> bool \<times> string" where
  "scan_mantissa hex dot seen m f [] = (m, f, seen, [])"
| "scan_mantissa hex dot seen m f (c # cs) =
     (if c = CHR ''_'' then scan_mantissa hex dot seen m f cs
      else if c = CHR ''.'' then
        if dot then (m, f, seen, c # cs) else scan_mantissa hex True seen m f cs
      else case digit_in hex c of
          Some d \<Rightarrow> scan_mantissa hex dot True ((if hex then 16 else 10) * m + d) (if dot then f + 1 else f) cs
        | None \<Rightarrow> (m, f, seen, c # cs))"

text \<open>The digits of the exponent; it stops growing at five of them.\<close>

fun scan_exponent :: "int \<Rightarrow> string \<Rightarrow> int \<times> string" where
  "scan_exponent e [] = (e, [])"
| "scan_exponent e (c # cs) =
     (if c = CHR ''_'' then scan_exponent e cs
      else case digit_val c of
          Some d \<Rightarrow> scan_exponent (if e < 10000 then 10 * e + d else e) cs
        | None \<Rightarrow> (e, c # cs))"

definition strip_sign :: "string \<Rightarrow> bool \<times> string" where
  "strip_sign s =
     (case s of [] \<Rightarrow> (False, [])
      | c # r \<Rightarrow> if c = CHR ''+'' then (False, r) else if c = CHR ''-'' then (True, r) else (False, s))"

definition read_exponent :: "string \<Rightarrow> int option" where
  "read_exponent s =
     (case strip_sign s of (neg, r) \<Rightarrow>
        (case r of [] \<Rightarrow> None
         | c # _ \<Rightarrow> if \<not> is_digit c then None
             else (case scan_exponent 0 r of (e, rest) \<Rightarrow>
                if rest = [] then Some (if neg then - e else e) else None)))"

text \<open>\<open>underscoreOK\<close>: an underscore stands between digits, a base prefix counting as one.\<close>

fun underscores :: "bool \<Rightarrow> char \<Rightarrow> string \<Rightarrow> bool" where
  "underscores hex saw [] \<longleftrightarrow> saw \<noteq> CHR ''_''"
| "underscores hex saw (c # cs) \<longleftrightarrow>
     (if digit_in hex c \<noteq> None then underscores hex (CHR ''0'') cs
      else if c = CHR ''_'' then saw = CHR ''0'' \<and> underscores hex c cs
      else saw \<noteq> CHR ''_'' \<and> underscores hex (CHR ''!'') cs)"

definition based :: "string \<Rightarrow> string \<Rightarrow> bool" where
  "based bases s \<longleftrightarrow> (case s of a # b # _ \<Rightarrow> a = CHR ''0'' \<and> ascii_lower b \<in> set bases | _ \<Rightarrow> False)"

definition underscore_ok :: "string \<Rightarrow> bool" where
  "underscore_ok s =
     (let s = snd (strip_sign s)
      in if based ''box'' s then underscores (based ''x'' s) (CHR ''0'') (drop 2 s)
         else underscores False (CHR ''^'') s)"

definition scale :: "int \<Rightarrow> int \<Rightarrow> rat" where
  "scale b e = (if 0 \<le> e then of_int b ^ nat e else 1 / of_int b ^ nat (- e))"

text \<open>The number a well-formed literal stands for; a hexadecimal one needs an exponent.\<close>

definition read_float :: "string \<Rightarrow> rat option" where
  "read_float s =
     (case strip_sign s of (neg, r) \<Rightarrow>
        let hex = (based ''x'' r \<and> 2 < length r);
            (m, f, seen, rest) = scan_mantissa hex False False 0 0 (if hex then drop 2 r else r);
            e = (case rest of [] \<Rightarrow> (if hex then None else Some 0)
                 | c # t \<Rightarrow> if ascii_lower c = (if hex then CHR ''p'' else CHR ''e'') then read_exponent t else None)
        in if \<not> seen \<or> (CHR ''_'' \<in> set s \<and> \<not> underscore_ok s) then None
           else map_option (\<lambda>e. (if neg then - 1 else 1) * of_int m
                  * (if hex then scale 2 (e - 4 * int f) else scale 10 (e - int f))) e)"

definition lower :: "string \<Rightarrow> string" where "lower = map ascii_lower"

text \<open>\<open>None\<close> for a syntax error, and for the range error of a number that rounds to infinity.\<close>

definition parse_float :: "string \<Rightarrow> f64 option" where
  "parse_float s =
     (if lower (snd (strip_sign s)) \<in> {''inf'', ''infinity''} then Some (Inf (fst (strip_sign s)))
      else if lower s = ''nan'' then Some NaN
      else Option.bind (read_float s) (\<lambda>q. case round64 q of Inf _ \<Rightarrow> None | x \<Rightarrow> Some x))"

section \<open>ParseUint\<close>

fun scan_uint :: "int \<Rightarrow> string \<Rightarrow> int option" where
  "scan_uint n [] = Some n"
| "scan_uint n (c # cs) =
     (case digit_val c of None \<Rightarrow> None
      | Some d \<Rightarrow> if 10 * n + d > 18446744073709551615 then None else scan_uint (10 * n + d) cs)"

definition parse_uint :: "string \<Rightarrow> int option" where
  "parse_uint s = (if s = [] then None else scan_uint 0 s)"

end
