(* ===== verification/Http_Date.thy ===== *)
theory Http_Date
  imports Strconv
begin

text \<open>
  \<open>http.ParseTime\<close>, which src/pkg/ratelimit/httpsignal reads an HTTP-date with, and the format
  \<open>http.TimeFormat\<close>: the three layouts
  of RFC 9110 in turn, each as \<open>time.Parse\<close> reads it.  A space of a layout stands for one or more
  spaces, or none at the end; names of days and months match in any case; the weekday is not compared
  with the date; seconds may carry a fraction.  A zone abbreviation other than UTC is looked up
  in the machine's local zone, which is the parameter \<open>loc\<close>; an unknown one counts as UTC.
\<close>

section \<open>Layout elements\<close>

function skip_layout :: "string \<Rightarrow> string \<Rightarrow> string option" where
  "skip_layout [] v = Some v"
| "skip_layout (p # ps) v =
     (if p = CHR '' '' then
        (if v \<noteq> [] \<and> hd v \<noteq> CHR '' '' then None
         else skip_layout (dropWhile (\<lambda>c. c = CHR '' '') ps) (dropWhile (\<lambda>c. c = CHR '' '') v))
      else if v = [] \<or> hd v \<noteq> p then None
      else skip_layout ps (tl v))"
  by pat_completeness auto
termination
  by (relation "measure (length \<circ> fst)") (simp_all add: less_Suc_eq_le length_dropWhile_le)

fun look_up :: "string list \<Rightarrow> string \<Rightarrow> (int \<times> string) option" where
  "look_up [] v = None"
| "look_up (n # ns) v =
     (if length n \<le> length v \<and> lower (take (length n) v) = lower n then Some (0, drop (length n) v)
      else map_option (\<lambda>(i, r). (i + 1, r)) (look_up ns v))"

definition short_months :: "string list" where
  "short_months = [''Jan'', ''Feb'', ''Mar'', ''Apr'', ''May'', ''Jun'', ''Jul'', ''Aug'', ''Sep'', ''Oct'', ''Nov'', ''Dec'']"

definition short_days :: "string list" where
  "short_days = [''Sun'', ''Mon'', ''Tue'', ''Wed'', ''Thu'', ''Fri'', ''Sat'']"

definition long_days :: "string list" where
  "long_days = [''Sunday'', ''Monday'', ''Tuesday'', ''Wednesday'', ''Thursday'', ''Friday'', ''Saturday'']"

definition in_range :: "int \<Rightarrow> (int \<times> string) option \<Rightarrow> (int \<times> string) option" where
  "in_range n x = (case x of None \<Rightarrow> None | Some (i, r) \<Rightarrow> if i < 0 \<or> n \<le> i then None else x)"

text \<open>A year of two characters may be a sign and a digit: \<open>atoi\<close> reads it.\<close>

definition short_year :: "string \<Rightarrow> (int \<times> string) option" where
  "short_year v =
     (case v of a # b # r \<Rightarrow>
        Option.bind (digit_val b) (\<lambda>y.
        Option.bind (if a = CHR ''+'' then Some y else if a = CHR ''-'' then Some (- y)
                     else map_option (\<lambda>x. 10 * x + y) (digit_val a)) (\<lambda>y.
        Some (if 69 \<le> y then y + 1900 else y + 2000, r)))
      | _ \<Rightarrow> None)"

text \<open>A signed hour offset of at most 23, empty when there is none.\<close>

definition signed_offset :: "string \<Rightarrow> string" where
  "signed_offset v =
     (case v of [] \<Rightarrow> []
      | c # r \<Rightarrow> let ds = takeWhile is_digit r in
          if (c = CHR ''+'' \<or> c = CHR ''-'') \<and> ds \<noteq> [] \<and> digits_val 0 ds \<le> 23 then c # ds else [])"

definition time_zone :: "string \<Rightarrow> string option" where
  "time_zone v =
     (if length v < 3 then None
      else if take 4 v \<in> {''ChST'', ''MeST''} then Some (take 4 v)
      else if take 3 v = ''GMT'' then Some (''GMT'' @ signed_offset (drop 3 v))
      else if hd v \<in> {CHR ''+'', CHR ''-''} then
        (if signed_offset v = [] then None else Some (signed_offset v))
      else let n = length (takeWhile is_upper (take 6 v)) in
        if n = 5 \<and> v ! 4 = CHR ''T'' then Some (take 5 v)
        else if n = 4 \<and> (v ! 3 = CHR ''T'' \<or> take 4 v = ''WITA'') then Some (take 4 v)
        else if n = 3 then Some (take 3 v) else None)"

section \<open>A date\<close>

definition clock_time :: "string \<Rightarrow> (int \<times> string) option" where
  "clock_time v =
     Option.bind (in_range 24 (getnum False v)) (\<lambda>(h, v).
     Option.bind (skip_layout '':'' v) (\<lambda>v.
     Option.bind (in_range 60 (getnum True v)) (\<lambda>(mi, v).
     Option.bind (skip_layout '':'' v) (\<lambda>v.
     Option.bind (in_range 60 (getnum True v)) (\<lambda>(sc, v).
     case parse_frac v of (ns, v) \<Rightarrow> Some ((h * 3600 + mi * 60 + sc) * second + ns, v))))))"

definition date_of :: "int \<Rightarrow> int \<Rightarrow> int \<Rightarrow> instant \<Rightarrow> instant option" where
  "date_of y mo d tod =
     (if d < 1 \<or> days_in mo y < d then None else Some (days_of_civil y mo d * 86400 * second + tod))"

definition month_name :: "string \<Rightarrow> (int \<times> string) option" where
  "month_name v = map_option (\<lambda>(i, r). (i + 1, r)) (look_up short_months v)"

text \<open>\<open>Mon, 02 Jan 2006 15:04:05 GMT\<close>\<close>

definition parse_imf :: "string \<Rightarrow> instant option" where
  "parse_imf v =
     Option.bind (look_up short_days v) (\<lambda>(_, v).
     Option.bind (skip_layout '', '' v) (\<lambda>v.
     Option.bind (getnum True v) (\<lambda>(d, v).
     Option.bind (skip_layout '' '' v) (\<lambda>v.
     Option.bind (month_name v) (\<lambda>(mo, v).
     Option.bind (skip_layout '' '' v) (\<lambda>v.
     Option.bind (parse_year v) (\<lambda>(y, v).
     Option.bind (skip_layout '' '' v) (\<lambda>v.
     Option.bind (clock_time v) (\<lambda>(tod, v).
     Option.bind (skip_layout '' GMT'' v) (\<lambda>v.
     if v \<noteq> [] then None else date_of y mo d tod))))))))))"

text \<open>\<open>Monday, 02-Jan-06 15:04:05 MST\<close>\<close>

definition zone_shift :: "(string \<Rightarrow> instant \<Rightarrow> int option) \<Rightarrow> string \<Rightarrow> instant \<Rightarrow> instant" where
  "zone_shift loc z t = (case loc z t of None \<Rightarrow> t | Some off \<Rightarrow> t - off * second)"

definition parse_rfc850 :: "(string \<Rightarrow> instant \<Rightarrow> int option) \<Rightarrow> string \<Rightarrow> instant option" where
  "parse_rfc850 loc v =
     Option.bind (look_up long_days v) (\<lambda>(_, v).
     Option.bind (skip_layout '', '' v) (\<lambda>v.
     Option.bind (getnum True v) (\<lambda>(d, v).
     Option.bind (skip_layout ''-'' v) (\<lambda>v.
     Option.bind (month_name v) (\<lambda>(mo, v).
     Option.bind (skip_layout ''-'' v) (\<lambda>v.
     Option.bind (short_year v) (\<lambda>(y, v).
     Option.bind (skip_layout '' '' v) (\<lambda>v.
     Option.bind (clock_time v) (\<lambda>(tod, v).
     Option.bind (skip_layout '' '' v) (\<lambda>v.
     if take 3 v = ''UTC'' then (if drop 3 v \<noteq> [] then None else date_of y mo d tod)
     else Option.bind (time_zone v) (\<lambda>z.
       if drop (length z) v \<noteq> [] then None
       else map_option (zone_shift loc z) (date_of y mo d tod))))))))))))"

text \<open>\<open>Mon Jan _2 15:04:05 2006\<close>\<close>

definition parse_ansic :: "string \<Rightarrow> instant option" where
  "parse_ansic v =
     Option.bind (look_up short_days v) (\<lambda>(_, v).
     Option.bind (skip_layout '' '' v) (\<lambda>v.
     Option.bind (month_name v) (\<lambda>(mo, v).
     Option.bind (skip_layout '' '' v) (\<lambda>v.
     Option.bind (getnum False (case v of CHR '' '' # r \<Rightarrow> r | _ \<Rightarrow> v)) (\<lambda>(d, v).
     Option.bind (skip_layout '' '' v) (\<lambda>v.
     Option.bind (clock_time v) (\<lambda>(tod, v).
     Option.bind (skip_layout '' '' v) (\<lambda>v.
     Option.bind (parse_year v) (\<lambda>(y, v).
     if v \<noteq> [] then None else date_of y mo d tod)))))))))"

definition parse_time :: "(string \<Rightarrow> instant \<Rightarrow> int option) \<Rightarrow> string \<Rightarrow> instant option" where
  "parse_time loc v =
     (case parse_imf v of Some t \<Rightarrow> Some t
      | None \<Rightarrow> (case parse_rfc850 loc v of Some t \<Rightarrow> Some t | None \<Rightarrow> parse_ansic v))"

section \<open>Format\<close>

text \<open>The date of an instant as \<open>http.TimeFormat\<close> prints it, with the day of the week \<open>w\<close>.\<close>

definition imf_date :: "nat \<Rightarrow> instant \<Rightarrow> string" where
  "imf_date w t =
     (let (y, m, d) = civil_of_days (t div second div 86400); sod = t div second mod 86400
      in short_days ! w @ '', '' @ append_int d 2 @ '' '' @ short_months ! nat (m - 1) @ '' ''
         @ append_int y 4 @ '' '' @ append_int (sod div 3600) 2 @ '':'' @ append_int (sod mod 3600 div 60) 2
         @ '':'' @ append_int (sod mod 60) 2 @ '' GMT'')"

text \<open>\<open>Time.UTC().Format(http.TimeFormat)\<close>; the 1st of January of the year 1 was a Monday.\<close>

definition weekday :: "instant \<Rightarrow> nat" where
  "weekday t = nat ((t div second div 86400 + 1) mod 7)"

definition http_time :: "instant \<Rightarrow> string" where "http_time t = imf_date (weekday t) t"

end
