(* ===== verification/Http_Signal.thy ===== *)
theory Http_Signal
  imports Http_Date Signals
begin

text \<open>
  src/pkg/ratelimit/httpsignal/httpsignal.go: a transport that reports a signal for each response
  with rate-limit headers.  A header is a map from canonical names to values.  A request's context
  is the key \<open>WithKey\<close> put on it and its sink.  Parameters: the machine's zones \<open>loc\<close>, the lower case
  of hosts that are not ASCII, and the conversion \<open>oob\<close> of floats out of range.
\<close>

section \<open>Requests and responses\<close>

type_synonym header = "(string, string list) mapping"

record response =
  rp_status :: int
  rp_header :: header

record 'w request =
  rq_key :: "string option"
  rq_sink :: "'w sink_ctx"
  rq_host :: string

text \<open>\<open>http.Header.Get\<close> of a canonical name: the first value, or the empty string.\<close>

definition header_get :: "header \<Rightarrow> string \<Rightarrow> string" where
  "header_get h k = (case Mapping.lookup h k of Some (v # _) \<Rightarrow> v | _ \<Rightarrow> [])"

definition header_retry_after :: string where "header_retry_after = ''Retry-After''"
definition header_remaining :: string where "header_remaining = ''X-Ratelimit-Remaining''"
definition header_limit :: string where "header_limit = ''X-Ratelimit-Limit''"
definition header_used :: string where "header_used = ''X-Ratelimit-Used''"
definition header_reset :: string where "header_reset = ''X-Ratelimit-Reset''"
definition header_delay :: string where "header_delay = ''X-Ratelimit-Delay''"
definition header_resource :: string where "header_resource = ''X-Ratelimit-Resource''"

definition with_key :: "string \<Rightarrow> 'w request \<Rightarrow> 'w request" where
  "with_key k r = r\<lparr>rq_key := Some k\<rparr>"

definition host_key :: "(string \<Rightarrow> string) \<Rightarrow> string \<Rightarrow> string" where
  "host_key unicode_lower host = (if list_all is_ascii host then lower host else unicode_lower host)"

definition key_for :: "(string \<Rightarrow> string) \<Rightarrow> 'w request \<Rightarrow> string" where
  "key_for unicode_lower r =
     (case rq_key r of
        Some k \<Rightarrow> if k \<noteq> [] then k else host_key unicode_lower (rq_host r)
      | None \<Rightarrow> host_key unicode_lower (rq_host r))"

section \<open>Numbers and times\<close>

definition max_seconds :: f64 where "max_seconds = f_of_int (100 * 365 * 24 * 60 * 60)"

definition f_min :: "f64 \<Rightarrow> f64 \<Rightarrow> f64" where
  "f_min a b = (if a = NaN \<or> b = NaN then NaN else if f_less b a then b else a)"

text \<open>\<open>math.Ceil\<close>, \<open>math.Floor\<close> and \<open>math.Modf\<close>, exact on finite floats.\<close>

definition f_ceil :: "f64 \<Rightarrow> f64" where
  "f_ceil x = (case x of Fin q \<Rightarrow> Fin (of_int \<lceil>q\<rceil>) | _ \<Rightarrow> x)"

definition f_floor :: "f64 \<Rightarrow> f64" where
  "f_floor x = (case x of Fin q \<Rightarrow> Fin (of_int \<lfloor>q\<rfloor>) | _ \<Rightarrow> x)"

definition modf :: "f64 \<Rightarrow> f64 \<times> f64" where
  "modf x = (case x of
     Fin q \<Rightarrow> (let i = (if q < 0 then - \<lfloor>- q\<rfloor> else \<lfloor>q\<rfloor>) in (Fin (of_int i), Fin (q - of_int i)))
   | Inf s \<Rightarrow> (Inf s, NaN) | NaN \<Rightarrow> (NaN, NaN))"

definition unix_epoch :: int where "unix_epoch = 62135596800"

definition parse_number :: "string \<Rightarrow> f64 option" where
  "parse_number v =
     (let v = trim_space v in if v = [] then None
      else case parse_float v of None \<Rightarrow> None | Some f \<Rightarrow> if f = NaN then None else Some f)"

definition parse_seconds :: "(f64 \<Rightarrow> int) \<Rightarrow> string \<Rightarrow> duration option" where
  "parse_seconds oob v =
     Option.bind (parse_number v) (\<lambda>f. if f_less f (Fin 0) then None
       else Some (f_trunc oob (f_ceil (f_mul (f_min f max_seconds) (f_of_int second)))))"

definition parse_count :: "(f64 \<Rightarrow> int) \<Rightarrow> string \<Rightarrow> int option" where
  "parse_count oob v =
     Option.bind (parse_number v) (\<lambda>f. if f_less f (Fin 0) then None
       else Some (f_trunc oob (f_floor (f_min f (f_of_int 2147483647)))))"

definition parse_epoch :: "(f64 \<Rightarrow> int) \<Rightarrow> string \<Rightarrow> instant option" where
  "parse_epoch oob v =
     Option.bind (parse_number v) (\<lambda>f. if f_le f (Fin 0) \<or> f_less (f_of_int 100000000000) f then None
       else (case modf f of (sec, fr) \<Rightarrow>
         Some ((f_trunc oob sec + unix_epoch) * second + f_trunc oob (f_mul fr (f_of_int second)))))"

definition parse_retry_after ::
  "(string \<Rightarrow> instant \<Rightarrow> int option) \<Rightarrow> (f64 \<Rightarrow> int) \<Rightarrow> string \<Rightarrow> instant \<Rightarrow> duration option" where
  "parse_retry_after loc oob v now =
     (let v = trim_space v in if v = [] then None
      else case parse_seconds oob v of
          Some d \<Rightarrow> Some d
        | None \<Rightarrow> map_option (\<lambda>t. max 0 (time_sub t now)) (parse_time loc v))"

section \<open>Parse\<close>

definition quota_of :: "int option \<Rightarrow> int option \<Rightarrow> int option \<Rightarrow> int option" where
  "quota_of remaining limit used =
     (case (remaining, limit, used) of (None, Some l, Some u) \<Rightarrow> Some (max 0 (l - u)) | _ \<Rightarrow> remaining)"

definition throttled_status :: "int \<Rightarrow> duration option \<Rightarrow> int option \<Rightarrow> bool" where
  "throttled_status status retry_after remaining =
     (if status = 429 then True
      else if status = 403 then retry_after \<noteq> None \<or> remaining = Some 0
      else if status = 503 then retry_after \<noteq> None else False)"

text \<open>The signal of what the headers said, an absent number being zero.\<close>

definition or_zero :: "int option \<Rightarrow> int" where
  "or_zero x = (case x of None \<Rightarrow> 0 | Some n \<Rightarrow> n)"

definition headers_signal ::
  "string \<Rightarrow> bool \<Rightarrow> duration option \<Rightarrow> int option \<Rightarrow> int option \<Rightarrow> instant option \<Rightarrow> duration option \<Rightarrow> signal" where
  "headers_signal key throttled retry_after remaining limit reset delay =
     \<lparr>sg_key = key,
      sg_retry_after =
        (if delay \<noteq> None \<and> \<not> throttled \<and> or_zero retry_after = 0 then or_zero delay else or_zero retry_after),
      sg_reset_at = or_zero reset,
      sg_remaining = or_zero remaining,
      sg_limit = (if remaining = None then 0 else or_zero limit),
      sg_has_quota = (remaining \<noteq> None),
      sg_throttled = throttled\<rparr>"

text \<open>With it, whether there is anything to report.\<close>

definition parse_response ::
  "(string \<Rightarrow> instant \<Rightarrow> int option) \<Rightarrow> (f64 \<Rightarrow> int) \<Rightarrow> response \<Rightarrow> string \<Rightarrow> instant \<Rightarrow> signal \<times> bool" where
  "parse_response loc oob resp key now =
     (let h = rp_header resp;
          retry_after = parse_retry_after loc oob (header_get h header_retry_after) now;
          limit = parse_count oob (header_get h header_limit);
          used = parse_count oob (header_get h header_used);
          remaining = quota_of (parse_count oob (header_get h header_remaining)) limit used;
          reset = parse_epoch oob (header_get h header_reset);
          throttled = throttled_status (rp_status resp) retry_after remaining;
          delay = parse_seconds oob (header_get h header_delay);
          s = headers_signal key throttled retry_after remaining limit reset delay
      in (s, throttled \<or> retry_after \<noteq> None \<or> remaining \<noteq> None \<or> limit \<noteq> None \<or> used \<noteq> None
             \<or> sg_reset_at s \<noteq> 0 \<or> delay \<noteq> None \<or> header_get h header_resource \<noteq> []))"

definition resource_of :: "header \<Rightarrow> string" where
  "resource_of h = header_get h header_resource"

section \<open>The transport\<close>

text \<open>\<open>base\<close> is the transport that makes the request, the default one when none was given.\<close>

record ('w, 'e) transport =
  tr_base :: "('w request \<Rightarrow> 'w \<Rightarrow> 'w \<times> response option \<times> 'e option) option"
  tr_now :: "('w \<Rightarrow> 'w \<times> instant) option"

definition new_transport ::
  "('w request \<Rightarrow> 'w \<Rightarrow> 'w \<times> response option \<times> 'e option) option \<Rightarrow> ('w, 'e) transport" where
  "new_transport base = \<lparr>tr_base = base, tr_now = None\<rparr>"

record ('w, 'e) platform =
  pf_transport :: "'w request \<Rightarrow> 'w \<Rightarrow> 'w \<times> response option \<times> 'e option"
  pf_now :: "'w \<Rightarrow> 'w \<times> instant"
  pf_zones :: "string \<Rightarrow> instant \<Rightarrow> int option"
  pf_lower :: "string \<Rightarrow> string"
  pf_oob :: "f64 \<Rightarrow> int"

definition round_trip ::
  "('w, 'e) platform \<Rightarrow> ('w, 'e) transport \<Rightarrow> 'w request \<Rightarrow> 'w \<Rightarrow> 'w \<times> response option \<times> 'e option" where
  "round_trip P t req w =
     (case (case tr_base t of None \<Rightarrow> pf_transport P | Some b \<Rightarrow> b) req w of
        (w, Some resp, None) \<Rightarrow>
          (case (case tr_now t of None \<Rightarrow> pf_now P | Some f \<Rightarrow> f) w of (w, now) \<Rightarrow>
           (case parse_response (pf_zones P) (pf_oob P) resp (key_for (pf_lower P) req) now of
              (s, found) \<Rightarrow> (if found then report (rq_sink req) s w else w, Some resp, None)))
      | r \<Rightarrow> r)"

end
