(* ===== verification/Http_Props.thy ===== *)
theory Http_Props
  imports Http_Signal Governor_Props
begin

text \<open>Properties of the signals read from HTTP responses.\<close>

section \<open>Trimming\<close>

text \<open>A visible ASCII character neither starts nor ends a space.\<close>

definition visible :: "char \<Rightarrow> bool" where
  "visible c \<longleftrightarrow> 33 \<le> (of_char c :: nat) \<and> (of_char c :: nat) < 128"

lemma white_runes_edges:
  "\<forall>w \<in> set white_runes. w \<noteq> [] \<and> \<not> visible (hd w) \<and> \<not> visible (last w)"
  by code_simp

lemma trim_runes_id:
  assumes "\<forall>w \<in> set ws. \<not> prefix w s"
  shows "trim_runes ws n s = s"
proof -
  have "List.find (\<lambda>w. prefix w s) ws = None" using assms by (auto simp: find_None_iff)
  then show ?thesis by (cases n) simp_all
qed

lemma trim_space_id:
  assumes "s \<noteq> []" "visible (hd s)" "visible (last s)"
  shows "trim_space s = s"
proof -
  have l: "\<not> prefix w s" if "w \<in> set white_runes" for w
    using that white_runes_edges assms by (fastforce simp: prefix_def hd_append)
  have r: "\<not> prefix (rev w) (rev s)" if "w \<in> set white_runes" for w
  proof
    assume "prefix (rev w) (rev s)"
    then obtain x where "rev s = rev w @ x" by (auto simp: prefix_def)
    then have "s = rev x @ w" by (metis rev_append rev_rev_ident)
    then show False using that white_runes_edges assms by auto
  qed
  show ?thesis using l r by (simp add: trim_space_def trim_left_def trim_right_def trim_runes_id)
qed

section \<open>Decimal numbers\<close>

lemma is_digit_iff: "is_digit c \<longleftrightarrow> 48 \<le> (of_char c :: nat) \<and> (of_char c :: nat) \<le> 57"
  by (simp add: is_digit_def digit_val_def Let_def)

lemma is_digit_digit: "n < 10 \<Longrightarrow> is_digit (digit n)"
  by (simp add: is_digit_def)

lemma digit_visible: "is_digit c \<Longrightarrow> visible c"
  by (simp add: is_digit_iff visible_def)

lemma dec_nat_digits: "dec_nat n \<noteq> [] \<and> list_all is_digit (dec_nat n)"
proof (induction n rule: dec_nat.induct)
  case (1 n)
  then show ?case by (subst (1 2) dec_nat.simps) (simp add: is_digit_digit)
qed

lemma digits_val_append: "digits_val a (xs @ ys) = digits_val (digits_val a xs) ys"
  by (induction xs arbitrary: a) simp_all

lemma digits_val_dec_nat: "digits_val 0 (dec_nat n) = int n"
proof (induction n rule: dec_nat.induct)
  case (1 n)
  show ?case
  proof (cases "n < 10")
    case False
    then have "digits_val 0 (dec_nat n) = 10 * int (n div 10) + int (n mod 10)"
      using 1 by (subst dec_nat.simps) (simp add: digits_val_append)
    also have "\<dots> = int n" by (simp flip: of_nat_mult of_nat_add add: mult_div_mod_eq zdiv_int zmod_int)
    finally show ?thesis .
  qed (subst dec_nat.simps, simp)
qed

lemma digit_no_letter: "is_digit c \<Longrightarrow> c \<notin> set ''_.+-xXeEiInN'' \<and> ascii_lower c = c"
  by (auto simp: is_digit_iff ascii_lower_def Let_def)

lemma scan_digits:
  "list_all is_digit ds \<Longrightarrow> scan_mantissa False False seen m f ds = (digits_val m ds, f, seen \<or> ds \<noteq> [], [])"
proof (induction ds arbitrary: seen m)
  case (Cons c ds)
  then obtain d where "digit_val c = Some d" by (auto simp: is_digit_def)
  with Cons digit_no_letter[of c] show ?case by (simp add: digit_in_def)
qed simp

lemma strip_sign_digits: "ds \<noteq> [] \<Longrightarrow> list_all is_digit ds \<Longrightarrow> strip_sign ds = (False, ds)"
  using digit_no_letter by (cases ds) (auto simp: strip_sign_def)

lemma based_digits: "list_all is_digit ds \<Longrightarrow> \<not> based ''x'' ds"
  using digit_no_letter by (auto simp: based_def split: list.split)

lemma read_float_digits:
  assumes "ds \<noteq> []" "list_all is_digit ds"
  shows "read_float ds = Some (of_int (digits_val 0 ds))"
proof -
  have "CHR ''_'' \<notin> set ds" using assms(2) digit_no_letter by (fastforce simp: list_all_iff)
  then show ?thesis using assms
    by (simp add: read_float_def strip_sign_digits based_digits scan_digits scale_def Let_def)
qed

lemma parse_float_digits:
  assumes "ds \<noteq> []" "list_all is_digit ds" "0 \<le> digits_val 0 ds" "digits_val 0 ds < 9007199254740992"
  shows "parse_float ds = Some (Fin (of_int (digits_val 0 ds)))"
proof -
  obtain c cs where c: "ds = c # cs" "is_digit c" using assms by (cases ds) auto
  then have "lower ds \<notin> {''inf'', ''infinity'', ''nan''}"
    using digit_no_letter[of c] by (auto simp: lower_def)
  then show ?thesis using assms
    by (simp add: parse_float_def strip_sign_digits read_float_digits round64_int)
qed

section \<open>Hostile numbers\<close>

text \<open>The floats a header can stand for are not NaN and are infinite only when written so.\<close>

lemma f_of_int_small: "0 \<le> m \<Longrightarrow> m < 9007199254740992 \<Longrightarrow> f_of_int m = Fin (of_int m)"
  by (rule f_of_int_exact)

lemma limits [simp]:
  "max_seconds = Fin 3153600000" "f_of_int 2147483647 = Fin 2147483647"
  "f_of_int 100000000000 = Fin 100000000000" "f_of_int second = Fin 1000000000"
  by (simp_all add: max_seconds_def f_of_int_small)

lemma f_trunc_floor:
  assumes "0 \<le> q" "q \<le> of_int max_int64"
  shows "f_trunc oob (Fin q) = \<lfloor>q\<rfloor>"
proof -
  have "0 \<le> \<lfloor>q\<rfloor>" "\<lfloor>q\<rfloor> \<le> max_int64" using assms by (simp_all add: floor_le_iff)
  then show ?thesis using assms by (simp add: f_trunc_def in_i64_def)
qed

lemma parse_number_not_nan: "parse_number v = Some f \<Longrightarrow> f \<noteq> NaN"
  by (auto simp: parse_number_def Let_def split: if_splits option.splits)

lemma f_min_bounds:
  assumes "f \<noteq> NaN" "\<not> f_less f (Fin 0)" "0 \<le> b"
  obtains q where "f_min f (Fin b) = Fin q" "0 \<le> q" "q \<le> b"
proof (cases f)
  case (Inf s)
  with assms that show ?thesis by (cases s) (auto simp: f_min_def)
next
  case (Fin q)
  with assms that show ?thesis by (cases "b < q") (auto simp: f_min_def)
qed (use assms in simp)

lemma parse_seconds_bounded:
  assumes "parse_seconds oob v = Some d"
  shows "0 \<le> d" "d \<le> 2 ^ 62" "parse_seconds oob' v = Some d"
proof -
  obtain f where f: "parse_number v = Some f" "\<not> f_less f (Fin 0)"
    "d = f_trunc oob (f_ceil (f_mul (f_min f max_seconds) (f_of_int second)))"
    using assms by (auto simp: parse_seconds_def split: bind_splits if_splits)
  obtain q where q: "f_min f (Fin 3153600000) = Fin q" "0 \<le> q" "q \<le> 3153600000"
    using f_min_bounds[OF parse_number_not_nan[OF f(1)] f(2), of 3153600000] by auto
  have "q * 1000000000 \<le> pow2 62" using q(3) by (simp add: pow2_def)
  then obtain y where y: "round64 (q * 1000000000) = Fin y" "0 \<le> y" "y \<le> pow2 62"
    using round64_le_pow2[of "q * 1000000000" 62] q(2) by auto
  have "\<lceil>y\<rceil> \<le> 2 ^ 62" using y(3) by (simp add: pow2_def ceiling_le_iff)
  moreover have "0 \<le> \<lceil>y\<rceil>" using y(2) by linarith
  ultimately have c: "0 \<le> \<lceil>y\<rceil>" "\<lceil>y\<rceil> \<le> 2 ^ 62" by simp_all
  have "f_trunc ob (Fin (of_int \<lceil>y\<rceil>)) = \<lceil>y\<rceil>" for ob
    using c by (subst f_trunc_floor) simp_all
  then have "f_trunc ob (f_ceil (f_mul (f_min f max_seconds) (f_of_int second))) = \<lceil>y\<rceil>" for ob
    by (simp add: q(1) y(1) f_ceil_def)
  then show "0 \<le> d" "d \<le> 2 ^ 62" "parse_seconds oob' v = Some d"
    using c f by (simp_all add: parse_seconds_def)
qed

lemma parse_count_bounded:
  assumes "parse_count oob v = Some n"
  shows "0 \<le> n" "n \<le> 2147483647" "parse_count oob' v = Some n"
proof -
  obtain f where f: "parse_number v = Some f" "\<not> f_less f (Fin 0)"
    "n = f_trunc oob (f_floor (f_min f (f_of_int 2147483647)))"
    using assms by (auto simp: parse_count_def split: bind_splits if_splits)
  obtain q where q: "f_min f (Fin 2147483647) = Fin q" "0 \<le> q" "q \<le> 2147483647"
    using f_min_bounds[OF parse_number_not_nan[OF f(1)] f(2), of 2147483647] by auto
  have c: "0 \<le> \<lfloor>q\<rfloor>" "\<lfloor>q\<rfloor> \<le> 2147483647" using q(2,3) by (simp_all add: floor_le_iff)
  have "f_trunc ob (f_floor (f_min f (f_of_int 2147483647))) = \<lfloor>q\<rfloor>" for ob
    using c by (simp add: q(1) f_floor_def f_trunc_floor)
  then show "0 \<le> n" "n \<le> 2147483647" "parse_count oob' v = Some n"
    using c f by (simp_all add: parse_count_def)
qed

lemma parse_epoch_bounded:
  assumes "parse_epoch oob v = Some t"
  shows "unix_epoch * second \<le> t" "t \<le> (unix_epoch + 100000000002) * second"
    "parse_epoch oob' v = Some t"
proof -
  obtain f where f: "parse_number v = Some f" "\<not> f_le f (Fin 0)" "\<not> f_less (Fin 100000000000) f"
    using assms by (auto simp: parse_epoch_def split: bind_splits if_splits)
  obtain q where q: "f = Fin q" "0 < q" "q \<le> 100000000000"
    using f parse_number_not_nan[OF f(1)] by (cases f) (auto split: if_splits)
  have i: "0 \<le> \<lfloor>q\<rfloor>" "\<lfloor>q\<rfloor> \<le> 100000000000" using q(2,3) by (simp_all add: floor_le_iff)
  let ?x = "(q - of_int \<lfloor>q\<rfloor>) * 1000000000"
  have "0 \<le> ?x" "?x \<le> pow2 30" using frac_ge_0[of q] frac_lt_1[of q] by (simp_all add: frac_def pow2_def)
  then obtain y where y: "round64 ?x = Fin y" "0 \<le> y" "y \<le> pow2 30"
    using round64_le_pow2[of ?x 30] by auto
  have n: "0 \<le> \<lfloor>y\<rfloor>" "\<lfloor>y\<rfloor> \<le> 1073741824"
    using y(2,3) by (simp_all add: floor_le_iff pow2_def)
  have p: "parse_epoch ob v = Some ((\<lfloor>q\<rfloor> + unix_epoch) * second + \<lfloor>y\<rfloor>)" for ob
  proof -
    have "f_trunc ob (Fin (of_int \<lfloor>q\<rfloor>)) = \<lfloor>q\<rfloor>" using i by (simp add: f_trunc_floor)
    moreover have "f_trunc ob (Fin y) = \<lfloor>y\<rfloor>" using y(2,3) by (simp add: f_trunc_floor pow2_def)
    ultimately show ?thesis using f q y(1) by (simp add: parse_epoch_def modf_def Let_def)
  qed
  then have t: "t = (\<lfloor>q\<rfloor> + unix_epoch) * second + \<lfloor>y\<rfloor>" using assms by simp
  have "\<lfloor>q\<rfloor> * second + \<lfloor>y\<rfloor> \<le> 100000000002 * second" "0 \<le> \<lfloor>q\<rfloor> * second + \<lfloor>y\<rfloor>"
    using i n by linarith+
  then show "unix_epoch * second \<le> t" "t \<le> (unix_epoch + 100000000002) * second"
    unfolding t distrib_right by linarith+
  show "parse_epoch oob' v = Some t" using p t by simp
qed

text \<open>No conversion in them leaves the range of an integer.\<close>

lemma no_overflow:
  "parse_seconds oob v = parse_seconds (\<lambda>_. 0) v"
  "parse_count oob v = parse_count (\<lambda>_. 0) v"
  "parse_epoch oob v = parse_epoch (\<lambda>_. 0) v"
  using parse_seconds_bounded(3) parse_count_bounded(3) parse_epoch_bounded(3)
  by (metis option.exhaust)+

lemma parse_retry_after_bounded:
  assumes "parse_retry_after loc oob v now = Some d"
  shows "0 \<le> d" "d \<le> max_int64" "parse_retry_after loc oob' v now = Some d"
proof -
  have "parse_retry_after loc oob' v now = parse_retry_after loc oob v now"
    unfolding parse_retry_after_def no_overflow(1)[of oob] no_overflow(1)[of oob'] ..
  then show "parse_retry_after loc oob' v now = Some d" using assms by simp
  have s: "0 \<le> x" "x \<le> max_int64" if "parse_seconds oob w = Some x" for w x
    using parse_seconds_bounded(1,2)[OF that] by simp_all
  show "0 \<le> d" "d \<le> max_int64"
    using assms s by (auto simp: parse_retry_after_def Let_def time_sub_def split: if_splits option.splits)
qed

text \<open>\<open>inside lo hi x\<close>: a number that was read lies between the bounds.\<close>

definition inside :: "int \<Rightarrow> int \<Rightarrow> int option \<Rightarrow> bool" where
  "inside lo hi x \<longleftrightarrow> (case x of None \<Rightarrow> True | Some n \<Rightarrow> lo \<le> n \<and> n \<le> hi)"

lemma inside_or_zero: "inside lo hi x \<Longrightarrow> lo \<le> 0 \<or> x \<noteq> None \<Longrightarrow> 0 \<le> hi \<Longrightarrow> lo \<le> or_zero x \<and> or_zero x \<le> hi"
  by (auto simp: inside_def or_zero_def split: option.splits)

lemma headers_inside:
  "inside 0 max_int64 (parse_retry_after loc oob v now)"
  "inside 0 max_int64 (parse_seconds oob v)"
  "inside 0 2147483647 (parse_count oob v)"
  "inside 0 ((unix_epoch + 100000000002) * second) (parse_epoch oob v)"
  using parse_retry_after_bounded(1,2)[of loc oob v now] parse_seconds_bounded(1,2)[of oob v]
    parse_count_bounded(1,2)[of oob v] parse_epoch_bounded(1,2)[of oob v]
  by (fastforce simp: inside_def unix_epoch_def split: option.split)+

lemma quota_inside: "inside 0 hi r \<Longrightarrow> inside 0 hi l \<Longrightarrow> inside 0 hi u \<Longrightarrow> inside 0 hi (quota_of r l u)"
  by (auto simp: inside_def quota_of_def max_def split: option.splits)

lemma headers_signal_bounded:
  assumes "inside 0 max_int64 ra" "inside 0 max_int64 de" "inside 0 2147483647 re" "inside 0 2147483647 li"
    "inside 0 ((unix_epoch + 100000000002) * second) rs"
  shows "let s = headers_signal key t ra re li rs de in
     0 \<le> sg_retry_after s \<and> sg_retry_after s \<le> max_int64
     \<and> 0 \<le> sg_remaining s \<and> sg_remaining s \<le> 2147483647 \<and> 0 \<le> sg_limit s \<and> sg_limit s \<le> 2147483647
     \<and> 0 \<le> sg_reset_at s \<and> sg_reset_at s \<le> (unix_epoch + 100000000002) * second"
  using assms[THEN inside_or_zero] by (simp add: headers_signal_def Let_def unix_epoch_def)

lemma parse_response_oob: "parse_response loc oob resp key now = parse_response loc (\<lambda>_. 0) resp key now"
  unfolding parse_response_def parse_retry_after_def no_overflow[of oob] ..

lemma unreported_is_none:
  "snd (parse_response loc oob resp key now) \<or> now' < 0
    \<or> classify (fst (parse_response loc oob resp key now)) now' = SignalNone"
  by (auto simp: parse_response_def Let_def headers_signal_def classify_def or_zero_def)

text \<open>
  C20: no header can make a signal overflow.  Whatever the response carries, the delay and the counts of
  its signal are non-negative and bounded, so the conversions from floats are in range, the deadline
  is a time of this era, the product in the classification does not wrap, and a response that is not
  reported says nothing, at any time from the year 1 on.
\<close>

theorem signal_is_bounded:
  "let (s, found) = parse_response loc oob resp key now in
     sg_key s = key \<and> 0 \<le> sg_retry_after s \<and> sg_retry_after s \<le> max_int64
     \<and> 0 \<le> sg_remaining s \<and> sg_remaining s \<le> 2147483647 \<and> 0 \<le> sg_limit s \<and> sg_limit s \<le> 2147483647
     \<and> 0 \<le> sg_reset_at s \<and> sg_reset_at s \<le> (unix_epoch + 100000000002) * second
     \<and> i64 (sg_remaining s * advisory_quota_divisor) = 4 * sg_remaining s
     \<and> parse_response loc oob' resp key now = (s, found)
     \<and> (found \<or> now' < 0 \<or> classify s now' = SignalNone)"
proof -
  obtain s found where p: "parse_response loc oob resp key now = (s, found)" by fastforce
  obtain t ra re li us rs de where s: "s = headers_signal key t ra (quota_of re li us) li rs de"
    and w: "inside 0 max_int64 ra" "inside 0 max_int64 de" "inside 0 2147483647 re" "inside 0 2147483647 li"
      "inside 0 2147483647 us" "inside 0 ((unix_epoch + 100000000002) * second) rs"
    using p headers_inside unfolding parse_response_def Let_def prod.inject by metis
  note b = headers_signal_bounded[OF w(1,2) quota_inside[OF w(3-5)] w(4,6), of key t, folded s, unfolded Let_def]
  then have "small_counters s" by (simp add: small_counters_def)
  from quota_product_exact[OF this] b show ?thesis
    using p unreported_is_none[of loc oob resp key now now']
      parse_response_oob[of loc oob] parse_response_oob[of loc oob']
    by (simp add: s headers_signal_def)
qed

section \<open>Both forms of Retry-After\<close>

lemma trim_digits: "ds \<noteq> [] \<Longrightarrow> list_all is_digit ds \<Longrightarrow> trim_space ds = ds"
  by (rule trim_space_id) (auto simp: list_all_iff intro: digit_visible)

lemma parse_seconds_dec:
  assumes "int n \<le> 3153600000"
  shows "parse_seconds oob (dec_nat n) = Some (int n * second)"
proof -
  have d: "dec_nat n \<noteq> []" "list_all is_digit (dec_nat n)" using dec_nat_digits by auto
  have p: "parse_number (dec_nat n) = Some (Fin (of_nat n))"
    using assms d parse_float_digits[OF d] by (simp add: parse_number_def trim_digits digits_val_dec_nat)
  have m: "f_min (Fin (of_nat n)) (Fin 3153600000) = Fin (of_nat n :: rat)"
  proof -
    have "(of_nat n :: rat) \<le> 3153600000"
      using assms by (metis of_int_le_iff of_int_numeral of_int_of_nat_eq)
    then show ?thesis by (simp add: f_min_def)
  qed
  have r: "round64 (of_nat n * 1000000000) = Fin (of_nat n * 1000000000)"
  proof (cases "n = 0")
    case False
    have "round64 (of_int (int n * 1953125) * pow2 9) = Fin (of_int (int n * 1953125) * pow2 9)"
      using assms False by (intro round64_exact) simp_all
    moreover have "of_int (int n * 1953125) * pow2 9 = (of_nat n * 1000000000 :: rat)"
      by (simp add: pow2_def)
    ultimately show ?thesis by (simp only:)
  qed (simp add: round64_def)
  have c: "f_ceil (Fin (of_nat n * 1000000000)) = Fin (of_int (int n * second))"
    by (simp add: f_ceil_def ceiling_eq_iff)
  have "f_trunc oob (Fin (of_int (int n * second))) = int n * second"
    using assms by (intro f_trunc_int) (simp add: in_i64_def)
  then show ?thesis by (simp add: parse_seconds_def p m r c)
qed

lemma look_up_nth:
  assumes "\<forall>n \<in> set ns. length n = k" "distinct (map lower ns)" "i < length ns"
  shows "look_up ns (ns ! i @ r) = Some (int i, r)"
  using assms
proof (induction ns arbitrary: i)
  case (Cons n ns)
  show ?case
  proof (cases i)
    case (Suc j)
    then have "ns ! j \<in> set ns" using Cons.prems(3) by simp
    then have "length (ns ! j) = k" "lower (ns ! j) \<noteq> lower n"
      using Cons.prems(1,2) by (simp_all add: image_iff) metis
    then show ?thesis using Cons Suc by simp
  qed simp
qed simp

lemma names:
  "\<forall>n \<in> set short_days. length n = 3" "distinct (map lower short_days)" "length short_days = 7"
  "\<forall>n \<in> set short_months. length n = 3" "distinct (map lower short_months)" "length short_months = 12"
  "\<forall>n \<in> set short_months. hd n \<noteq> CHR '' ''" "\<forall>n \<in> set short_days. visible (hd n) \<and> \<not> is_digit (hd n)"
  by code_simp+

lemma look_up_day: "w < 7 \<Longrightarrow> look_up short_days (short_days ! w @ r) = Some (int w, r)"
  by (rule look_up_nth[OF names(1,2)]) (simp add: names)

lemma month_name_nth: "1 \<le> m \<Longrightarrow> m \<le> 12 \<Longrightarrow> month_name (short_months ! nat (m - 1) @ r) = Some (m, r)"
  using look_up_nth[OF names(4,5), of "nat (m - 1)" r] by (simp add: month_name_def names)

lemma digit_not_space: "n < 10 \<Longrightarrow> digit n \<noteq> CHR '' ''"
  using is_digit_digit[of n] by (auto simp: is_digit_iff simp del: is_digit_digit)

lemma skip_space: "skip_layout '' '' (CHR '' '' # r) = Some (dropWhile (\<lambda>c. c = CHR '' '') r)"
  "skip_layout '', '' (CHR '','' # CHR '' '' # r) = Some (dropWhile (\<lambda>c. c = CHR '' '') r)"
  "skip_layout '':'' (CHR '':'' # r) = Some r"
  "skip_layout '' GMT'' '' GMT'' = Some []"
  by simp_all

lemma dropWhile_number [simp]:
  assumes "0 \<le> x" "x < 100"
  shows "dropWhile (\<lambda>c. c = CHR '' '') (append_int x 2 @ r) = append_int x 2 @ r"
  using assms digit_not_space[of "nat x div 10"] by (simp add: append_int_2)

lemma dropWhile_year [simp]:
  assumes "0 \<le> y" "y < 10000"
  shows "dropWhile (\<lambda>c. c = CHR '' '') (append_int y 4 @ r) = append_int y 4 @ r"
  using assms by (simp add: append_int_4)

lemma dropWhile_month [simp]:
  assumes "1 \<le> m" "m \<le> 12"
  shows "dropWhile (\<lambda>c. c = CHR '' '') (short_months ! nat (m - 1) @ r) = short_months ! nat (m - 1) @ r"
proof -
  have "short_months ! nat (m - 1) \<in> set short_months" using assms by (simp add: names)
  then have "length (short_months ! nat (m - 1)) = 3" "hd (short_months ! nat (m - 1)) \<noteq> CHR '' ''"
    using names by blast+
  then show ?thesis by (cases "short_months ! nat (m - 1)") auto
qed

lemma parse_imf_parts:
  assumes "w < 7" "0 \<le> y" "y < 10000" "1 \<le> m" "m \<le> 12" "1 \<le> d" "d \<le> days_in m y"
    "0 \<le> h" "h < 24" "0 \<le> mi" "mi < 60" "0 \<le> sc" "sc < 60"
  shows "parse_imf (short_days ! w @ '', '' @ append_int d 2 @ '' '' @ short_months ! nat (m - 1) @ '' ''
      @ append_int y 4 @ '' '' @ append_int h 2 @ '':'' @ append_int mi 2 @ '':'' @ append_int sc 2 @ '' GMT'')
    = Some ((days_of_civil y m d * 86400 + h * 3600 + mi * 60 + sc) * second)"
proof -
  have d: "d < 100" using assms(5-7) days_in_le[OF assms(4,5), of y] by simp
  have f: "parse_frac '' GMT'' = (0, '' GMT'')" by (simp add: parse_frac_def)
  show ?thesis using assms d
    by (simp add: parse_imf_def look_up_day skip_space month_name_nth clock_time_def in_range_def f date_of_def algebra_simps
        del: skip_layout.simps)
qed

lemma parse_float_word:
  assumes "visible c" "\<not> is_digit c" "c \<notin> set ''+-._''" "8 < length r"
  shows "parse_float (c # r) = None"
proof -
  have "lower (c # r) \<notin> {''inf'', ''infinity'', ''nan''}"
    using assms(4) by (auto simp: lower_def dest: arg_cong[where f = length])
  moreover have "read_float (c # r) = None"
    using assms(2,3) by (auto simp: read_float_def strip_sign_def based_def digit_in_def is_digit_def
        digit_val_def Let_def split: list.split)
  ultimately show ?thesis using assms(3) by (simp add: parse_float_def strip_sign_def)
qed

lemma imf_date_shape:
  assumes "w < 7"
  obtains c r where "imf_date w t = c # r" "visible c" "\<not> is_digit c" "c \<notin> set ''+-._''" "8 < length r"
    "visible (last (c # r))"
proof -
  have d: "short_days ! w \<in> set short_days" using assms by (simp add: names)
  then have "length (short_days ! w) = 3" using names(1) by blast
  then obtain c r where cr: "short_days ! w = c # r" by (cases "short_days ! w") simp_all
  have "\<forall>n \<in> set short_days. hd n \<notin> set ''+-._''" by code_simp
  with d cr names(8) have c: "visible c" "\<not> is_digit c" "c \<notin> set ''+-._''" by force+
  define u where "u = (let (y, m, d) = civil_of_days (t div second div 86400); sod = t div second mod 86400
      in '', '' @ append_int d 2 @ '' '' @ short_months ! nat (m - 1) @ '' ''
         @ append_int y 4 @ '' '' @ append_int (sod div 3600) 2 @ '':'' @ append_int (sod mod 3600 div 60) 2
         @ '':'' @ append_int (sod mod 60) 2 @ '' GMT'')"
  have i: "imf_date w t = (c # r) @ u" by (simp add: imf_date_def u_def cr Let_def split: prod.split)
  have "8 < length u" "last u = CHR ''T''" by (simp_all add: u_def Let_def split: prod.split)
  moreover from this have "u \<noteq> []" by auto
  ultimately have "8 < length (r @ u)" "visible (last (c # r @ u))" by (simp_all add: visible_def)
  with that[of c "r @ u"] i c show thesis by simp
qed

lemma parse_imf_date:
  assumes "w < 7" "printable (Time t 0)"
  shows "parse_imf (imf_date w t) = Some (trunc_second t)"
proof -
  define secs where "secs = t div second"
  obtain y m d where c: "civil_of_days (secs div 86400) = (y, m, d)" by (metis prod_cases3)
  define sod where "sod = secs mod 86400"
  note C = civil_of_days_correct[OF c]
  have y: "0 \<le> y" "y < 10000" using assms(2) c by (auto simp: printable_def civil_year_def secs_def)
  have s: "0 \<le> sod div 3600" "sod div 3600 < 24" "0 \<le> sod mod 3600 div 60"
    "sod mod 3600 div 60 < 60" "0 \<le> sod mod 60" "sod mod 60 < 60"
    by (auto simp: sod_def)
  have "sod mod 3600 div 60 * 60 + sod mod 60 = sod mod 3600"
    using div_mult_mod_eq[of "sod mod 3600" 60] by (simp add: mod_mod_cancel)
  then have "secs div 86400 * 86400 + sod div 3600 * 3600 + sod mod 3600 div 60 * 60 + sod mod 60 = secs"
    using div_mult_mod_eq[of sod 3600] div_mult_mod_eq[of secs 86400] unfolding sod_def by linarith
  then have eq: "(days_of_civil y m d * 86400 + sod div 3600 * 3600 + sod mod 3600 div 60 * 60 + sod mod 60) * second
      = trunc_second t"
    by (simp only: C(5) trunc_second_def secs_def)
  have "imf_date w t = short_days ! w @ '', '' @ append_int d 2 @ '' '' @ short_months ! nat (m - 1) @ '' ''
      @ append_int y 4 @ '' '' @ append_int (sod div 3600) 2 @ '':'' @ append_int (sod mod 3600 div 60) 2
      @ '':'' @ append_int (sod mod 60) 2 @ '' GMT''"
    by (simp only: imf_date_def Let_def c prod.case flip: secs_def sod_def)
  then show ?thesis by (simp only: parse_imf_parts[OF assms(1) y C(1-4) s] eq)
qed

lemma retry_after_date:
  assumes "w < 7" "printable (Time t 0)"
  shows "parse_retry_after loc oob (imf_date w t) now = Some (max 0 (time_sub (trunc_second t) now))"
proof -
  obtain c r where i: "imf_date w t = c # r" "visible c" "\<not> is_digit c" "c \<notin> set ''+-._''" "8 < length r"
    "visible (last (c # r))" using assms(1) by (rule imf_date_shape)
  then have t: "trim_space (imf_date w t) = imf_date w t" by (intro trim_space_id) simp_all
  then have "parse_seconds oob (imf_date w t) = None"
    using parse_float_word[OF i(2-5)] by (simp add: parse_seconds_def parse_number_def i(1))
  then show ?thesis using parse_imf_date[OF assms] i(1) t by (simp add: parse_retry_after_def parse_time_def)
qed

text \<open>
  Both forms of Retry-After read back.  A whole number of seconds, up to the cap of a hundred
  years, is that delay exactly, in spite of the detour through floats; the date of an instant, as
  \<open>http.TimeFormat\<close> prints it, is the time left until its second, and no delay once that has passed.
\<close>

theorem retry_after_round_trip:
  assumes "int n \<le> 3153600000" "w < 7" "printable (Time t 0)"
  shows "parse_retry_after loc oob (dec_nat n) now = Some (int n * second)
    \<and> parse_retry_after loc oob (imf_date w t) now = Some (max 0 (time_sub (trunc_second t) now))"
proof
  have "dec_nat n \<noteq> []" "list_all is_digit (dec_nat n)" using dec_nat_digits by auto
  then show "parse_retry_after loc oob (dec_nat n) now = Some (int n * second)"
    using assms(1) by (simp add: parse_retry_after_def trim_digits parse_seconds_dec)
  show "parse_retry_after loc oob (imf_date w t) now = Some (max 0 (time_sub (trunc_second t) now))"
    by (rule retry_after_date[OF assms(2,3)])
qed

theorem retry_after_round_trip_witness:
  "parse_retry_after (\<lambda>_ _. None) (\<lambda>_. 0) ''120'' 0 = Some (120 * second)
   \<and> parse_retry_after (\<lambda>_ _. None) (\<lambda>_. 0) ''Sun, 06 Nov 1994 08:49:37 GMT'' 62919708500000000000 = Some (77 * second)"
proof -
  have "printable (Time 62919708577000000000 0)" by code_simp
  moreover have "dec_nat 120 = ''120''" by code_simp
  moreover have "imf_date 0 62919708577000000000 = ''Sun, 06 Nov 1994 08:49:37 GMT''" by code_simp
  ultimately show ?thesis
    using retry_after_round_trip[of 120 0 62919708577000000000 "\<lambda>_ _. None" "\<lambda>_. 0" 0]
      retry_after_round_trip[of 120 0 62919708577000000000 "\<lambda>_ _. None" "\<lambda>_. 0" 62919708500000000000]
    by (simp add: trunc_second_def time_sub_def)
qed

section \<open>From a response to the gate\<close>

text \<open>A governor as the sink of a request: \<open>Observe\<close> reads the clock and updates the governor in the world.\<close>

definition governor_sink ::
  "('w \<Rightarrow> 'w \<times> instant) \<Rightarrow> ('w \<Rightarrow> governor) \<times> (governor \<Rightarrow> 'w \<Rightarrow> 'w) \<Rightarrow> signal \<Rightarrow> 'w \<Rightarrow> 'w" where
  "governor_sink clock lens s w = (let (w, t) = clock w in snd lens (observe_signal t s (fst lens w)) w)"

lemma retry_after_throttles:
  assumes "rp_status resp \<in> {429, 403, 503}" "header_get (rp_header resp) header_retry_after = dec_nat n"
    and "0 < n" "int n \<le> 3153600000" "parse_response loc oob resp key now = (s, found)"
  shows "found" "classify s t = SignalThrottled" "sg_key s = key" "t + int n * second \<le> signal_deadline s t"
proof -
  have "dec_nat n \<noteq> []" "list_all is_digit (dec_nat n)" using dec_nat_digits by auto
  then have ra: "parse_retry_after loc oob (dec_nat n) now = Some (int n * second)"
    using assms(4) by (simp add: parse_retry_after_def trim_digits parse_seconds_dec)
  then have s: "found" "sg_throttled s" "sg_key s = key" "sg_retry_after s = int n * second"
    using assms(1,2,5) by (auto simp: parse_response_def Let_def headers_signal_def throttled_status_def or_zero_def)
  then show "found" "classify s t = SignalThrottled" "sg_key s = key" by (simp_all add: classify_throttled_iff)
  show "t + int n * second \<le> signal_deadline s t"
    using assms(3) by (simp add: signal_deadline_def s(4) time_add_def Let_def)
qed

text \<open>
  C19: a server that says when to come back is believed.  When a response through the transport is a 429,
  a 403 or a 503 with a Retry-After of \<open>n\<close> seconds, the caller gets it unchanged, and from the moment the
  governor hears of it, whatever the governor does in between, every call gated on the request's key
  is deferred as throttled until \<open>n\<close> seconds have passed.
\<close>

theorem throttled_response_gates_key:
  assumes "tr_base tr = Some base" "base req w = (w1, Some resp, None)"
    and "rp_status resp \<in> {429, 403, 503}" "header_get (rp_header resp) header_retry_after = dec_nat n"
    and "0 < n" "int n \<le> 3153600000" "key = key_for (pf_lower P) req" "key \<noteq> []"
    and "rq_sink req = Some (governor_sink clock (getg, putg))" "\<And>g w. getg (putg g w) = g"
    and "tr_now tr = Some now0" "now0 w1 = (w2, t0)" "clock w2 = (w3, t)" "\<not> g_ignore_signals (getg w3)"
    and "round_trip P tr req w = (w', r)"
    and "gov_steps (getg w', ts) (g', ts')" "key \<in> set ks" "now < t + int n * second"
  shows "r = (Some resp, None) \<and> (\<exists>g'' d. acquire_all jit now ks g' = (g'', Some d)
    \<and> d_reason d = DeferThrottled \<and> t + int n * second \<le> d_until d \<and> 0 < d_requeue_after d)"
proof -
  obtain s found where p: "parse_response (pf_zones P) (pf_oob P) resp key t0 = (s, found)" by fastforce
  note s = retry_after_throttles[OF assms(3-6) p]
  have w': "w' = putg (observe_signal t s (getg w3)) w3" and r: "r = (Some resp, None)"
    using assms(1,2,7-9,11-13,15) p s(1,3) by (auto simp: round_trip_def report_def governor_sink_def)
  have "gov_steps (observe_signal t s (getg w3), ts) (g', ts')" using assms(10,16) by (simp add: w')
  from hold_lasts[OF s(2) _ assms(14) this] have "signal_deadline s t \<le> ks_hold_until (key_state_of g' key)"
    using assms(8) s(3) by simp
  then have "t + int n * second \<le> ks_hold_until (key_state_of g' key)" using s(4)[of t] by simp
  from held_call_deferred[OF assms(17,8,18) this, of jit] r show ?thesis by blast
qed

text \<open>A server that answers 429 for two minutes, and a world that is a clock and a governor.\<close>

definition busy_server :: "(instant \<times> governor) request \<Rightarrow> instant \<times> governor
    \<Rightarrow> (instant \<times> governor) \<times> response option \<times> unit option" where
  "busy_server req w =
     (w, Some \<lparr>rp_status = 429, rp_header = Mapping.update header_retry_after [''120''] Mapping.empty\<rparr>, None)"

definition demo_transport :: "(instant \<times> governor, unit) transport" where
  "demo_transport = \<lparr>tr_base = Some busy_server, tr_now = Some (\<lambda>w. (w, fst w))\<rparr>"

definition demo_request :: "(instant \<times> governor) request" where
  "demo_request = \<lparr>rq_key = None, rq_sink = Some (governor_sink (\<lambda>w. (w, fst w)) (snd, \<lambda>g w. (fst w, g))),
     rq_host = ''API.example.org''\<rparr>"

definition demo_platform :: "(instant \<times> governor, unit) platform" where
  "demo_platform = \<lparr>pf_transport = busy_server, pf_now = (\<lambda>w. (w, 0)), pf_zones = (\<lambda>_ _. None),
     pf_lower = (\<lambda>s. s), pf_oob = (\<lambda>_. 0)\<rparr>"

theorem throttled_response_gates_key_witness:
  "\<exists>g' d. acquire_all (\<lambda>h. h) (119 * second) [''api.example.org'']
      (snd (fst (round_trip demo_platform demo_transport demo_request (7, gov2)))) = (g', Some d)
    \<and> d_reason d = DeferThrottled \<and> 7 + 120 * second \<le> d_until d"
proof -
  have k: "key_for (pf_lower demo_platform) demo_request = ''api.example.org''" by code_simp
  have d: "dec_nat 120 = ''120''" by code_simp
  have g: "\<not> g_ignore_signals gov2"
    by (simp add: gov2_def two_workers_def off_saturation_def new_governor_def)
  let ?resp = "\<lparr>rp_status = 429, rp_header = Mapping.update header_retry_after [''120''] Mapping.empty\<rparr>"
  have h: "header_get (rp_header ?resp) header_retry_after = dec_nat 120"
    by (simp add: header_get_def d lookup_update')
  show ?thesis
    using throttled_response_gates_key[where tr = demo_transport and base = busy_server and req = demo_request
        and w = "(7, gov2)" and ?w1.0 = "(7, gov2)" and resp = ?resp and n = 120 and key = "''api.example.org''"
        and P = demo_platform and clock = "\<lambda>w. (w, fst w)" and getg = snd and putg = "\<lambda>g w. (fst w, g)"
        and ?now0.0 = "\<lambda>w. (w, fst w)" and ?w2.0 = "(7, gov2)" and ?t0.0 = 7 and ?w3.0 = "(7, gov2)" and t = 7
        and ks = "[''api.example.org'']" and now = "119 * second" and jit = "\<lambda>h. h",
        OF _ _ _ h _ _ k[symmetric] _ _ _ _ _ _ _ prod.collapse[symmetric] gov_steps.refl] g
    by (auto simp: demo_transport_def demo_request_def busy_server_def)
qed

end
