(* ===== verification/Cgroup.thy ===== *)
theory Cgroup
  imports Strconv Saturation
begin

text \<open>
  The reader of the cgroup v2 files in src/pkg/ratelimit/saturation.go: lines and fields of a file,
  the pressure, the working set, and the process's own cgroup directory.  The file system is a
  parameter: \<open>os.OpenRoot\<close>, and within a root \<open>ReadFile\<close> and \<open>Stat\<close>.  So is \<open>strconv.Quote\<close>, which only
  occurs in messages.
\<close>

section \<open>Files\<close>

record io_error =
  io_not_exist :: bool
  io_text :: string

record os_root =
  ro_read :: "string \<Rightarrow> io_error + string"
  ro_is_dir :: "string \<Rightarrow> bool"

record file_system =
  fs_open_root :: "string \<Rightarrow> io_error + os_root"
  fs_quote :: "string \<Rightarrow> string"

definition missing_why :: "string \<Rightarrow> io_error \<Rightarrow> string" where
  "missing_why file e =
     (if io_not_exist e then file @ '' not found (no cgroup v2 or no PSI on this kernel)''
      else file @ '': '' @ io_text e)"

section \<open>Lines and fields\<close>

definition newline :: char where "newline = byte 10"

definition drop_cr :: "string \<Rightarrow> string" where
  "drop_cr l = (if l \<noteq> [] \<and> last l = byte 13 then butlast l else l)"

text \<open>
  \<open>bufio.Scanner\<close> over a file in memory: it ends at the first line that does not fit the 64 KiB
  of its buffer with the end of the line.
\<close>

fun scan_lines_from :: "string \<Rightarrow> string \<Rightarrow> string list" where
  "scan_lines_from cur [] = (if cur = [] \<or> int (length cur) > 65535 then [] else [drop_cr (rev cur)])"
| "scan_lines_from cur (c # cs) =
     (if c \<noteq> newline then scan_lines_from (c # cur) cs
      else if int (length cur) > 65535 then [] else drop_cr (rev cur) # scan_lines_from [] cs)"

definition scan_lines :: "string \<Rightarrow> string list" where "scan_lines s = scan_lines_from [] s"

text \<open>\<open>strings.Fields\<close>: what stands between spaces; the number is how many bytes of a space are left.\<close>

fun split_fields :: "nat \<Rightarrow> string \<Rightarrow> string \<Rightarrow> string list" where
  "split_fields n cur [] = (if cur = [] then [] else [rev cur])"
| "split_fields (Suc n) cur (c # cs) = split_fields n cur cs"
| "split_fields 0 cur (c # cs) =
     (case List.find (\<lambda>w. prefix w (c # cs)) white_runes of
        Some w \<Rightarrow> (if cur = [] then [] else [rev cur]) @ split_fields (length w - 1) [] cs
      | None \<Rightarrow> split_fields 0 (c # cur) cs)"

definition text_fields :: "string \<Rightarrow> string list" where "text_fields s = split_fields 0 [] s"

text \<open>\<open>strings.Cut(s, " ")\<close>.\<close>

definition cut_space :: "string \<Rightarrow> (string \<times> string) option" where
  "cut_space s =
     (if CHR '' '' \<in> set s
      then Some (takeWhile (\<lambda>c. c \<noteq> CHR '' '') s, drop 1 (dropWhile (\<lambda>c. c \<noteq> CHR '' '') s)) else None)"

section \<open>Pressure\<close>

text \<open>The first \<open>avg10\<close> among the fields of a line; \<open>Inl\<close> the field when it does not parse.\<close>

fun find_avg10 :: "string list \<Rightarrow> (string + f64) option" where
  "find_avg10 [] = None"
| "find_avg10 (f # fs) =
     (case strip_prefix ''avg10='' f of
        None \<Rightarrow> find_avg10 fs
      | Some v \<Rightarrow> Some (case parse_float v of
            None \<Rightarrow> Inl f
          | Some p \<Rightarrow> if f_less p (Fin 0) then Inl f else Inr p))"

fun find_pressure :: "string \<Rightarrow> string list \<Rightarrow> (string + f64) option" where
  "find_pressure line [] = None"
| "find_pressure line (l # ls) =
     (case text_fields l of
        f # fs \<Rightarrow> if f = line then (case find_avg10 fs of None \<Rightarrow> find_pressure line ls | r \<Rightarrow> r)
                  else find_pressure line ls
      | [] \<Rightarrow> find_pressure line ls)"

definition enabled :: "f64 \<Rightarrow> reading" where
  "enabled p = \<lparr>rd_enabled = True, rd_percent = p, rd_disabled_because = []\<rparr>"

definition read_pressure :: "(string \<Rightarrow> string) \<Rightarrow> os_root \<Rightarrow> string \<Rightarrow> string \<Rightarrow> reading" where
  "read_pressure quote rt file line =
     (case ro_read rt file of
        Inl e \<Rightarrow> disabled (missing_why file e)
      | Inr b \<Rightarrow> (case find_pressure line (scan_lines b) of
            None \<Rightarrow> disabled (file @ '': no '' @ quote line @ '' avg10 value'')
          | Some (Inl f) \<Rightarrow> disabled (file @ '': cannot parse '' @ quote f)
          | Some (Inr p) \<Rightarrow> enabled p))"

section \<open>Working set\<close>

fun stat_value :: "string \<Rightarrow> string list \<Rightarrow> int option" where
  "stat_value key [] = None"
| "stat_value key (l # ls) =
     (case cut_space l of
        Some (k, v) \<Rightarrow> if k = key then parse_uint (trim_space v) else stat_value key ls
      | None \<Rightarrow> stat_value key ls)"

definition working_set :: "int \<Rightarrow> int \<Rightarrow> int" where
  "working_set current inactive = (if current > inactive then current - inactive else 0)"

definition read_working_set :: "(string \<Rightarrow> string) \<Rightarrow> os_root \<Rightarrow> reading" where
  "read_working_set quote rt =
     (case ro_read rt ''memory.max'' of
        Inl e \<Rightarrow> disabled (missing_why ''memory.max'' e)
      | Inr limit_raw \<Rightarrow> let limit_text = trim_space limit_raw in
     if limit_text = ''max'' then disabled ''no memory limit (memory.max is max)''
     else case parse_uint limit_text of
        None \<Rightarrow> disabled (''memory.max: cannot parse '' @ quote limit_text)
      | Some limit \<Rightarrow>
     if limit = 0 then disabled (''memory.max: cannot parse '' @ quote limit_text)
     else case ro_read rt ''memory.current'' of
        Inl e \<Rightarrow> disabled (missing_why ''memory.current'' e)
      | Inr current_raw \<Rightarrow> (case parse_uint (trim_space current_raw) of
        None \<Rightarrow> disabled (''memory.current: cannot parse '' @ quote (trim_space current_raw))
      | Some current \<Rightarrow> (case ro_read rt ''memory.stat'' of
        Inl e \<Rightarrow> disabled (missing_why ''memory.stat'' e)
      | Inr stat \<Rightarrow> (case stat_value ''inactive_file'' (scan_lines stat) of
        None \<Rightarrow> disabled ''memory.stat: no inactive_file value''
      | Some inactive \<Rightarrow>
          enabled (f_mul (f_div (f_of_int (working_set current inactive)) (f_of_int limit)) (Fin 100))))))"

section \<open>A sample\<close>

definition memory_input_off :: string where
  "memory_input_off = ''the experimental memory input is off (SaturationOptions.ExperimentalMemoryWorkingSet)''"

definition read_cgroup :: "file_system \<Rightarrow> string \<Rightarrow> bool \<Rightarrow> cgroup_sample" where
  "read_cgroup F dir memory =
     (case fs_open_root F dir of
        Inl e \<Rightarrow> (let why = ''no cgroup v2 directory at '' @ dir @ '': '' @ io_text e
                  in \<lparr>cg_cpu_pressure = disabled why, cg_working_set = disabled why\<rparr>)
      | Inr rt \<Rightarrow>
          \<lparr>cg_cpu_pressure = read_pressure (fs_quote F) rt ''cpu.pressure'' ''some'',
           cg_working_set = (if memory then read_working_set (fs_quote F) rt else disabled memory_input_off)\<rparr>)"

section \<open>The process's own cgroup\<close>

text \<open>\<open>filepath.Clean\<close> of an absolute path, as the list of its components.\<close>

fun split_slash :: "string \<Rightarrow> string \<Rightarrow> string list" where
  "split_slash cur [] = [rev cur]"
| "split_slash cur (c # cs) =
     (if c = CHR ''/'' then rev cur # split_slash [] cs else split_slash (c # cur) cs)"

fun clean_components :: "string list \<Rightarrow> string list \<Rightarrow> string list" where
  "clean_components acc [] = rev acc"
| "clean_components acc (p # ps) =
     (if p = [] \<or> p = ''.'' then clean_components acc ps
      else if p = ''..'' then clean_components (drop 1 acc) ps
      else clean_components (p # acc) ps)"

definition clean_rooted :: "string \<Rightarrow> string list" where
  "clean_rooted p = clean_components [] (split_slash [] p)"

definition default_cgroup_mount :: string where "default_cgroup_mount = ''/sys/fs/cgroup''"
definition proc_self_dir :: string where "proc_self_dir = ''/proc/self''"

text \<open>The path on the unified hierarchy's line of a cgroup file, cleaned.\<close>

fun unified_path :: "string list \<Rightarrow> string list" where
  "unified_path [] = []"
| "unified_path (l # ls) =
     (case strip_prefix ''0::'' l of Some p \<Rightarrow> clean_rooted p | None \<Rightarrow> unified_path ls)"

definition own_cgroup_dir :: "file_system \<Rightarrow> string \<Rightarrow> string \<Rightarrow> string" where
  "own_cgroup_dir F proc mount =
     (case fs_open_root F proc of
        Inl _ \<Rightarrow> mount
      | Inr proc_root \<Rightarrow> (case ro_read proc_root ''cgroup'' of
        Inl _ \<Rightarrow> mount
      | Inr b \<Rightarrow> let rel = join_strings ''/'' (unified_path (scan_lines b)) in
     if rel = [] then mount
     else case fs_open_root F mount of
        Inl _ \<Rightarrow> mount
      | Inr mount_root \<Rightarrow>
          if ro_is_dir mount_root rel
          then CHR ''/'' # join_strings ''/'' (clean_rooted (mount @ ''/'' @ rel)) else mount))"

text \<open>The directory and the switch a governor's reader is built with.\<close>

definition cgroup_dir :: "file_system \<Rightarrow> sat_options \<Rightarrow> string" where
  "cgroup_dir F opts =
     (if so_cgroup_dir opts = [] then own_cgroup_dir F proc_self_dir default_cgroup_mount else so_cgroup_dir opts)"

definition cgroup_files :: "file_system \<Rightarrow> sat_options \<Rightarrow> cgroup_sample" where
  "cgroup_files F opts = read_cgroup F (cgroup_dir F opts) (so_experimental_memory opts)"

end
