(* ===== verification/Cgroup_Props.thy ===== *)
theory Cgroup_Props
  imports Cgroup Governor_Props
begin

text \<open>Properties of what the saturation input reads from the cgroup files.\<close>

section \<open>Paths\<close>

text \<open>A component of a clean path: it names something below, and no separator is in it.\<close>

definition plain_name :: "string \<Rightarrow> bool" where
  "plain_name p \<longleftrightarrow> p \<notin> {[], ''.'', ''..''} \<and> CHR ''/'' \<notin> set p"

lemma split_slash_free: "CHR ''/'' \<notin> set cur \<Longrightarrow> p \<in> set (split_slash cur s) \<Longrightarrow> CHR ''/'' \<notin> set p"
  by (induction cur s rule: split_slash.induct) (auto split: if_splits)

lemma clean_components_plain:
  assumes "\<forall>p \<in> set ps. CHR ''/'' \<notin> set p" "\<forall>p \<in> set acc. plain_name p"
  shows "\<forall>p \<in> set (clean_components acc ps). plain_name p"
  using assms
proof (induction ps arbitrary: acc)
  case (Cons p ps)
  have f: "\<forall>q \<in> set ps. CHR ''/'' \<notin> set q" using Cons.prems(1) by simp
  note IH = Cons.IH[OF f]
  consider (skip) "p = [] \<or> p = ''.''" | (up) "p = ''..''" | (name) "plain_name p"
    using Cons.prems(1) by (auto simp: plain_name_def)
  then show ?case
  proof cases
    case skip
    then have "clean_components acc (p # ps) = clean_components acc ps" by auto
    then show ?thesis using IH[of acc] Cons.prems(2) by simp
  next
    case up
    then have "clean_components acc (p # ps) = clean_components (drop 1 acc) ps" by simp
    moreover have "\<forall>q \<in> set (drop 1 acc). plain_name q" using Cons.prems(2) by (auto dest: in_set_dropD)
    ultimately show ?thesis using IH[of "drop 1 acc"] by simp
  next
    case name
    then have "clean_components acc (p # ps) = clean_components (p # acc) ps" by (simp add: plain_name_def)
    then show ?thesis using IH[of "p # acc"] Cons.prems(2) name by simp
  qed
qed simp

lemma clean_rooted_plain: "\<forall>p \<in> set (clean_rooted s). plain_name p"
  unfolding clean_rooted_def
  by (rule clean_components_plain) (simp_all, metis split_slash_free empty_iff list.set(1))

lemma clean_components_id: "\<forall>p \<in> set ps. plain_name p \<Longrightarrow> clean_components acc ps = rev acc @ ps"
  by (induction ps arbitrary: acc) (auto simp: plain_name_def)

lemma split_slash_word: "CHR ''/'' \<notin> set w \<Longrightarrow> split_slash cur w = [rev cur @ w]"
  by (induction w arbitrary: cur) auto

lemma split_slash_append:
  "split_slash cur (a @ CHR ''/'' # b) = split_slash cur a @ split_slash [] b"
  by (induction cur a rule: split_slash.induct) auto

text \<open>A path made of plain components is clean.\<close>

definition path :: "string list \<Rightarrow> string" where
  "path ps = concat (map ((#) (CHR ''/'')) ps)"

lemma path_Cons: "path (p # ps) = CHR ''/'' # p @ path ps"
  by (simp add: path_def)

lemma path_append: "path (ps @ qs) = path ps @ path qs"
  by (simp add: path_def)

lemma path_join: "ps \<noteq> [] \<Longrightarrow> path ps = CHR ''/'' # join_strings ''/'' ps"
proof -
  have "(@) ''/'' = (#) (CHR ''/'')" by (rule ext) simp
  then show "ps \<noteq> [] \<Longrightarrow> ?thesis" by (cases ps) (simp_all add: path_def join_strings_def)
qed

lemma split_path: "\<forall>p \<in> set ps. plain_name p \<Longrightarrow> split_slash [] (w @ path ps) = split_slash [] w @ ps"
proof (induction ps arbitrary: w)
  case (Cons p ps)
  then have "split_slash [] (w @ path (p # ps)) = split_slash [] w @ split_slash [] (p @ path ps)"
    by (simp add: path_Cons split_slash_append)
  also have "split_slash [] (p @ path ps) = split_slash [] p @ ps" using Cons by simp
  finally show ?case using Cons.prems by (simp add: split_slash_word plain_name_def)
qed (simp add: path_def)

lemma clean_path: "\<forall>p \<in> set ps. plain_name p \<Longrightarrow> clean_rooted (path ps) = ps"
  using split_path[of ps "[]"] by (simp add: clean_rooted_def clean_components_id)

lemma unified_path_plain: "\<forall>p \<in> set (unified_path ls). plain_name p"
  by (induction ls) (use clean_rooted_plain in \<open>auto split: option.splits\<close>)

text \<open>
  The directory the process takes for its own cgroup is the mount or below it.  Whatever the
  process's cgroup file says, with \<open>..\<close>, empty or repeated components, the path taken is the mount
  followed by plain names, each a step down, and only when that directory exists under the mount.
\<close>

theorem own_cgroup_below_mount:
  "own_cgroup_dir F proc default_cgroup_mount = default_cgroup_mount
   \<or> (\<exists>names rt. names \<noteq> [] \<and> list_all plain_name names
        \<and> own_cgroup_dir F proc default_cgroup_mount = default_cgroup_mount @ path names
        \<and> fs_open_root F default_cgroup_mount = Inr rt \<and> ro_is_dir rt (join_strings ''/'' names))"
proof (cases "own_cgroup_dir F proc default_cgroup_mount = default_cgroup_mount")
  case False
  let ?m = "[''sys'', ''fs'', ''cgroup'']"
  obtain b rt where o: "join_strings ''/'' (unified_path (scan_lines b)) \<noteq> []"
    "fs_open_root F default_cgroup_mount = Inr rt" "ro_is_dir rt (join_strings ''/'' (unified_path (scan_lines b)))"
    "own_cgroup_dir F proc default_cgroup_mount = CHR ''/'' # join_strings ''/''
      (clean_rooted (default_cgroup_mount @ ''/'' @ join_strings ''/'' (unified_path (scan_lines b))))"
    using False unfolding own_cgroup_dir_def by (auto simp: Let_def split: sum.splits if_splits)
  define names where "names = unified_path (scan_lines b)"
  have n: "names \<noteq> []" "\<forall>p \<in> set names. plain_name p"
    using o(1) unified_path_plain unfolding names_def by (auto simp: join_strings_def)
  have m: "default_cgroup_mount = path ?m" "\<forall>p \<in> set ?m. plain_name p" by code_simp+
  have "default_cgroup_mount @ ''/'' @ join_strings ''/'' names = path (?m @ names)"
    by (simp only: m(1) path_append path_join[OF n(1)]) simp
  then have "clean_rooted (default_cgroup_mount @ ''/'' @ join_strings ''/'' names) = ?m @ names"
    using clean_path[of "?m @ names"] n(2) m(2) by simp
  then have "own_cgroup_dir F proc default_cgroup_mount = path (?m @ names)"
    using o(4) path_join[of "?m @ names"] by (simp add: names_def)
  then have "own_cgroup_dir F proc default_cgroup_mount = default_cgroup_mount @ path names"
    by (simp only: m(1) path_append)
  then show ?thesis using n o(2,3) unfolding list_all_iff names_def
    by (intro disjI2 exI[of _ "unified_path (scan_lines b)"]) simp
qed simp

section \<open>Evidence\<close>

text \<open>An input that is enabled was read from its files.\<close>

lemma read_pressure_enabled:
  assumes "rd_enabled (read_pressure q rt file line)"
  obtains b p where "ro_read rt file = Inr b" "find_pressure line (scan_lines b) = Some (Inr p)"
    "rd_percent (read_pressure q rt file line) = p"
  using assms by (auto simp: read_pressure_def disabled_def enabled_def split: sum.splits option.splits)

definition memory_figures :: "os_root \<Rightarrow> int \<Rightarrow> int \<Rightarrow> int \<Rightarrow> bool" where
  "memory_figures rt limit current inactive \<longleftrightarrow>
     (\<exists>a b c. ro_read rt ''memory.max'' = Inr a \<and> parse_uint (trim_space a) = Some limit \<and> limit \<noteq> 0
        \<and> ro_read rt ''memory.current'' = Inr b \<and> parse_uint (trim_space b) = Some current
        \<and> ro_read rt ''memory.stat'' = Inr c \<and> stat_value ''inactive_file'' (scan_lines c) = Some inactive)"

definition working_set_percent :: "int \<Rightarrow> int \<Rightarrow> int \<Rightarrow> f64" where
  "working_set_percent limit current inactive =
     f_mul (f_div (f_of_int (working_set current inactive)) (f_of_int limit)) (Fin 100)"

lemma read_working_set_enabled:
  assumes "rd_enabled (read_working_set q rt)"
  obtains limit current inactive where "memory_figures rt limit current inactive"
    "rd_percent (read_working_set q rt) = working_set_percent limit current inactive"
proof -
  obtain a where a: "ro_read rt ''memory.max'' = Inr a"
    using assms by (cases "ro_read rt ''memory.max''") (simp_all add: read_working_set_def disabled_def)
  obtain limit where l: "trim_space a \<noteq> ''max''" "parse_uint (trim_space a) = Some limit" "limit \<noteq> 0"
    using assms a by (cases "parse_uint (trim_space a)")
      (auto simp: read_working_set_def disabled_def Let_def split: if_splits)
  obtain b where b: "ro_read rt ''memory.current'' = Inr b"
    using assms a l by (cases "ro_read rt ''memory.current''") (simp_all add: read_working_set_def disabled_def)
  obtain current where c: "parse_uint (trim_space b) = Some current"
    using assms a l b by (cases "parse_uint (trim_space b)") (simp_all add: read_working_set_def disabled_def)
  obtain st where st: "ro_read rt ''memory.stat'' = Inr st"
    using assms a l b c by (cases "ro_read rt ''memory.stat''") (simp_all add: read_working_set_def disabled_def)
  obtain i where i: "stat_value ''inactive_file'' (scan_lines st) = Some i"
    using assms a l b c st by (cases "stat_value ''inactive_file'' (scan_lines st)")
      (simp_all add: read_working_set_def disabled_def)
  have "read_working_set q rt = enabled (working_set_percent limit current i)"
    using a l b c st i by (simp add: read_working_set_def working_set_percent_def)
  then show thesis using that[of limit current i] a l b c st i by (auto simp: memory_figures_def enabled_def)
qed

text \<open>
  C38: capacity falls only on evidence.  When a sample of the cgroup files lowers the local capacity, the
  directory could be opened and either the pressure file has an \<open>avg10\<close> over the threshold, or the
  experimental memory input is on and the figures of the three memory files put the working set at
  or over the soft ratio.  A missing, unreadable or malformed file never slows the controller.
\<close>

theorem capacity_falls_on_evidence:
  assumes "g_sat g = Some s" "0 \<le> local_capacity g"
    and "local_capacity (sample now (cgroup_files F (sa_opts s)) g) < local_capacity g"
  shows "\<exists>rt. fs_open_root F (cgroup_dir F (sa_opts s)) = Inr rt
    \<and> ((\<exists>b p. ro_read rt ''cpu.pressure'' = Inr b \<and> find_pressure ''some'' (scan_lines b) = Some (Inr p)
          \<and> f_less (so_cpu_threshold (sa_opts s)) p)
       \<or> (so_experimental_memory (sa_opts s) \<and> (\<exists>limit current inactive. memory_figures rt limit current inactive
          \<and> f_le (f_mul (so_soft_ratio (sa_opts s)) (Fin 100)) (working_set_percent limit current inactive))))"
proof -
  let ?smp = "cgroup_files F (sa_opts s)"
  have "smp_saturated (sa_opts s) ?smp"
    using assms sat_step_capacity(1)[of "g_local g" now ?smp "ceiling_locked g" "g_recovery g" "fst (sat_read ?smp s)"]
    by (auto simp: local_capacity_def sample_step(2)[OF assms(1)] dest: smp_hard_saturated split: if_splits)
  then have "cpu_saturated (sa_opts s) ?smp \<or> memory_soft (sa_opts s) ?smp" by (simp add: smp_saturated_iff)
  moreover obtain rt where rt: "fs_open_root F (cgroup_dir F (sa_opts s)) = Inr rt"
    using calculation by (cases "fs_open_root F (cgroup_dir F (sa_opts s))")
      (auto simp: cpu_saturated_def memory_soft_def cgroup_files_def read_cgroup_def disabled_def Let_def)
  ultimately show ?thesis
  proof (elim disjE)
    assume "cpu_saturated (sa_opts s) ?smp"
    then have c: "rd_enabled (read_pressure (fs_quote F) rt ''cpu.pressure'' ''some'')"
      "f_less (so_cpu_threshold (sa_opts s)) (rd_percent (read_pressure (fs_quote F) rt ''cpu.pressure'' ''some''))"
      by (simp_all add: cpu_saturated_def cgroup_files_def read_cgroup_def rt Let_def)
    from c(1) show ?thesis by (rule read_pressure_enabled) (use c(2) rt in auto)
  next
    assume "memory_soft (sa_opts s) ?smp"
    then have m: "so_experimental_memory (sa_opts s)" "rd_enabled (read_working_set (fs_quote F) rt)"
      "f_le (f_mul (so_soft_ratio (sa_opts s)) (Fin 100)) (rd_percent (read_working_set (fs_quote F) rt))"
      by (auto simp: memory_soft_def cgroup_files_def read_cgroup_def rt Let_def disabled_def split: if_splits)
    from m(2) show ?thesis by (rule read_working_set_enabled) (use m rt in auto)
  qed
qed

text \<open>A container under CPU pressure, whose cgroup file names a directory outside the mount.\<close>

definition hot_files :: file_system where
  "hot_files = \<lparr>fs_open_root = (\<lambda>_. Inr \<lparr>ro_read = (\<lambda>f. Inr
       (if f = ''cgroup'' then ''0::/../../etc'' else ''some avg10=75.00 avg60=1.53'')), ro_is_dir = (\<lambda>_. True)\<rparr>),
     fs_quote = (\<lambda>s. s)\<rparr>"

definition full4 :: governor where
  "full4 = gov4\<lparr>g_local := (g_local gov4)\<lparr>ls_capacity := 4\<rparr>\<rparr>"

theorem capacity_falls_on_evidence_witness:
  "local_capacity (sample 5 (cgroup_files hot_files (fill_defaults (go_saturation sat4))) full4) = 2
   \<and> cgroup_dir hot_files (fill_defaults (go_saturation sat4)) = ''/sys/fs/cgroup/etc''
   \<and> (\<exists>p. find_pressure ''some'' (scan_lines ''some avg10=75.00 avg60=1.53'') = Some (Inr p) \<and> f_less (Fin 50) p)"
proof -
  let ?opts = "fill_defaults (go_saturation sat4)"
  have c: "local_capacity (sample 5 (cgroup_files hot_files ?opts) full4) = 2" "local_capacity full4 = 4"
    "cgroup_dir hot_files ?opts = ''/sys/fs/cgroup/etc''" "so_cpu_threshold ?opts = Fin 50"
    "\<not> so_experimental_memory ?opts" by code_simp+
  obtain s where s: "g_sat full4 = Some s" "sa_opts s = ?opts" by (simp add: full4_def gov4_value)
  show ?thesis
    using capacity_falls_on_evidence[OF s(1), of 5 hot_files, unfolded s(2)] c
    by (auto simp: hot_files_def)
qed

end
