(* ===== verification/Controller.thy ===== *)
theory Controller
  imports Queue_Wait Governor Reconciler_State
begin

text \<open>
  The options of a controller (src/pkg/controller/options.go): their defaults, the governor that
  \<open>SetupRateLimitGovernor\<close> builds and adds to the manager, and what \<open>ForControllerRuntime\<close> hands to
  controller-runtime, with the choice of a queue in queue_wait.go.  The logger and the metrics have
  no counterpart; a recorder is either there or not.  The limiters of other packages are their
  parameters.
\<close>

section \<open>Options\<close>

record rate_limit_options =
  rl_enabled :: bool
  rl_recovery :: duration
  rl_saturation :: sat_options

text \<open>A limiter is the bucket of \<open>NewGlobal\<close> or client-go's exponential one for items.\<close>

datatype limiter = Token_Bucket int int | Item_Exponential duration duration

record controller_options =
  co_global_limiter :: "limiter option"
  co_poll_interval :: duration
  co_max_concurrent :: int
  co_use_priority_queue :: "bool option"
  co_recorder :: bool
  co_rate_limit :: rate_limit_options
  co_governor :: "governor option"

text \<open>\<open>NewGlobal\<close> and \<open>NewController\<close> of src/pkg/ratelimiter/default.go.\<close>

definition new_global :: "int \<Rightarrow> limiter" where
  "new_global rps = Token_Bucket rps (i64 (rps * 10))"

definition new_controller :: limiter where
  "new_controller = Item_Exponential second (60 * second)"

definition zero_saturation :: sat_options where
  "zero_saturation = \<lparr>so_enabled = False, so_experimental_memory = False, so_cgroup_dir = [],
     so_sample_period = 0, so_startup_ramp = 0, so_cpu_threshold = Fin 0, so_soft_ratio = Fin 0,
     so_hard_ratio = Fin 0\<rparr>"

definition default_options :: controller_options where
  "default_options =
     \<lparr>co_global_limiter = Some (new_global 1), co_poll_interval = 60 * second, co_max_concurrent = 1,
      co_use_priority_queue = None, co_recorder = False,
      co_rate_limit = \<lparr>rl_enabled = False, rl_recovery = 0, rl_saturation = zero_saturation\<rparr>,
      co_governor = None\<rparr>"

section \<open>The governor\<close>

definition governor_options :: "controller_options \<Rightarrow> gov_options" where
  "governor_options co =
     \<lparr>go_max_concurrent = max 1 (co_max_concurrent co),
      go_ignore_signals = (\<not> rl_enabled (co_rate_limit co)),
      go_recovery = rl_recovery (co_rate_limit co),
      go_saturation = rl_saturation (co_rate_limit co)\<rparr>"

datatype setup_error = Bad_Options gov_error | Not_Added err

text \<open>\<open>add\<close> is the manager's \<open>Add\<close>.\<close>

definition setup_rate_limit_governor ::
  "(governor \<Rightarrow> 'w \<Rightarrow> 'w \<times> err option) \<Rightarrow> controller_options \<Rightarrow> 'w
     \<Rightarrow> 'w \<times> controller_options \<times> setup_error option" where
  "setup_rate_limit_governor add co w =
     (let rl = co_rate_limit co in
      if \<not> rl_enabled rl \<and> \<not> so_enabled (rl_saturation rl) then (w, co\<lparr>co_governor := None\<rparr>, None)
      else case new_governor (governor_options co) of
          Inl e \<Rightarrow> (w, co, Some (Bad_Options e))
        | Inr g \<Rightarrow> (case add g w of
              (w, Some e) \<Rightarrow> (w, co, Some (Not_Added e))
            | (w, None) \<Rightarrow> (w, co\<lparr>co_governor := Some g\<rparr>, None)))"

section \<open>For controller-runtime\<close>

text \<open>\<open>ct_new_queue\<close>: whether a queue constructor is set, and if so whether it uses priorities.\<close>

record runtime_options =
  ct_max_concurrent :: int
  ct_limiter :: limiter
  ct_new_queue :: "bool option"

definition for_controller_runtime :: "controller_options \<Rightarrow> runtime_options" where
  "for_controller_runtime co =
     \<lparr>ct_max_concurrent = co_max_concurrent co,
      ct_limiter = Item_Exponential second (60 * second),
      ct_new_queue =
        (if co_recorder co then Some (case co_use_priority_queue co of None \<Rightarrow> True | Some b \<Rightarrow> b) else None)\<rparr>"

text \<open>A queue as the controller gets it: with telemetry, or without when there is no recorder.\<close>

datatype ('i, 'q) controller_queue = Plain 'q | Instrumented "('i, 'q) queue_wait"

definition new_controller_queue ::
  "(string \<Rightarrow> limiter \<Rightarrow> 'q) \<Rightarrow> (string \<Rightarrow> limiter \<Rightarrow> 'q) \<Rightarrow> string \<Rightarrow> limiter \<Rightarrow> bool \<Rightarrow> 'q" where
  "new_controller_queue priority plain name l use_priority =
     (if use_priority then priority name l else plain name l)"

definition new_queue_with_wait_metrics ::
  "(string \<Rightarrow> limiter \<Rightarrow> 'q) \<Rightarrow> (string \<Rightarrow> limiter \<Rightarrow> 'q) \<Rightarrow> string \<Rightarrow> limiter \<Rightarrow> bool \<Rightarrow> bool
     \<Rightarrow> ('i, 'q) controller_queue" where
  "new_queue_with_wait_metrics priority plain name l use_priority recorder =
     (let q = new_controller_queue priority plain name l use_priority
      in if recorder then Instrumented (new_queue_wait q) else Plain q)"

end
