(* ===== verification/Controller_Props.thy ===== *)
theory Controller_Props
  imports Controller New_Props Pass_Books
begin

text \<open>A controller as a provider sets it up: options, governor, reconciler.\<close>

text \<open>Setting up succeeds with a governor only when an input is on, and then with a fresh one.\<close>

lemma setup_cases:
  assumes "setup_rate_limit_governor add co w = (w', co', None)"
  obtains (off) "\<not> rl_enabled (co_rate_limit co)" "\<not> so_enabled (rl_saturation (co_rate_limit co))"
      "w' = w" "co_governor co' = None"
    | (set_up) g where "new_governor (governor_options co) = Inr g" "add g w = (w', None)" "co_governor co' = Some g"
proof (cases "\<not> rl_enabled (co_rate_limit co) \<and> \<not> so_enabled (rl_saturation (co_rate_limit co))")
  case True
  with assms off show ?thesis by (auto simp: setup_rate_limit_governor_def)
next
  case False
  with assms obtain g where g: "new_governor (governor_options co) = Inr g"
    by (cases "new_governor (governor_options co)") (auto simp: setup_rate_limit_governor_def Let_def)
  obtain w2 e where a: "add g w = (w2, e)" by fastforce
  show ?thesis using False assms g a set_up[OF g]
    by (cases e) (auto simp: setup_rate_limit_governor_def Let_def)
qed

text \<open>
  Options that cannot stall a controller: a positive poll interval, room for the startup ramp to
  climb, and a ramp whose length fits the clock.
\<close>

definition sane_options :: "controller_options \<Rightarrow> bool" where
  "sane_options co \<longleftrightarrow> 0 < co_poll_interval co \<and> co_max_concurrent co \<le> max_int64
     \<and> (2 \<le> co_max_concurrent co \<or> \<not> so_enabled (rl_saturation (co_rate_limit co)))
     \<and> (let sat = fill_defaults (rl_saturation (co_rate_limit co)) in
          max 1 (co_max_concurrent co) * max (so_startup_ramp sat) (so_sample_period sat) \<le> max_int64)"

lemma new_governor_opts:
  assumes "new_governor opts = Inr g" "g_sat g = Some s"
  shows "sa_opts s = fill_defaults (go_saturation opts)"
  using assms by (auto simp: new_governor_def new_saturation_def with_defaults_def Let_def
      split: if_splits sum.splits)

text \<open>The governor of a controller is healthy once its reconciler has registered.\<close>

lemma registered_healthy:
  assumes "sane_options co" "new_governor (governor_options co) = Inr g"
  shows "healthy (register_reconciler g)"
proof (rule reachable_healthy)
  let ?o = "governor_options co"
  have m: "go_max_concurrent ?o \<le> max_int64" "1 \<le> go_max_concurrent ?o"
    using assms(1) by (simp_all add: sane_options_def governor_options_def)
  note n = new_governor_cases[OF assms(2)]
  have "gov_steps (g, {#}) (register_reconciler g, {#})"
    by (rule gov_steps.step[OF gov_steps.refl gov_step.register]) (use n m in simp)
  then show r: "gov_reachable ?o (register_reconciler g) {#}" using assms(2) by (auto simp: gov_reachable_def)
  show "go_max_concurrent ?o \<le> max_int64" by (rule m)
  show "2 \<le> go_max_concurrent ?o \<or> \<not> so_enabled (go_saturation ?o)"
    using assms(1) by (auto simp: sane_options_def governor_options_def)
  fix s assume "g_sat (register_reconciler g) = Some s"
  then have o: "sa_opts s = fill_defaults (rl_saturation (co_rate_limit co))"
    using new_governor_opts[OF assms(2)] by (simp add: register_fields governor_options_def)
  have "ceiling_locked (register_reconciler g) = max 1 (co_max_concurrent co)"
    using m by (simp add: ceiling_locked_def register_fields n i64_id in_i64_def governor_options_def)
  then show "ceiling_locked (register_reconciler g) * max (so_startup_ramp (sa_opts s)) (so_sample_period (sa_opts s)) \<le> max_int64"
    using assms(1) by (simp add: sane_options_def o Let_def)
qed

section \<open>Passes in a row\<close>

text \<open>
  The passes of one reconciler, one after the other; before each the environment, which is other
  reconcilers, the sampler and the users of the API server, does as it likes to the world.
\<close>

fun passes :: "('w, 'p, 'c) reconciler \<Rightarrow> ('w \<Rightarrow> 'w) list \<Rightarrow> 'w \<Rightarrow> string list \<Rightarrow> (('w, 'p) rstate \<times> outcome) list" where
  "passes R [] w seen = []"
| "passes R (e # es) w seen =
     (let (s, out) = reconcile R (begin_pass R (e w) seen)
      in (s, out) # passes R es (rs_world s) (rs_key_errors s))"

lemma run_keeps_world:
  assumes "configured R ok" "ok w" "reconcile R (begin_pass R w seen) = (s, out)"
  shows "ok (rs_world s)"
proof -
  obtain s' ms where p: "pass R (metered R (begin_pass R w seen)) = (s', Inl out)"
    "s = fold log_ev (map Metric ms) s'" using assms(3) by (rule reconcile_run)
  have "sound R ok (metered R (begin_pass R w seen))"
    using assms(2) by (simp add: sound_def metered_def begin_pass_def)
  then have "sound R ok s'" using world.pass_keeps p(1) by blast
  then show ?thesis using assms(1) by (simp add: p(2) fold_log_world sound_def configured_def)
qed

lemma passes_come_back:
  assumes "configured R ok" "\<And>e w. e \<in> set es \<Longrightarrow> ok w \<Longrightarrow> ok (e w)" "ok w"
    and "(s, out) \<in> set (passes R es w seen)"
  shows "comes_back out \<or> list_ex (explains (r_is_not_found R)) (rs_trace s)"
  using assms(2-4)
proof (induction es arbitrary: w seen)
  case (Cons e es)
  obtain s1 out1 where p: "reconcile R (begin_pass R (e w) seen) = (s1, out1)" by (metis surj_pair)
  have e: "ok (e w)" using Cons.prems(1,2) by simp
  from Cons.prems(3) consider "(s, out) = (s1, out1)" | "(s, out) \<in> set (passes R es (rs_world s1) (rs_key_errors s1))"
    by (auto simp: p)
  then show ?case
  proof cases
    case 1
    then show ?thesis using run_comes_back[OF assms(1) e p] by simp
  next
    case 2
    show ?thesis by (rule Cons.IH[OF _ run_keeps_world[OF assms(1) e p] 2]) (use Cons.prems(1) in simp)
  qed
qed simp

text \<open>
  The governor option comes last and the options before it leave the world alone, so the governor that
  was set up is the one that registers the reconciler.
\<close>

lemma set_up_comes_back:
  assumes "sane_options co" "setup_rate_limit_governor add co w0 = (w1, co', None)"
    and "\<And>g. co_governor co' = Some g \<Longrightarrow> getg w1 = g" "\<And>g w. getg (putg g w) = g"
    and "ok = (\<lambda>w. co_governor co' = None \<or> healthy (getg w))" "sensible_cluster ok m"
    and "\<forall>opt \<in> set opts. sensible_option ok opt" "\<And>R. snd (fold (\<lambda>opt. opt) opts (R, w1)) = w1"
    and "new_reconciler m (opts @ [with_rate_limit_governor (map_option (\<lambda>_. (getg, putg)) (co_governor co'))]) w1 = (R, w2)"
    and "\<And>e w. e \<in> set es \<Longrightarrow> ok w \<Longrightarrow> ok (e w)" "(s, out) \<in> set (passes R es w2 [])"
  shows "comes_back out \<or> list_ex (explains (mn_is_not_found m)) (rs_trace s)"
proof -
  let ?gov = "with_rate_limit_governor (map_option (\<lambda>_. (getg, putg)) (co_governor co'))"
  have "sensible_option ok ?gov"
    using assms(4,5) by (cases "co_governor co'") (auto intro: ungoverned governed)
  then have w: "well_set ok m R"
    by (intro built_well_set[OF assms(6) _ assms(9)]) (use assms(7) in auto)
  have "ok w2"
    using assms(2)
  proof (cases rule: setup_cases)
    case (set_up g)
    obtain R1 where "fold (\<lambda>opt. opt) opts (blank_reconciler m, w1) = (R1, w1)"
      using assms(8)[of "blank_reconciler m"] by (metis prod.collapse)
    then have "w2 = putg (register_reconciler g) w1"
      using set_up assms(3,9) by (simp add: new_reconciler_def with_rate_limit_governor_def)
    then show ?thesis using registered_healthy[OF assms(1) set_up(1)] assms(4,5) by simp
  qed (simp add: assms(5))
  with w passes_come_back[of R ok es w2 s out "[]"] assms(10,11) show ?thesis by (simp add: well_set_def)
qed

text \<open>
  C5: a controller never drops an object.  A provider sets up the governor from its options, builds its
  reconciler with that governor, if there is one, and its connecter, and runs any number of passes,
  between which the rest of the process does what it likes to the world but keep the governor healthy:
  every pass ends in an error, a requeue or a positive delay, unless the object is gone,
  released or paused.
\<close>

theorem controller_never_drops:
  assumes "sane_options co" "setup_rate_limit_governor add co w0 = (w1, co', None)"
    and "\<And>g. co_governor co' = Some g \<Longrightarrow> getg w1 = g" "\<And>g w. getg (putg g w) = g"
    and "ok = (\<lambda>w. co_governor co' = None \<or> healthy (getg w))" "sensible_cluster ok m"
    and "sensible_option ok (with_external_connect_disconnecter cn disc)"
    and "new_reconciler m [with_external_connect_disconnecter cn disc, with_poll_interval (co_poll_interval co),
       with_rate_limit_governor (map_option (\<lambda>_. (getg, putg)) (co_governor co'))] w1 = (R, w2)"
    and "\<And>e w. e \<in> set es \<Longrightarrow> ok w \<Longrightarrow> ok (e w)" "(s, out) \<in> set (passes R es w2 [])"
  shows "comes_back out \<or> list_ex (explains (mn_is_not_found m)) (rs_trace s)"
proof -
  let ?opts = "[with_external_connect_disconnecter cn disc, with_poll_interval (co_poll_interval co)]"
  have "0 < co_poll_interval co" using assms(1) by (simp add: sane_options_def)
  then have o: "\<forall>opt \<in> set ?opts. sensible_option ok opt" using assms(7) interval by auto
  show ?thesis
  proof (rule set_up_comes_back[where opts = ?opts and getg = getg and putg = putg and ok = ok and es = es and co' = co'])
    show "new_reconciler m (?opts @ [with_rate_limit_governor (map_option (\<lambda>_. (getg, putg)) (co_governor co'))]) w1 = (R, w2)"
      using assms(8) by simp
  qed (fact assms o | simp add: with_external_connect_disconnecter_def with_poll_interval_def)+
qed

text \<open>A controller with two workers that heeds rate limits, set up in the demo world.\<close>

definition demo_controller :: controller_options where
  "demo_controller = default_options\<lparr>co_max_concurrent := 2, co_rate_limit :=
     \<lparr>rl_enabled = True, rl_recovery = 0, rl_saturation = zero_saturation\<rparr>\<rparr>"

definition demo_add :: "governor \<Rightarrow> demo_world \<Rightarrow> demo_world \<times> err option" where
  "demo_add g w = (w\<lparr>dw_governor := g\<rparr>, None)"

definition demo_provider :: "demo_world \<times> (demo_world, unit, unit option) reconciler \<times> demo_world" where
  "demo_provider =
     (case setup_rate_limit_governor demo_add demo_controller (demo_start demo_object) of (w1, co, _) \<Rightarrow>
        (w1, new_reconciler demo_cluster [with_external_connect_disconnecter demo_connecter nop_disconnect,
           with_poll_interval (co_poll_interval demo_controller),
           with_rate_limit_governor (map_option (\<lambda>_. (dw_governor, \<lambda>g w. w\<lparr>dw_governor := g\<rparr>)) (co_governor co))] w1))"

theorem controller_never_drops_witness:
  "case demo_provider of (w1, R, w2) \<Rightarrow>
     list_all (\<lambda>(s, out). comes_back out \<or> list_ex (explains (\<lambda>_. False)) (rs_trace s))
       (passes R [\<lambda>w. w, \<lambda>w. w\<lparr>dw_now := dw_now w + 60 * second\<rparr>] w2 [])"
proof -
  obtain w1 co r where su: "setup_rate_limit_governor demo_add demo_controller (demo_start demo_object) = (w1, co, r)"
    by (metis prod_cases3)
  define ok where "ok = (\<lambda>w :: demo_world. co_governor co = None \<or> healthy (dw_governor w))"
  have "\<not> so_enabled zero_saturation" by (simp add: zero_saturation_def)
  then have g: "r = None" "co_governor co = Some (dw_governor w1)"
    using su by (auto simp: setup_rate_limit_governor_def demo_controller_def demo_add_def governor_options_def
        new_governor_def default_options_def)
  let ?opts = "[with_external_connect_disconnecter demo_connecter nop_disconnect,
      with_poll_interval (co_poll_interval demo_controller), with_rate_limit_governor
        (map_option (\<lambda>_. (dw_governor, \<lambda>g w. w\<lparr>dw_governor := g\<rparr>)) (co_governor co))]"
  obtain R w2 where R: "new_reconciler demo_cluster ?opts w1 = (R, w2)" by fastforce
  have s: "sane_options demo_controller" by code_simp
  have m: "sensible_cluster ok demo_cluster"
    by (auto simp: sensible_cluster_def keeps_def demo_cluster_def demo_store_def retries_def fair_def ok_def)
  have c: "sensible_option ok (with_external_connect_disconnecter demo_connecter nop_disconnect)"
    by (rule connecter) (simp_all add: demo_connecter_def keeps_def nop_client_def nop_call_def nop_disconnect_def)
  have n: "mn_is_not_found demo_cluster = (\<lambda>_. False)" by (simp add: demo_cluster_def)
  have "comes_back out \<or> list_ex (explains (mn_is_not_found demo_cluster)) (rs_trace s)"
    if "(s, out) \<in> set (passes R [\<lambda>w. w, \<lambda>w. w\<lparr>dw_now := dw_now w + 60 * second\<rparr>] w2 [])" for s out
    by (rule controller_never_drops[OF s su[unfolded g(1)] _ _ ok_def m c R _ that]) (auto simp: g(2) ok_def)
  then show ?thesis by (auto simp: demo_provider_def su R n list_all_iff)
qed

end
