(* ===== verification/Telemetry.thy ===== *)
theory Telemetry
  imports Queue_Wait Governor Reconciler_State
begin

text \<open>
  The metrics handle of src/pkg/telemetry/metrics.go.  The OpenTelemetry library is outside the
  repository: a handle is what has been recorded on its instruments, the latest first, its count of
  passes in flight and the source of its rate-limit gauges, a function on the world.  A nil handle is
  \<open>None\<close>.  An instrument goes by its name without the prefix \<open>provider_runtime.\<close>
\<close>

section \<open>Instruments\<close>

datatype instrument_kind = Counter | UpDownCounter | Histogram | IntGauge | FloatGauge

definition instruments :: "(instrument_kind \<times> string) list" where
  "instruments =
     [(Counter, ''startup.success''),
      (Counter, ''startup.failure''),
      (Histogram, ''reconcile.get.duration_seconds''),
      (Counter, ''reconcile.get.failure''),
      (Histogram, ''reconcile.duration_seconds''),
      (UpDownCounter, ''reconcile.queue.depth''),
      (Histogram, ''reconcile.queue.wait.duration_seconds''),
      (Histogram, ''reconcile.queue.oldest_item_age_seconds''),
      (Histogram, ''reconcile.queue.work.duration_seconds''),
      (Counter, ''reconcile.queue.requeues''),
      (Counter, ''reconcile.success''),
      (Counter, ''reconcile.failure''),
      (Counter, ''reconcile.requeue.after''),
      (Counter, ''reconcile.requeue.immediate''),
      (Counter, ''reconcile.requeue.error''),
      (IntGauge, ''reconcile.in_flight''),
      (Histogram, ''external.connect.duration_seconds''),
      (Counter, ''external.connect.failure''),
      (Histogram, ''external.observe.duration_seconds''),
      (Counter, ''external.observe.failure''),
      (Histogram, ''external.create.duration_seconds''),
      (Counter, ''external.create.failure''),
      (Histogram, ''external.update.duration_seconds''),
      (Counter, ''external.update.failure''),
      (Histogram, ''external.delete.duration_seconds''),
      (Counter, ''external.delete.failure''),
      (Histogram, ''finalizer.add.duration_seconds''),
      (Counter, ''finalizer.add.failure''),
      (Histogram, ''finalizer.remove.duration_seconds''),
      (Counter, ''finalizer.remove.failure''),
      (Histogram, ''status.update.duration_seconds''),
      (Counter, ''status.update.failure''),
      (Counter, ''ratelimit.deferrals''),
      (Counter, ''ratelimit.signals''),
      (IntGauge, ''ratelimit.capacity''),
      (FloatGauge, ''ratelimit.seconds_to_reset''),
      (IntGauge, ''ratelimit.local.capacity''),
      (FloatGauge, ''ratelimit.saturation.input''),
      (IntGauge, ''ratelimit.saturation.input.enabled'')]"

type_synonym attributes = "(string \<times> string) list"

datatype measure = Added int | Recorded f64 | GaugeInt int | GaugeFloat f64

type_synonym point = "string \<times> attributes \<times> measure"

record 'w telemetry =
  tm_data :: "point list"
  tm_in_flight :: int
  tm_snapshot :: "('w \<Rightarrow> 'w \<times> snapshot) option"

definition blank_telemetry :: "'w telemetry" where
  "blank_telemetry = \<lparr>tm_data = [], tm_in_flight = 0, tm_snapshot = None\<rparr>"

text \<open>\<open>create\<close> makes an instrument or fails; \<open>register\<close> is the registration of the callback.\<close>

definition new_metrics :: "(instrument_kind \<Rightarrow> string \<Rightarrow> 'e option) \<Rightarrow> 'e option \<Rightarrow> 'e + 'w telemetry" where
  "new_metrics create register =
     (case List.find (\<lambda>(k, n). create k n \<noteq> None) instruments of
        Some (k, n) \<Rightarrow> Inl (the (create k n))
      | None \<Rightarrow> (case register of Some e \<Rightarrow> Inl e | None \<Rightarrow> Inr blank_telemetry))"

section \<open>Setup\<close>

record telemetry_config =
  tc_enabled :: bool
  tc_service_name :: string
  tc_export_interval :: duration

definition default_export_interval :: duration where "default_export_interval = 30 * second"

definition export_interval :: "telemetry_config \<Rightarrow> duration" where
  "export_interval cfg =
     (if tc_export_interval cfg \<le> 0 then default_export_interval else tc_export_interval cfg)"

text \<open>The resource package of the SDK.\<close>

record ('r, 'e) resource_sdk =
  rs_from_env :: "'r \<times> 'e option"
  rs_is_partial :: "'e \<Rightarrow> bool"
  rs_names_service :: "'r \<Rightarrow> bool"
  rs_service :: "string \<Rightarrow> 'r"
  rs_merge :: "'r \<Rightarrow> 'r \<Rightarrow> 'e + 'r"
  rs_default :: 'r

definition new_resource :: "('r, 'e) resource_sdk \<Rightarrow> string \<Rightarrow> 'e + 'r" where
  "new_resource K name =
     (case rs_from_env K of (env, err) \<Rightarrow>
        if (case err of Some e \<Rightarrow> \<not> rs_is_partial K e | None \<Rightarrow> False) then Inl (the err)
        else if name \<noteq> [] \<and> \<not> rs_names_service K env
          then (case rs_merge K env (rs_service K name) of
                  Inl e \<Rightarrow> Inl e | Inr env \<Rightarrow> rs_merge K (rs_default K) env)
          else rs_merge K (rs_default K) env)"

definition setup_telemetry ::
  "'e option \<Rightarrow> ('r, 'e) resource_sdk \<Rightarrow> (duration \<Rightarrow> 'r \<Rightarrow> instrument_kind \<Rightarrow> string \<Rightarrow> 'e option) \<Rightarrow> 'e option
     \<Rightarrow> telemetry_config \<Rightarrow> 'e + 'w telemetry option" where
  "setup_telemetry exporter K create register cfg =
     (if \<not> tc_enabled cfg then Inr None
      else case exporter of Some e \<Rightarrow> Inl e
      | None \<Rightarrow> (case new_resource K (tc_service_name cfg) of
          Inl e \<Rightarrow> Inl e
        | Inr r \<Rightarrow> (case new_metrics (create (export_interval cfg) r) register of
            Inl e \<Rightarrow> Inl e
          | Inr t \<Rightarrow> Inr (Some t))))"

section \<open>Recording\<close>

definition put_point :: "string \<Rightarrow> attributes \<Rightarrow> measure \<Rightarrow> 'w telemetry \<Rightarrow> 'w telemetry" where
  "put_point name attrs x t = t\<lparr>tm_data := (name, attrs, x) # tm_data t\<rparr>"

definition count_one :: "string \<Rightarrow> 'w telemetry \<Rightarrow> 'w telemetry" where
  "count_one name = put_point name [] (Added 1)"

definition time_of :: "string \<Rightarrow> duration \<Rightarrow> 'w telemetry \<Rightarrow> 'w telemetry" where
  "time_of name d = put_point name [] (Recorded (duration_seconds d))"

definition record_requeue :: "string \<Rightarrow> string \<Rightarrow> 'w telemetry \<Rightarrow> 'w telemetry" where
  "record_requeue reason counter t =
     put_point ''reconcile.queue.requeues'' [(''reason'', reason)] (Added 1) (count_one counter t)"

fun op_name :: "metric_op \<Rightarrow> string" where
  "op_name OpGet = ''reconcile.get''"
| "op_name OpConnect = ''external.connect''"
| "op_name OpObserve = ''external.observe''"
| "op_name OpCreate = ''external.create''"
| "op_name OpUpdate = ''external.update''"
| "op_name OpDelete = ''external.delete''"
| "op_name OpFinalizerAdd = ''finalizer.add''"
| "op_name OpFinalizerRemove = ''finalizer.remove''"
| "op_name OpStatusUpdate = ''status.update''"

text \<open>The reconciler's metrics; \<open>d\<close> is the duration measured, where one is.\<close>

fun record_metric :: "duration \<Rightarrow> metric \<Rightarrow> 'w telemetry \<Rightarrow> 'w telemetry" where
  "record_metric d (InFlight n) t =
     (if n = 0 then t else t\<lparr>tm_in_flight := i64 (tm_in_flight t + n)\<rparr>)"
| "record_metric d (Duration op) t = time_of (op_name op @ ''.duration_seconds'') d t"
| "record_metric d (Failure op) t = count_one (op_name op @ ''.failure'') t"
| "record_metric d ReconcileDuration t = time_of ''reconcile.duration_seconds'' d t"
| "record_metric d ReconcileSuccess t = count_one ''reconcile.success'' t"
| "record_metric d ReconcileFailure t = count_one ''reconcile.failure'' t"
| "record_metric d AfterRequeue t = record_requeue ''after'' ''reconcile.requeue.after'' t"
| "record_metric d ImmediateRequeue t = record_requeue ''immediate'' ''reconcile.requeue.immediate'' t"
| "record_metric d ErrorRequeue t = record_requeue ''error'' ''reconcile.requeue.error'' t"

fun record_queue :: "queue_event \<Rightarrow> 'w telemetry \<Rightarrow> 'w telemetry" where
  "record_queue (Depth n) t =
     (if n = 0 then t else put_point ''reconcile.queue.depth'' [] (Added n) t)"
| "record_queue (OldestAge d) t = time_of ''reconcile.queue.oldest_item_age_seconds'' d t"
| "record_queue (WaitTime d) t = time_of ''reconcile.queue.wait.duration_seconds'' d t"
| "record_queue (WorkTime d) t = time_of ''reconcile.queue.work.duration_seconds'' d t"

definition inc_rate_limit_deferral :: "string \<Rightarrow> string \<Rightarrow> 'w telemetry \<Rightarrow> 'w telemetry" where
  "inc_rate_limit_deferral key c =
     put_point ''ratelimit.deferrals'' [(''key'', key), (''cause'', c)] (Added 1)"

definition inc_rate_limit_signal :: "string \<Rightarrow> string \<Rightarrow> 'w telemetry \<Rightarrow> 'w telemetry" where
  "inc_rate_limit_signal key kind =
     put_point ''ratelimit.signals'' [(''key'', key), (''kind'', kind)] (Added 1)"

definition observe_rate_limit :: "('w \<Rightarrow> 'w \<times> snapshot) option \<Rightarrow> 'w telemetry \<Rightarrow> 'w telemetry" where
  "observe_rate_limit src t = (if src = None then t else t\<lparr>tm_snapshot := src\<rparr>)"

text \<open>Every method of the handle; a nil handle and a nil snapshot are left alone.\<close>

datatype 'w telemetry_call =
    StartupSuccess | StartupFailure
  | Reconciled duration metric
  | Queued queue_event
  | RateLimitDeferral string defer_reason
  | RateLimitSignal string string
  | ObserveRateLimit "('w \<Rightarrow> 'w \<times> snapshot) option"

fun telemetry_step :: "'w telemetry_call \<Rightarrow> 'w telemetry \<Rightarrow> 'w telemetry" where
  "telemetry_step StartupSuccess t = count_one ''startup.success'' t"
| "telemetry_step StartupFailure t = count_one ''startup.failure'' t"
| "telemetry_step (Reconciled d m) t = record_metric d m t"
| "telemetry_step (Queued e) t = record_queue e t"
| "telemetry_step (RateLimitDeferral key r) t = inc_rate_limit_deferral key (defer_cause r) t"
| "telemetry_step (RateLimitSignal key kind) t = inc_rate_limit_signal key kind t"
| "telemetry_step (ObserveRateLimit src) t = observe_rate_limit src t"

definition telemetry_call :: "'w telemetry_call \<Rightarrow> 'w telemetry option \<Rightarrow> 'w telemetry option" where
  "telemetry_call c = map_option (telemetry_step c)"

section \<open>Collection\<close>

fun input_points :: "input_snapshot list \<Rightarrow> point list" where
  "input_points [] = []"
| "input_points (i # is) =
     (if is_enabled i then [(''ratelimit.saturation.input'', [(''input'', is_input i)], GaugeFloat (is_percent i))] else [])
     @ [(''ratelimit.saturation.input.enabled'', [(''input'', is_input i)], GaugeInt (if is_enabled i then 1 else 0))]
     @ input_points is"

definition rate_limit_points :: "snapshot \<Rightarrow> point list" where
  "rate_limit_points snap =
     concat (map (\<lambda>k. [(''ratelimit.capacity'', [(''key'', sn_key k)], GaugeInt (sn_capacity k)),
                       (''ratelimit.seconds_to_reset'', [(''key'', sn_key k)], GaugeFloat (sn_seconds_to_reset k))])
                (sn_keys snap))
     @ [(''ratelimit.local.capacity'', [], GaugeInt (sn_local_capacity snap))]
     @ input_points (sn_inputs snap)"

definition collect :: "'w telemetry \<Rightarrow> 'w \<Rightarrow> 'w \<times> point list" where
  "collect t w =
     (let p = (''reconcile.in_flight'', [], GaugeInt (tm_in_flight t)) in
      case tm_snapshot t of
        None \<Rightarrow> (w, [p])
      | Some src \<Rightarrow> (case src w of (w, snap) \<Rightarrow> (w, p # rate_limit_points snap)))"

end
