(* ===== verification/Pass_Metrics.thy ===== *)
theory Pass_Metrics
  imports Pass_Books
begin

text \<open>
  The metrics of the single operations of a pass: each of its measured calls is followed by its
  duration and, when it failed, its failure.  Between a call and its metrics the pass owes them, so
  this is no invariant of single steps: the rules here take a call with what records it.
\<close>

section \<open>Measured calls\<close>

text \<open>The metrics a trace records, the earliest first.\<close>

fun trace_metrics :: "'p ev list \<Rightarrow> metric list" where
  "trace_metrics [] = []"
| "trace_metrics (e # tr) = trace_metrics tr @ (case e of Metric m \<Rightarrow> [m] | _ \<Rightarrow> [])"

lemma outcome_metrics_filter: "outcome_metrics tr = filter of_outcome (trace_metrics tr)"
  by (induction tr) (simp_all split: ev.split)

lemma trace_metrics_append [simp]: "trace_metrics (es @ tr) = trace_metrics tr @ trace_metrics es"
  by (induction es) simp_all

fun measured :: "'p ev \<Rightarrow> (metric_op \<times> bool) list" where
  "measured (ApiCall op _ _ e) = (case op of
     GetManaged \<Rightarrow> [(OpGet, e \<noteq> None)] | UpdateStatus \<Rightarrow> [(OpStatusUpdate, e \<noteq> None)]
   | AddFinalizer \<Rightarrow> [(OpFinalizerAdd, e \<noteq> None)] | RemoveFinalizer \<Rightarrow> [(OpFinalizerRemove, e \<noteq> None)]
   | UpdateManaged \<Rightarrow> [] | UpdateCritical \<Rightarrow> [])"
| "measured (Connected _ _ e) = [(OpConnect, e \<noteq> None)]"
| "measured (Observed _ _ x) = [(OpObserve, isl x)]"
| "measured (ExtCall op _ _ e) =
     [(case op of XCreate \<Rightarrow> OpCreate | XUpdate \<Rightarrow> OpUpdate | XDelete \<Rightarrow> OpDelete, e \<noteq> None)]"
| "measured _ = []"

fun measured_calls :: "'p ev list \<Rightarrow> (metric_op \<times> bool) list" where
  "measured_calls [] = []"
| "measured_calls (e # tr) = measured_calls tr @ measured e"

fun timed :: "metric_op \<times> bool \<Rightarrow> metric list" where
  "timed (op, failed) = Duration op # (if failed then [Failure op] else [])"

definition told :: "('w, 'p, 'c) reconciler \<Rightarrow> ('w, 'p) rstate \<Rightarrow> bool" where
  "told R s \<longleftrightarrow> (r_metrics R \<longrightarrow>
     filter (\<lambda>m. \<not> of_outcome m) (trace_metrics (rs_trace s)) = concat (map timed (measured_calls (rs_trace s))))"

text \<open>A call has been made, and nothing else since, that the metrics of \<open>op\<close> answer.\<close>

definition owed :: "('w, 'p, 'c) reconciler \<Rightarrow> metric_op \<Rightarrow> bool \<Rightarrow> ('w, 'p) rstate \<Rightarrow> bool" where
  "owed R op b s \<longleftrightarrow> (r_metrics R \<longrightarrow>
     filter (\<lambda>m. \<not> of_outcome m) (trace_metrics (rs_trace s)) @ timed (op, b) = concat (map timed (measured_calls (rs_trace s))))"

lemma told_fields [simp]:
  "told R (s\<lparr>rs_world := w\<rparr>) = told R s" "told R (s\<lparr>rs_mg := mg\<rparr>) = told R s"
  "told R (s\<lparr>rs_slot := sl\<rparr>) = told R s" "told R (s\<lparr>rs_key_errors := es\<rparr>) = told R s"
  by (simp_all add: told_def)

text \<open>Events that are neither measured nor a measure.\<close>

definition aside :: "'p ev \<Rightarrow> bool" where
  "aside e \<longleftrightarrow> measured e = [] \<and> (\<forall>m. e \<noteq> Metric m)"

lemma aside_log [simp]: "aside e \<Longrightarrow> told R (log_ev e s) = told R s" "aside e \<Longrightarrow> owed R op b (log_ev e s) = owed R op b s"
  by (auto simp: aside_def told_def owed_def split: ev.split)

lemma aside_simps [simp]:
  "aside (Took ks)" "aside (Gave ks)" "aside (Deferred d mg)" "aside (Emitted t wn r m)" "aside (Disconnected x)"
  "aside (ApiCall UpdateManaged mg mg' x)" "aside (ApiCall UpdateCritical mg mg' x)"
  by (simp_all add: aside_def)

lemma told_release [simp]: "told R s \<Longrightarrow> told R (release_slot R s)" "owed R op b s \<Longrightarrow> owed R op b (release_slot R s)"
  by (auto simp: told_def owed_def release_slot_def release_once_def split: option.split)

lemma told_disconnect: "told R s \<Longrightarrow> told R (disconnect R s)"
  by (auto simp: disconnect_def Let_def split: prod.split option.split)

lemma owed_paid: "owed R op b s \<Longrightarrow> told R (s\<lparr>rs_trace := op_metrics R op b @ rs_trace s\<rparr>)"
  by (cases b) (simp_all add: owed_def told_def op_metrics_def)

section \<open>Steps\<close>

abbreviation keeps :: "('w, 'p, 'c) reconciler \<Rightarrow> ('w, 'p, 'a) rpass \<Rightarrow> bool" where
  "keeps R m \<equiv> ends (told R) (\<lambda>_. told R) m"

text \<open>\<open>m\<close> is a call whose metrics are those of \<open>op\<close>, its failure told by \<open>failed\<close>.\<close>

definition calls_for :: "('w, 'p, 'c) reconciler \<Rightarrow> ('w, 'p, 'a) rpass \<Rightarrow> metric_op \<Rightarrow> ('a \<Rightarrow> bool) \<Rightarrow> bool" where
  "calls_for R m op failed \<longleftrightarrow> (\<forall>s. told R s \<longrightarrow> wp m (\<lambda>x. owed R op (failed x)) (\<lambda>_. told R) s)"

lemma paid_goes_on:
  "keeps R m \<Longrightarrow> owed R op b s \<Longrightarrow> wp (andthen (record_op R op b) (\<lambda>_. m)) (\<lambda>_. told R) (\<lambda>_. told R) s"
  by (intro walk_andthen walk_record_op) (simp add: ends_def owed_paid)

lemma keeps_call:
  assumes "calls_for R m op failed" "\<And>x. keeps R (f x)"
  shows "keeps R (andthen m (\<lambda>x. andthen (record_op R op (failed x)) (\<lambda>_. f x)))"
  unfolding ends_def
proof (intro allI impI walk_andthen[where m = m])
  fix s assume "told R s"
  then have "wp m (\<lambda>x. owed R op (failed x)) (\<lambda>_. told R) s" using assms(1) by (simp add: calls_for_def)
  then show "wp m (\<lambda>x. wp (andthen (record_op R op (failed x)) (\<lambda>_. f x)) (\<lambda>_. told R) (\<lambda>_. told R)) (\<lambda>_. told R) s"
    by (rule wp_mono) (auto intro: paid_goes_on assms(2))
qed

lemma calls_release:
  "calls_for R m op failed \<Longrightarrow> calls_for R (andthen m (\<lambda>x. andthen (modify (release_slot R)) (\<lambda>_. ret x))) op failed"
  unfolding calls_for_def by (auto simp: wps elim!: wp_mono)

lemma keeps_call_release:
  assumes "calls_for R m op failed" "\<And>x. keeps R (f x)"
  shows "keeps R (andthen m (\<lambda>x. andthen (modify (release_slot R)) (\<lambda>_. andthen (record_op R op (failed x)) (\<lambda>_. f x))))"
  unfolding ends_def
proof (intro allI impI walk_andthen[where m = m])
  fix s assume "told R s"
  then have "wp m (\<lambda>x. owed R op (failed x)) (\<lambda>_. told R) s" using assms(1) by (simp add: calls_for_def)
  then show "wp m (\<lambda>x. wp (andthen (modify (release_slot R)) (\<lambda>_. andthen (record_op R op (failed x)) (\<lambda>_. f x)))
      (\<lambda>_. told R) (\<lambda>_. told R)) (\<lambda>_. told R) s"
    by (rule wp_mono) (auto simp: wp_andthen[where m = "modify x" for x] wp_modify intro: paid_goes_on assms(2))
qed

lemma calls_steps:
  "calls_for R (api GetManaged f) OpGet (\<lambda>e. e \<noteq> None)" "calls_for R (api UpdateStatus f) OpStatusUpdate (\<lambda>e. e \<noteq> None)"
  "calls_for R (api AddFinalizer f) OpFinalizerAdd (\<lambda>e. e \<noteq> None)"
  "calls_for R (api RemoveFinalizer f) OpFinalizerRemove (\<lambda>e. e \<noteq> None)"
  "calls_for R (connect R) OpConnect isl" "calls_for R (observe R c) OpObserve isl"
  "calls_for R (ext XCreate f) OpCreate (\<lambda>e. e \<noteq> None)" "calls_for R (ext XUpdate f) OpUpdate (\<lambda>e. e \<noteq> None)"
  "calls_for R (ext XDelete f) OpDelete (\<lambda>e. e \<noteq> None)"
  unfolding calls_for_def
  by (auto intro!: walk_api walk_connect walk_observe walk_ext simp: told_def owed_def conn_err_def split: sum.splits)

lemma keeps_steps:
  "keeps R (api UpdateManaged f)" "keeps R (api UpdateCritical f)" "keeps R (clock R)" "keeps R (poll_interval R)"
  "keeps R (emit thr wn reason msg)" "keeps R (edit_mg h)" "keeps R (modify (release_slot R))" "keeps R (stop r)"
  "keeps R (modify (\<lambda>s. s\<lparr>rs_mg := m\<rparr>))"
  unfolding ends_def
  by (auto intro!: walk_api walk_clock walk_poll_interval walk_emit walk_edit_mg walk_modify walk_stop)

lemma keeps_conditions: "keeps R (read_conditions R cs)"
  by (induction cs) (auto intro!: ending keeps_steps)

lemma keeps_set_conds: "keeps R (set_conds R cs)"
  unfolding set_conds_def by (intro ending keeps_conditions ends_modify) simp

lemma keeps_gate: "keeps R (gate R k)"
  unfolding ends_def by (auto intro!: walk_gate)

lemma told_status:
  "told R s \<Longrightarrow> told R (s\<lparr>rs_world := w, rs_mg := mg,
     rs_trace := op_metrics R OpStatusUpdate (e \<noteq> None) @ ApiCall UpdateStatus mg0 mg1 e # rs_trace s\<rparr>)"
  by (simp add: told_def op_metrics_def)

text \<open>Writing the status and deferring end the pass, whatever would come after.\<close>

lemma told_write_status: "told R s \<Longrightarrow> wp (write_status R out) Q (\<lambda>_. told R) s"
  by (intro walk_write_status) (simp only: told_status)

lemma told_defer: "told R s \<Longrightarrow> wp (defer_reconcile R pristine d) Q (\<lambda>_. told R) s"
  unfolding defer_reconcile_def by (intro walk told_write_status) simp_all

lemma keeps_conclude: "keeps R (conclude R cs out)"
  unfolding conclude_def
  by (intro ending keeps_set_conds) (simp add: ends_def told_write_status)

lemma calls_gated:
  assumes "calls_for R m op failed"
  shows "calls_for R (gated R k pristine m) op failed"
  unfolding calls_for_def gated_def
proof (intro allI impI walk_andthen[where m = "gate R k"])
  fix s assume "told R s"
  then have "wp (gate R k) (\<lambda>_. told R) (\<lambda>_. told R) s" using keeps_gate[of R k] by (simp add: ends_def)
  then show "wp (gate R k) (\<lambda>d. wp (case d of None \<Rightarrow> andthen m (\<lambda>x. andthen (modify (release_slot R)) (\<lambda>_. ret x))
      | Some d \<Rightarrow> defer_reconcile R pristine d) (\<lambda>x. owed R op (failed x)) (\<lambda>_. told R)) (\<lambda>_. told R) s"
    by (rule wp_mono) (use calls_release[OF assms] in \<open>auto simp: told_defer calls_for_def split: option.split\<close>)
qed

section \<open>Stretches\<close>

lemma keeps_defer: "keeps R (defer_reconcile R pristine d)"
  by (simp add: ends_def told_defer)

lemmas keeps_rules = keeps_call keeps_call_release ending calls_gated calls_steps keeps_steps keeps_set_conds
  keeps_conclude keeps_defer keeps_gate

lemma keeps_finalize: "keeps R (finalize R)"
  unfolding finalize_def by (intro keeps_rules)

lemma keeps_stretches:
  "keeps R (fetch R)" "keeps R (check_paused R)" "keeps R (check_orphaned R)"
  "keeps R (connect_client R pristine)" "keeps R (observe_external R k pristine unresolved c)"
  "keeps R check_ready_contract" "keeps R (resolve_handshake R unresolved ob)"
  "keeps R (check_observe_only R ob)" "keeps R (check_creation_grace R ob)"
  "keeps R (check_deleted R k pristine ob c)" "keeps R (ensure_finalizer R)"
  "keeps R (mark_pending R)" "keeps R (create_failed R e)" "keeps R (create_succeeded R)"
  "keeps R (check_late_initialized R ob)" "keeps R (check_settled R ob)" "keeps R (update_external R k pristine c)"
  unfolding fetch_def check_paused_def check_orphaned_def connect_client_def observe_external_def
    check_ready_contract_def resolve_handshake_def annotations_failed_def check_observe_only_def
    check_creation_grace_def check_deleted_def delete_external_def ensure_finalizer_def mark_pending_def
    create_failed_def create_succeeded_def check_late_initialized_def check_settled_def settle_def
    update_external_def mark_not_observed_def
  by (intro keeps_rules keeps_finalize)+

lemma keeps_create: "keeps R (check_create R k pristine ob c)"
  unfolding check_create_def create_external_def by (intro keeps_rules keeps_stretches)

lemma keeps_pass: "keeps R (pass R)"
  unfolding pass_def with_client_def
  by (intro ending ends_cleanup keeps_stretches keeps_create) (simp_all add: told_disconnect)

text \<open>The metrics around the pass are of its outcome.\<close>

lemma told_fold: "list_all of_outcome ms \<Longrightarrow> told R (fold log_ev (map Metric ms) s) = told R s"
proof (induction ms arbitrary: s)
  case (Cons m ms)
  then have "told R (log_ev (Metric m) s) = told R s" by (simp add: told_def)
  with Cons show ?case by simp
qed simp

lemma run_told:
  assumes "reconcile R (begin_pass R w seen) = (s, out)"
  shows "told R s"
proof -
  obtain s' ms where p: "pass R (metered R (begin_pass R w seen)) = (s', Inl out)"
    "s = fold log_ev (map Metric ms) s'"
    "ms = (if r_metrics R then [ReconcileDuration]
       @ (if snd out \<noteq> None then [ReconcileFailure, ErrorRequeue]
          else ReconcileSuccess # (if res_after (fst out) > 0 then [AfterRequeue]
            else if res_requeue (fst out) then [ImmediateRequeue] else [])) @ [InFlight (- 1)] else [])"
    using assms by (rule reconcile_run)
  have "told R (metered R (begin_pass R w seen))" by (simp add: told_def metered_def begin_pass_def)
  then have "wp (pass R) (\<lambda>_. told R) (\<lambda>_. told R) (metered R (begin_pass R w seen))"
    using keeps_pass[of R] by (simp add: ends_def)
  then have "told R s'" using p(1) by (simp add: wp_def)
  moreover have "list_all of_outcome ms" by (simp add: p(3))
  ultimately show ?thesis by (simp add: p(2) told_fold)
qed

end
