(* ===== verification/Telemetry_Props.thy ===== *)
theory Telemetry_Props
  imports Telemetry Pass_Metrics
begin

text \<open>Properties of the exported metrics.\<close>

section \<open>Kinds\<close>

text \<open>A point fits its instrument: one that was created, of the kind the measure is for.\<close>

fun fits :: "point \<Rightarrow> bool" where
  "fits (name, _, Added n) \<longleftrightarrow>
     (Counter, name) \<in> set instruments \<and> 0 \<le> n \<or> (UpDownCounter, name) \<in> set instruments"
| "fits (name, _, Recorded _) \<longleftrightarrow> (Histogram, name) \<in> set instruments"
| "fits (name, _, GaugeInt _) \<longleftrightarrow> (IntGauge, name) \<in> set instruments"
| "fits (name, _, GaugeFloat _) \<longleftrightarrow> (FloatGauge, name) \<in> set instruments"

lemma put_point_fields [simp]:
  "tm_data (put_point n a x t) = (n, a, x) # tm_data t" "tm_in_flight (put_point n a x t) = tm_in_flight t"
  "tm_snapshot (put_point n a x t) = tm_snapshot t"
  by (simp_all add: put_point_def)

lemmas record_defs = count_one_def time_of_def record_requeue_def inc_rate_limit_deferral_def inc_rate_limit_signal_def
  observe_rate_limit_def

lemma metric_fits: "list_all fits (tm_data t) \<Longrightarrow> list_all fits (tm_data (record_metric d m t))"
proof (cases m)
  case (Duration op)
  assume "list_all fits (tm_data t)"
  with Duration show ?thesis by (cases op) (simp_all add: record_defs instruments_def)
next
  case (Failure op)
  assume "list_all fits (tm_data t)"
  with Failure show ?thesis by (cases op) (simp_all add: record_defs instruments_def)
qed (simp_all add: record_defs instruments_def)

lemma queue_fits: "list_all fits (tm_data t) \<Longrightarrow> list_all fits (tm_data (record_queue e t))"
  by (cases e) (simp_all add: record_defs instruments_def)

lemma step_fits: "list_all fits (tm_data t) \<Longrightarrow> list_all fits (tm_data (telemetry_step c t))"
  by (cases c) (simp_all add: metric_fits queue_fits record_defs instruments_def)

lemma input_points_fit: "list_all fits (input_points is)"
  by (induction "is") (simp_all add: instruments_def)

lemma rate_limit_points_fit: "list_all fits (rate_limit_points snap)"
proof -
  have "list_all fits (concat (map (\<lambda>k. [(''ratelimit.capacity'', [(''key'', sn_key k)], GaugeInt (sn_capacity k)),
      (''ratelimit.seconds_to_reset'', [(''key'', sn_key k)], GaugeFloat (sn_seconds_to_reset k))]) ks))" for ks
    by (induction ks) (simp_all add: instruments_def)
  then show ?thesis by (simp add: rate_limit_points_def input_points_fit instruments_def)
qed

lemma steps_fit:
  "list_all fits (tm_data t) \<Longrightarrow> list_all fits (tm_data (fold telemetry_step calls t))"
  by (induction calls arbitrary: t) (simp_all add: step_fits)

lemma collect_fits: "list_all fits (snd (collect t w))"
  by (simp add: collect_def Let_def rate_limit_points_fit instruments_def split: option.split prod.split)

text \<open>
  The metrics are well kinded.  Whatever is called on a handle, in any order, every measure goes to an
  instrument that was created, of its own kind; a counter only ever grows; and so do the gauges of
  every collection.
\<close>

lemma telemetry_well_kinded:
  "let t = fold telemetry_step calls blank_telemetry in
     list_all fits (tm_data t) \<and> list_all fits (snd (collect t w))"
  using steps_fit[of blank_telemetry calls] by (simp add: Let_def collect_fits) (simp add: blank_telemetry_def)

section \<open>What a pass exports\<close>

fun added :: "string \<Rightarrow> point \<Rightarrow> int" where
  "added name (n, _, Added x) = (if n = name then x else 0)"
| "added name _ = 0"

definition sum_of :: "string \<Rightarrow> 'w telemetry \<Rightarrow> int" where
  "sum_of name t = sum_list (map (added name) (tm_data t))"

lemma blank_sums: "tm_in_flight blank_telemetry = 0" "sum_of name blank_telemetry = 0"
  by (simp_all add: blank_telemetry_def sum_of_def)

text \<open>In flight, successes, failures, requeues.\<close>

definition tally :: "'w telemetry \<Rightarrow> int \<times> int \<times> int \<times> int" where
  "tally t = (tm_in_flight t, sum_of ''reconcile.success'' t, sum_of ''reconcile.failure'' t,
     sum_of ''reconcile.queue.requeues'' t)"

fun bump :: "metric \<Rightarrow> int \<times> int \<times> int \<times> int \<Rightarrow> int \<times> int \<times> int \<times> int" where
  "bump (InFlight n) (f, s, e, r) = (if n = 0 then f else i64 (f + n), s, e, r)"
| "bump ReconcileSuccess (f, s, e, r) = (f, s + 1, e, r)"
| "bump ReconcileFailure (f, s, e, r) = (f, s, e + 1, r)"
| "bump AfterRequeue (f, s, e, r) = (f, s, e, r + 1)"
| "bump ImmediateRequeue (f, s, e, r) = (f, s, e, r + 1)"
| "bump ErrorRequeue (f, s, e, r) = (f, s, e, r + 1)"
| "bump _ x = x"

lemma tally_metric: "tally (record_metric d m t) = bump m (tally t)"
proof (cases m)
  case (Failure op)
  then show ?thesis by (cases op) (simp_all add: tally_def sum_of_def record_defs)
qed (simp_all add: tally_def sum_of_def record_defs)

lemma bump_of_op: "\<not> of_outcome m \<Longrightarrow> bump m x = x"
  by (cases m; cases x) simp_all

lemma tally_metrics: "tally (fold (\<lambda>m. record_metric (dur m) m) ms t) = fold bump (filter of_outcome ms) (tally t)"
  by (induction ms arbitrary: t) (simp_all add: tally_metric bump_of_op)

lemma i64_back:
  assumes "in_i64 n"
  shows "i64 (i64 (n + 1) + - 1) = n"
proof -
  have "signed_take_bit 63 (signed_take_bit 63 (n + 1) + - 1) = signed_take_bit 63 (n :: int)"
    using signed_take_bit_add[of 63 "n + 1" "- 1 :: int"] by simp
  with assms show ?thesis by (simp add: i64_def in_i64_def signed_take_bit_int_eq_self_iff)
qed

text \<open>
  C14: what a pass exports adds up.  Whatever the durations, after a pass with metrics the count in flight
  is back where it was, exactly one of the successes and failures has grown, by one, and the total of
  requeues has grown by one exactly when the pass ended in an error, a delay or a requeue.
\<close>

theorem pass_exports:
  assumes "reconcile R (begin_pass R w seen) = (s, out)" "r_metrics R" "in_i64 (tm_in_flight t)"
    and "t' = fold (\<lambda>m. record_metric (dur m) m) (trace_metrics (rs_trace s)) t"
  shows "tm_in_flight t' = tm_in_flight t
    \<and> sum_of ''reconcile.success'' t' = sum_of ''reconcile.success'' t + (if snd out = None then 1 else 0)
    \<and> sum_of ''reconcile.failure'' t' = sum_of ''reconcile.failure'' t + (if snd out = None then 0 else 1)
    \<and> sum_of ''reconcile.queue.requeues'' t' = sum_of ''reconcile.queue.requeues'' t
        + (if snd out \<noteq> None \<or> 0 < res_after (fst out) \<or> res_requeue (fst out) then 1 else 0)"
proof -
  have "tally t' = fold bump (outcome_metrics (rs_trace s)) (tally t)"
    by (simp add: assms(4) tally_metrics outcome_metrics_filter)
  moreover have "fold bump (outcome_metrics (rs_trace s)) (f, a, e, r) =
      (f, a + (if snd out = None then 1 else 0), e + (if snd out = None then 0 else 1),
       r + (if snd out \<noteq> None \<or> 0 < res_after (fst out) \<or> res_requeue (fst out) then 1 else 0))"
    if "in_i64 f" for f a e r
    using assms(2) that by (simp add: run_metrics[OF assms(1)] i64_back del: add_uminus_conv_diff)
  ultimately show ?thesis using assms(3) by (simp add: tally_def)
qed

theorem pass_exports_witness:
  "let s = fst (demo_run (demo (Inr absent) None) demo_object);
       t = fold (\<lambda>m. record_metric second m) (trace_metrics (rs_trace s)) (blank_telemetry :: unit telemetry)
   in tm_in_flight t = 0 \<and> sum_of ''reconcile.success'' t + sum_of ''reconcile.failure'' t = 1"
proof -
  have m: "r_metrics (demo (Inr absent) None)" by (simp add: demo_def)
  obtain s out where r: "demo_run (demo (Inr absent) None) demo_object = (s, out)" by (metis surj_pair)
  let ?t = "fold (\<lambda>m. record_metric second m) (trace_metrics (rs_trace s)) (blank_telemetry :: unit telemetry)"
  have "tm_in_flight ?t = 0 \<and> sum_of ''reconcile.success'' ?t = (if snd out = None then 1 else 0)
      \<and> sum_of ''reconcile.failure'' ?t = (if snd out = None then 0 else 1)"
    using pass_exports[OF r[unfolded demo_run_def] m, of "blank_telemetry :: unit telemetry" _ "\<lambda>_. second", OF _ HOL.refl]
    by (auto simp: blank_sums in_i64_def)
  then show ?thesis by (simp only: r fst_conv Let_def) (simp split: if_splits)
qed

section \<open>What the calls of a pass export\<close>

text \<open>
  The instruments of the calls that are measured, and what a trace has called, the earliest first: the call's
  instrument and whether it failed.
\<close>

definition call_names :: "string list" where
  "call_names = [''reconcile.get'', ''external.connect'', ''external.observe'', ''external.create'', ''external.update'',
     ''external.delete'', ''finalizer.add'', ''finalizer.remove'', ''status.update'']"

fun called :: "'p ev list \<Rightarrow> (string \<times> bool) list" where
  "called [] = []"
| "called (e # tr) = called tr @ (case e of
     ApiCall GetManaged _ _ x \<Rightarrow> [(''reconcile.get'', x \<noteq> None)]
   | ApiCall AddFinalizer _ _ x \<Rightarrow> [(''finalizer.add'', x \<noteq> None)]
   | ApiCall RemoveFinalizer _ _ x \<Rightarrow> [(''finalizer.remove'', x \<noteq> None)]
   | ApiCall UpdateStatus _ _ x \<Rightarrow> [(''status.update'', x \<noteq> None)]
   | Connected _ _ x \<Rightarrow> [(''external.connect'', x \<noteq> None)]
   | Observed _ _ x \<Rightarrow> [(''external.observe'', isl x)]
   | ExtCall XCreate _ _ x \<Rightarrow> [(''external.create'', x \<noteq> None)]
   | ExtCall XUpdate _ _ x \<Rightarrow> [(''external.update'', x \<noteq> None)]
   | ExtCall XDelete _ _ x \<Rightarrow> [(''external.delete'', x \<noteq> None)]
   | _ \<Rightarrow> [])"

lemma called_measured: "called tr = map (\<lambda>(op, b). (op_name op, b)) (measured_calls tr)"
  by (induction tr) (auto split: ev.split api_op.split ext_op.split)

definition points_on :: "string \<Rightarrow> 'w telemetry \<Rightarrow> nat" where
  "points_on name t = length (filter (\<lambda>(n, _, _). n = name) (tm_data t))"

fun durations_of :: "string \<Rightarrow> metric \<Rightarrow> nat" where
  "durations_of n (Duration op) = (if op_name op = n then 1 else 0)"
| "durations_of n _ = 0"

fun failures_of :: "string \<Rightarrow> metric \<Rightarrow> nat" where
  "failures_of n (Failure op) = (if op_name op = n then 1 else 0)"
| "failures_of n _ = 0"

lemma suffix_differs: "x @ ''.duration_seconds'' \<noteq> y @ ''.failure''" "x @ ''.failure'' \<noteq> y @ ''.duration_seconds''"
proof -
  have "last (x @ ''.duration_seconds'') \<noteq> last (y @ ''.failure'')" "last (x @ ''.failure'') \<noteq> last (y @ ''.duration_seconds'')"
    by simp_all
  then show "x @ ''.duration_seconds'' \<noteq> y @ ''.failure''" "x @ ''.failure'' \<noteq> y @ ''.duration_seconds''"
    by metis+
qed

lemma call_names_other:
  assumes "n \<in> set call_names"
  shows "n @ ''.duration_seconds'' \<notin> {''reconcile.duration_seconds'', ''reconcile.success'', ''reconcile.failure'',
      ''reconcile.queue.requeues'', ''reconcile.requeue.after'', ''reconcile.requeue.immediate'', ''reconcile.requeue.error''}"
    "n @ ''.failure'' \<notin> {''reconcile.duration_seconds'', ''reconcile.success'', ''reconcile.failure'',
      ''reconcile.queue.requeues'', ''reconcile.requeue.after'', ''reconcile.requeue.immediate'', ''reconcile.requeue.error''}"
  using assms by (auto simp: call_names_def)

lemma call_points:
  assumes "n \<in> set call_names"
  shows "points_on (n @ ''.duration_seconds'') (record_metric d m t) = points_on (n @ ''.duration_seconds'') t + durations_of n m"
    "sum_of (n @ ''.failure'') (record_metric d m t) = sum_of (n @ ''.failure'') t + int (failures_of n m)"
  using call_names_other[OF assms]
  by (cases m; simp add: points_on_def sum_of_def record_defs suffix_differs)+

lemma call_points_all:
  assumes "n \<in> set call_names"
  shows "points_on (n @ ''.duration_seconds'') (fold (\<lambda>m. record_metric (dur m) m) ms t)
      = points_on (n @ ''.duration_seconds'') t + sum_list (map (durations_of n) ms)"
    "sum_of (n @ ''.failure'') (fold (\<lambda>m. record_metric (dur m) m) ms t)
      = sum_of (n @ ''.failure'') t + int (sum_list (map (failures_of n) ms))"
  by (induction ms arbitrary: t) (simp_all add: call_points[OF assms])

lemma of_calls:
  "sum_list (map (durations_of n) ms) = sum_list (map (durations_of n) (filter (\<lambda>m. \<not> of_outcome m) ms))"
  "sum_list (map (failures_of n) ms) = sum_list (map (failures_of n) (filter (\<lambda>m. \<not> of_outcome m) ms))"
proof -
  have "of_outcome m \<Longrightarrow> durations_of n m = 0 \<and> failures_of n m = 0" for m by (cases m) simp_all
  then show "sum_list (map (durations_of n) ms) = sum_list (map (durations_of n) (filter (\<lambda>m. \<not> of_outcome m) ms))"
    "sum_list (map (failures_of n) ms) = sum_list (map (failures_of n) (filter (\<lambda>m. \<not> of_outcome m) ms))"
    by (induction ms) simp_all
qed

lemma timed_counts:
  "sum_list (map (durations_of n) (concat (map timed cs)))
     = length (filter (\<lambda>(n', _). n' = n) (map (\<lambda>(op, b). (op_name op, b)) cs))"
  "sum_list (map (failures_of n) (concat (map timed cs)))
     = length (filter (\<lambda>c. c = (n, True)) (map (\<lambda>(op, b). (op_name op, b)) cs))"
  by (induction cs) (auto split: if_splits)

text \<open>
  C15: what the calls of a pass export.  Whatever the durations, after a pass with metrics each of the nine
  measured calls (reading the object, Connect, Observe, Create, Update, Delete, adding and removing the
  finalizer, writing the status) has on its own instruments one more duration for each time the pass made
  it, and no other, and a failure counter that grew by the times it failed.
\<close>

theorem pass_counts_calls:
  assumes "reconcile R (begin_pass R w seen) = (s, out)" "r_metrics R" "n \<in> set call_names"
    and "t' = fold (\<lambda>m. record_metric (dur m) m) (trace_metrics (rs_trace s)) t"
  shows "points_on (n @ ''.duration_seconds'') t' = points_on (n @ ''.duration_seconds'') t
      + length (filter (\<lambda>(n', _). n' = n) (called (rs_trace s)))
    \<and> sum_of (n @ ''.failure'') t' = sum_of (n @ ''.failure'') t
      + int (length (filter (\<lambda>c. c = (n, True)) (called (rs_trace s))))"
proof -
  have "filter (\<lambda>m. \<not> of_outcome m) (trace_metrics (rs_trace s)) = concat (map timed (measured_calls (rs_trace s)))"
    using run_told[OF assms(1)] assms(2) by (simp add: told_def)
  then show ?thesis
    unfolding assms(4) call_points_all[OF assms(3)] of_calls[of n "trace_metrics (rs_trace s)"] called_measured
    by (simp only: timed_counts)
qed

text \<open>A pass of the demonstration that creates: one Create, which succeeded.\<close>

theorem pass_counts_calls_witness:
  "let s = fst (demo_run (demo (Inr absent) None) demo_object);
       t = fold (\<lambda>m. record_metric second m) (trace_metrics (rs_trace s)) (blank_telemetry :: unit telemetry)
   in points_on ''external.create.duration_seconds'' t = 1 \<and> sum_of ''external.create.failure'' t = 0
    \<and> points_on ''external.update.duration_seconds'' t = 0"
proof -
  have m: "r_metrics (demo (Inr absent) None)" by (simp add: demo_def)
  obtain s out where r: "demo_run (demo (Inr absent) None) demo_object = (s, out)" by (metis surj_pair)
  have n: "''external.create'' \<in> set call_names" "''external.update'' \<in> set call_names" by (simp_all add: call_names_def)
  have c: "filter (\<lambda>(n', _). n' = ''external.create'') (called (rs_trace s)) = [(''external.create'', False)]"
    "filter (\<lambda>c. c = (''external.create'', True)) (called (rs_trace s)) = []"
    "filter (\<lambda>(n', _). n' = ''external.update'') (called (rs_trace s)) = []"
    using r by (auto simp: demo_unfold)
  have b: "points_on k (blank_telemetry :: unit telemetry) = 0" "sum_of k (blank_telemetry :: unit telemetry) = 0" for k
    by (simp_all add: points_on_def sum_of_def blank_telemetry_def)
  note counts = pass_counts_calls[OF r[unfolded demo_run_def] m, of _ _ "\<lambda>_. second" "blank_telemetry :: unit telemetry", OF _ HOL.refl]
  show ?thesis using counts[OF n(1)] counts[OF n(2)] by (simp add: r Let_def c b)
qed

end
