(* ===== verification/Greeting.thy ===== *)
theory Greeting
  imports Controller New_Reconciler
begin

text \<open>
  The example controller of src/examples/greeting-controller/main.go, and the check of the Ready
  contract that its tests use (src/pkg/reconciler/reconcilertest/reconcilertest.go).  A Greeting is
  a managed resource whose payload is the message of its spec.  The store of external greetings,
  which connector and client share, lives in the world.  The clock and \<open>%q\<close>, which quotes by the
  Unicode tables, are parameters; so are the values of the flags.
\<close>

section \<open>The client\<close>

type_synonym greeting = "string managed"
type_synonym external_store = "(string, string) mapping"

record 'w greeting_env =
  ge_now :: "'w \<Rightarrow> 'w \<times> gotime"
  ge_store :: "'w \<Rightarrow> external_store"
  ge_put :: "external_store \<Rightarrow> 'w \<Rightarrow> 'w"
  ge_quote :: "string \<Rightarrow> string"

definition err_not_greeting :: err where
  "err_not_greeting = new_err ''managed resource is not a Greeting''"

text \<open>Setting a condition that is built with the clock's time.\<close>

definition set_at :: "'w greeting_env \<Rightarrow> (gotime \<Rightarrow> condition) \<Rightarrow> greeting \<Rightarrow> 'w \<Rightarrow> 'w \<times> greeting" where
  "set_at E c g w = (case ge_now E w of (w, t) \<Rightarrow> (w, put_conditions [c t] g))"

definition unavailable_because :: "string \<Rightarrow> gotime \<Rightarrow> condition" where
  "unavailable_because msg t = with_condition_message (cond_unavailable t) msg"

text \<open>\<open>Observe\<close>; \<open>None\<close> is a managed resource that is not a Greeting.\<close>

definition greeting_observe ::
  "'w greeting_env \<Rightarrow> greeting option \<Rightarrow> 'w \<Rightarrow> 'w \<times> greeting option \<times> (err + observation)" where
  "greeting_observe E mg w =
     (case mg of None \<Rightarrow> (w, None, Inl err_not_greeting)
      | Some g \<Rightarrow>
          let name = get_external_name g in
          if name = [] then
            (case set_at E (unavailable_because ''the external greeting has not been created'') g w of
               (w, g) \<Rightarrow> (w, Some g, Inr no_observation))
          else case Mapping.lookup (ge_store E w) name of
            None \<Rightarrow>
              (case set_at E (unavailable_because ''the external greeting does not exist'') g w of
                 (w, g) \<Rightarrow> (w, Some g, Inr no_observation))
          | Some got \<Rightarrow>
              (case set_at E cond_available g w of
                 (w, g) \<Rightarrow>
                   (w, Some g, Inr (if got \<noteq> mg_payload g
                      then no_observation\<lparr>ob_exists := True,
                             ob_diff := ''message: '' @ ge_quote E got @ '' != '' @ ge_quote E (mg_payload g)\<rparr>
                      else no_observation\<lparr>ob_exists := True, ob_up_to_date := True\<rparr>))))"

text \<open>The client is given Greetings only, so the assertions of the other methods hold.\<close>

definition greeting_create :: "'w greeting_env \<Rightarrow> ('w, string) api" where
  "greeting_create E g w =
     (let g = set_external_name g (om_name g)
      in (ge_put E (Mapping.update (om_name g) (mg_payload g) (ge_store E w)) w, g, None))"

definition greeting_update :: "'w greeting_env \<Rightarrow> ('w, string) api" where
  "greeting_update E g w =
     (ge_put E (Mapping.update (get_external_name g) (mg_payload g) (ge_store E w)) w, g, None)"

definition greeting_delete :: "'w greeting_env \<Rightarrow> ('w, string) api" where
  "greeting_delete E g w =
     (ge_put E (Mapping.delete (get_external_name g) (ge_store E w)) w, g, None)"

definition greeting_client :: "'w greeting_env \<Rightarrow> ('w, string) external_client" where
  "greeting_client E =
     \<lparr>xc_observe = (\<lambda>g w. case greeting_observe E (Some g) w of (w, mg, x) \<Rightarrow>
         (w, (case mg of None \<Rightarrow> g | Some g \<Rightarrow> g), x)),
      xc_create = greeting_create E, xc_update = greeting_update E, xc_delete = greeting_delete E,
      xc_keys = no_keys\<rparr>"

definition greeting_rate_limit_key :: "greeting \<Rightarrow> 'w \<Rightarrow> err + string" where
  "greeting_rate_limit_key g w = Inr ''greeting-store''"

definition greeting_connecter :: "'w greeting_env \<Rightarrow> ('w, string, unit) connecter" where
  "greeting_connecter E =
     \<lparr>cn_connect = (\<lambda>g w. (w, g, Inr ())), cn_client = (\<lambda>_. greeting_client E),
      cn_keys = \<lparr>km_keys = None, km_key = Some greeting_rate_limit_key\<rparr>\<rparr>"

section \<open>The program\<close>

text \<open>The options after the flags are parsed: the governor, saturation, its experimental memory input.\<close>

definition greeting_options :: "bool \<Rightarrow> bool \<Rightarrow> bool \<Rightarrow> controller_options" where
  "greeting_options rate_limits saturation memory =
     (let rl = co_rate_limit default_options
      in default_options\<lparr>co_rate_limit := rl\<lparr>rl_enabled := rate_limits,
           rl_saturation := (rl_saturation rl)\<lparr>so_enabled := saturation,
             so_experimental_memory := memory\<rparr>\<rparr>\<rparr>)"

text \<open>
  \<open>main\<close> up to the start of the manager: it exits when the governor cannot be set up, and else hands
  the reconciler and the options to controller-runtime.
\<close>

definition greeting_main ::
  "'w greeting_env \<Rightarrow> (governor \<Rightarrow> 'w \<Rightarrow> 'w \<times> err option) \<Rightarrow> ('w \<Rightarrow> governor) \<times> (governor \<Rightarrow> 'w \<Rightarrow> 'w)
     \<Rightarrow> ('w, string) cluster \<Rightarrow> controller_options \<Rightarrow> 'w
     \<Rightarrow> setup_error + ('w, string, unit option) reconciler \<times> runtime_options \<times> 'w" where
  "greeting_main E add lens m co w =
     (case setup_rate_limit_governor add co w of
        (w, co, Some e) \<Rightarrow> Inl e
      | (w, co, None) \<Rightarrow>
          (case new_reconciler m
             [with_external_connecter (greeting_connecter E),
              with_rate_limit_governor (map_option (\<lambda>_. lens) (co_governor co))] w of
             (R, w) \<Rightarrow> Inr (R, for_controller_runtime co, w)))"

section \<open>The check of the Ready contract\<close>

text \<open>What \<open>AssertObserveSetsReady\<close> fails a test with.\<close>

datatype contract_failure = Not_Owned err | Assessed_Not_Set err | Success_Not_Set

definition assert_observe_sets_ready ::
  "('w \<Rightarrow> 'w \<times> gotime) \<Rightarrow> ('p managed \<Rightarrow> 'w \<Rightarrow> 'w \<times> 'p managed \<times> (err + observation))
     \<Rightarrow> 'p managed \<Rightarrow> 'w \<Rightarrow> 'w \<times> 'p managed \<times> (err + observation) \<times> contract_failure option" where
  "assert_observe_sets_ready now obs mg w =
     (case now w of (w, t) \<Rightarrow>
      case obs (put_conditions [cond_not_observed t] mg) w of (w, mg, x) \<Rightarrow>
        (w, mg, x,
         let unset = (c_reason (get_condition (mg_conditions mg) type_ready) = reason_not_observed)
         in case x of
              Inl e \<Rightarrow>
                if \<not> is_ready_assessed (Some e) then Some (Not_Owned e)
                else if unset then Some (Assessed_Not_Set e) else None
            | Inr _ \<Rightarrow> if unset then Some Success_Not_Set else None))"

end
