(* ===== verification/Greeting_Pass.thy ===== *)
theory Greeting_Pass
  imports Greeting Controller_Props
begin

text \<open>
  Passes of the example controller against an API server that accepts what it is sent: rules that walk
  a pass while tracking the object in hand, the object on the server and the external store.
\<close>

section \<open>The API server\<close>

text \<open>What the server holds and the time are read off the world.\<close>

record 'w server =
  sv_object :: "'w \<Rightarrow> greeting"
  sv_clock :: "'w \<Rightarrow> instant"

definition quiet :: "'w greeting_env \<Rightarrow> 'w server \<Rightarrow> 'w \<Rightarrow> 'w \<Rightarrow> bool" where
  "quiet E V w w' \<longleftrightarrow> ge_store E w' = ge_store E w \<and> sv_clock V w \<le> sv_clock V w'
     \<and> sv_object V w' = sv_object V w"

text \<open>
  The object is a resource with a status subresource, nobody else writes it, and no call fails: \<open>Get\<close>
  returns the object, an update stores all but the conditions, a status update stores the conditions
  only, and both return what is stored under a new resource version.  An object being deleted goes
  with its last finalizer.
\<close>

definition accepted ::
  "'w greeting_env \<Rightarrow> 'w server \<Rightarrow> 'w \<Rightarrow> greeting \<Rightarrow> 'w \<times> greeting \<times> err option \<Rightarrow> bool" where
  "accepted E V w x r \<longleftrightarrow> (\<exists>w' rv. r = (w', x\<lparr>om_resource_version := rv\<rparr>, None)
     \<and> ge_store E w' = ge_store E w \<and> sv_clock V w \<le> sv_clock V w'
     \<and> (was_deleted x \<and> om_finalizers x = [] \<or> sv_object V w' = x\<lparr>om_resource_version := rv\<rparr>))"

definition honest :: "'w greeting_env \<Rightarrow> 'w server \<Rightarrow> ('w, string) cluster \<Rightarrow> bool" where
  "honest E V m \<longleftrightarrow>
     (\<forall>x w. \<exists>w'. mn_get m x w = (w', sv_object V w, None) \<and> quiet E V w w')
     \<and> (\<forall>x w. accepted E V w (x\<lparr>mg_conditions := mg_conditions (sv_object V w)\<rparr>) (mn_update m x w))
     \<and> (\<forall>x w. accepted E V w ((sv_object V w)\<lparr>mg_conditions := mg_conditions x\<rparr>) (mn_status_update m x w))
     \<and> (\<forall>w. \<exists>w' t. mn_now m w = (w', t) \<and> quiet E V w w' \<and> printable t
          \<and> sv_clock V w \<le> inst t \<and> inst t \<le> sv_clock V w')
     \<and> ge_now E = mn_now m
     \<and> (\<forall>st w. ge_store E (ge_put E st w) = st \<and> sv_object V (ge_put E st w) = sv_object V w
          \<and> sv_clock V (ge_put E st w) = sv_clock V w)
     \<and> (\<exists>n. retries n (mn_retry m))"

lemma honestD:
  assumes "honest E V m"
  shows "\<exists>w'. mn_get m x w = (w', sv_object V w, None) \<and> quiet E V w w'"
    "accepted E V w (x\<lparr>mg_conditions := mg_conditions (sv_object V w)\<rparr>) (mn_update m x w)"
    "accepted E V w ((sv_object V w)\<lparr>mg_conditions := mg_conditions x\<rparr>) (mn_status_update m x w)"
    "\<exists>w' t. mn_now m w = (w', t) \<and> quiet E V w w' \<and> printable t \<and> sv_clock V w \<le> inst t \<and> inst t \<le> sv_clock V w'"
    "ge_now E = mn_now m" "ge_store E (ge_put E st w) = st" "sv_object V (ge_put E st w) = sv_object V w"
    "sv_clock V (ge_put E st w) = sv_clock V w" "\<exists>n. retries n (mn_retry m)"
  using assms by (simp_all only: honest_def)

section \<open>The reconciler\<close>

definition greeting_reconciler ::
  "'w greeting_env \<Rightarrow> ('w, string) cluster \<Rightarrow> ('w, string, unit option) reconciler" where
  "greeting_reconciler E m = fst (with_external_connecter (greeting_connecter E) (blank_reconciler m, undefined))"

text \<open>Without flags \<open>main\<close> builds it, and touches nothing.\<close>

lemma greeting_main_off:
  assumes "greeting_main E add lens m (greeting_options False False mem) w = Inr (R, ct, w')"
  shows "R = greeting_reconciler E m" "w' = w"
  using assms
  by (auto simp: greeting_main_def greeting_options_def setup_rate_limit_governor_def Let_def
      default_options_def zero_saturation_def greeting_reconciler_def new_reconciler_def with_external_connecter_def
      with_external_connect_disconnecter_def with_rate_limit_governor_def)

lemma reconciler_fields [simp]:
  "r_get (greeting_reconciler E m) = mn_get m" "r_update (greeting_reconciler E m) = mn_update m"
  "r_status_update (greeting_reconciler E m) = mn_status_update m"
  "r_critical (greeting_reconciler E m) =
     update_critical_annotations (mn_retry m) (mn_api_status m) (mn_get m) (mn_update m)"
  "r_add_finalizer (greeting_reconciler E m) = api_add_finalizer (mn_update m) finalizer_name"
  "r_remove_finalizer (greeting_reconciler E m) = managed_finalizer m"
  "r_connect (greeting_reconciler E m) = (\<lambda>g w. (w, g, Inr (Some ())))"
  "r_disconnect (greeting_reconciler E m) = nop_disconnect"
  "r_observe (greeting_reconciler E m) (Some c) = xc_observe (greeting_client E)"
  "r_create (greeting_reconciler E m) (Some c) = greeting_create E"
  "r_ext_update (greeting_reconciler E m) (Some c) = greeting_update E"
  "r_delete (greeting_reconciler E m) (Some c) = greeting_delete E"
  "r_governor (greeting_reconciler E m) = None" "r_now (greeting_reconciler E m) = mn_now m"
  "r_metrics (greeting_reconciler E m) = False"
  "r_poll_interval (greeting_reconciler E m) = 60 * second"
  "r_poll_hook (greeting_reconciler E m) = default_poll_hook"
  by (simp_all add: greeting_reconciler_def with_external_connecter_def with_external_connect_disconnecter_def
      blank_reconciler_def client_of_def greeting_connecter_def greeting_client_def default_poll_interval_def)

section \<open>Walking a pass\<close>

text \<open>The object in hand, the object on the server, the external store, and a time that has passed.\<close>

definition here ::
  "'w greeting_env \<Rightarrow> 'w server \<Rightarrow> greeting \<Rightarrow> greeting \<Rightarrow> external_store \<Rightarrow> instant
     \<Rightarrow> ('w, string) rstate \<Rightarrow> bool" where
  "here E V mg ob st t s \<longleftrightarrow> rs_mg s = mg \<and> sv_object V (rs_world s) = ob
     \<and> ge_store E (rs_world s) = st \<and> t \<le> sv_clock V (rs_world s) \<and> rs_slot s = None"

lemma here_trace: "here E V mg ob st t s \<Longrightarrow> here E V mg ob st t (log_ev e s)"
  by (simp add: here_def)

lemma release_ungoverned [simp]: "release_slot (greeting_reconciler E m) s = s"
  by (simp add: release_slot_def)

lemma step_emit:
  "here E V mg ob st t s \<Longrightarrow> (\<And>s'. here E V mg ob st t s' \<Longrightarrow> Q () s') \<Longrightarrow> wp (emit a b r n) Q T s"
  by (rule walk_emit) (simp add: here_trace)

lemma step_record:
  "here E V mg ob st t s \<Longrightarrow> (\<And>s'. here E V mg ob st t s' \<Longrightarrow> Q () s') \<Longrightarrow>
     wp (record_op (greeting_reconciler E m) op b) Q T s"
  by (simp add: record_op_def wps)

lemma step_edit:
  "here E V mg ob st t s \<Longrightarrow> (\<And>s'. here E V (f mg) ob st t s' \<Longrightarrow> Q () s') \<Longrightarrow> wp (edit_mg f) Q T s"
  by (rule walk_edit_mg) (simp add: here_def)

lemma step_get:
  assumes "honest E V m" "here E V mg ob st t s"
    and "\<And>s'. here E V ob ob st t s' \<Longrightarrow> Q None s'"
  shows "wp (api op (mn_get m)) Q T s"
proof (rule walk_api)
  fix w x e assume g: "mn_get m (rs_mg s) (rs_world s) = (w, x, e)"
  obtain w' where "mn_get m (rs_mg s) (rs_world s) = (w', sv_object V (rs_world s), None)"
    "quiet E V (rs_world s) w'"
    using honestD(1)[OF assms(1)] by blast
  with g assms(2) show "Q e (log_ev (ApiCall op (rs_mg s) x e) (s\<lparr>rs_world := w, rs_mg := x\<rparr>))"
    by (auto intro!: assms(3) simp: here_def quiet_def)
qed

text \<open>A write: \<open>x\<close> is stored, but for the resource version.\<close>

lemma step_accepted:
  assumes "accepted E V (rs_world s) x (f (rs_mg s) (rs_world s))" "here E V mg ob st t s"
    and "\<And>rv ob' s'. (was_deleted x \<and> om_finalizers x = [] \<or> ob' = x\<lparr>om_resource_version := rv\<rparr>) \<Longrightarrow>
      here E V (x\<lparr>om_resource_version := rv\<rparr>) ob' st t s' \<Longrightarrow> Q None s'"
  shows "wp (api op f) Q T s"
proof (rule walk_api)
  fix w y e assume f: "f (rs_mg s) (rs_world s) = (w, y, e)"
  with assms(1) obtain rv where a: "y = x\<lparr>om_resource_version := rv\<rparr>" "e = None" "ge_store E w = ge_store E (rs_world s)"
    "sv_clock V (rs_world s) \<le> sv_clock V w"
    "was_deleted x \<and> om_finalizers x = [] \<or> sv_object V w = x\<lparr>om_resource_version := rv\<rparr>"
    by (auto simp: accepted_def)
  show "Q e (log_ev (ApiCall op (rs_mg s) y e) (s\<lparr>rs_world := w, rs_mg := y\<rparr>))"
    unfolding a(2) by (rule assms(3)[OF a(5)]) (use a assms(2) in \<open>auto simp: here_def\<close>)
qed

lemma honest_update:
  "honest E V m \<Longrightarrow> here E V mg ob st t s \<Longrightarrow>
     accepted E V (rs_world s) (x\<lparr>mg_conditions := mg_conditions ob\<rparr>) (mn_update m x (rs_world s))"
  using honestD(2)[of E V m "rs_world s" x] by (simp add: here_def)

lemma step_update:
  assumes "honest E V m" "here E V mg ob st t s" "\<not> was_deleted mg"
    and "\<And>rv s' x. x = mg\<lparr>mg_conditions := mg_conditions ob, om_resource_version := rv\<rparr> \<Longrightarrow>
      here E V x x st t s' \<Longrightarrow> Q None s'"
  shows "wp (api op (mn_update m)) Q T s"
proof (rule step_accepted[OF _ assms(2)])
  show "accepted E V (rs_world s) (mg\<lparr>mg_conditions := mg_conditions ob\<rparr>) (mn_update m (rs_mg s) (rs_world s))"
    using honest_update[OF assms(1,2)] assms(2) by (simp add: here_def)
qed (use assms(3,4) in \<open>auto simp: was_deleted_def\<close>)

lemma step_status:
  assumes "honest E V m" "here E V mg ob st t s" "\<not> (was_deleted ob \<and> om_finalizers ob = [])"
    and "\<And>rv s' x. x = ob\<lparr>mg_conditions := mg_conditions mg, om_resource_version := rv\<rparr> \<Longrightarrow>
      here E V x x st t s' \<Longrightarrow> Q None s'"
  shows "wp (api op (mn_status_update m)) Q T s"
proof (rule step_accepted[OF _ assms(2)])
  show "accepted E V (rs_world s) (ob\<lparr>mg_conditions := mg_conditions mg\<rparr>) (mn_status_update m (rs_mg s) (rs_world s))"
    using honestD(3)[OF assms(1), of "rs_world s" mg] assms(2) by (simp add: here_def)
qed (use assms(3,4) in \<open>auto simp: was_deleted_def\<close>)

lemma step_clock:
  assumes "honest E V m" "here E V mg ob st t s"
    and "\<And>u s'. printable u \<Longrightarrow> t \<le> inst u \<Longrightarrow> here E V mg ob st (inst u) s' \<Longrightarrow> Q u s'"
  shows "wp (clock (greeting_reconciler E m)) Q T s"
proof (rule walk_clock)
  fix w u assume n: "r_now (greeting_reconciler E m) (rs_world s) = (w, u)"
  obtain w' u' where "mn_now m (rs_world s) = (w', u')" "quiet E V (rs_world s) w'" "printable u'"
    "sv_clock V (rs_world s) \<le> inst u'" "inst u' \<le> sv_clock V w'"
    using honestD(4)[OF assms(1)] by blast
  with n assms(2) show "Q u (s\<lparr>rs_world := w\<rparr>)" by (auto intro!: assms(3) simp: here_def quiet_def)
qed


text \<open>The critical update reads the object anew and lays the annotations over it; the first attempt succeeds.\<close>

lemma attempts_first: "f s = (s', None) \<Longrightarrow> attempts n rt f s = (s', None)"
  by (cases n) simp_all

lemma step_critical:
  assumes "honest E V m" "here E V mg ob st t s" "\<not> was_deleted ob"
    and "\<And>rv s' x. x = (add_annotations ob (om_annotations mg))
        \<lparr>mg_conditions := mg_conditions ob, om_resource_version := rv\<rparr> \<Longrightarrow>
      here E V x x st t s' \<Longrightarrow> Q None s'"
  shows "wp (api op (r_critical (greeting_reconciler E m))) Q T s"
proof (rule walk_api)
  let ?a = "om_annotations mg"
  fix w y e assume r: "r_critical (greeting_reconciler E m) (rs_mg s) (rs_world s) = (w, y, e)"
  have h: "rs_mg s = mg" "sv_object V (rs_world s) = ob" using assms(2) by (simp_all add: here_def)
  obtain n where n: "retries n (mn_retry m)" using honestD(9)[OF assms(1)] by blast
  obtain w1 where g: "mn_get m mg (rs_world s) = (w1, ob, None)" "quiet E V (rs_world s) w1"
    using honestD(1)[OF assms(1)] h by metis
  have "accepted E V w1 ((add_annotations ob ?a)\<lparr>mg_conditions := mg_conditions ob\<rparr>) (mn_update m (add_annotations ob ?a) w1)"
    using honestD(2)[OF assms(1), of w1 "add_annotations ob ?a"] g(2) h by (simp add: quiet_def)
  moreover have "\<not> was_deleted ((add_annotations ob ?a)\<lparr>mg_conditions := c, om_resource_version := rv\<rparr>)" for c rv
    using assms(3) by (simp add: was_deleted_def)
  ultimately obtain w2 rv where u:
    "mn_update m (add_annotations ob ?a) w1
       = (w2, (add_annotations ob ?a)\<lparr>mg_conditions := mg_conditions ob, om_resource_version := rv\<rparr>, None)"
    "sv_object V w2 = (add_annotations ob ?a)\<lparr>mg_conditions := mg_conditions ob, om_resource_version := rv\<rparr>"
    "ge_store E w2 = ge_store E w1" "sv_clock V w1 \<le> sv_clock V w2"
    unfolding accepted_def by (auto simp: was_deleted_def)
  have "critical_attempt (mn_get m) (mn_update m) ?a (mg, rs_world s)
      = (((add_annotations ob ?a)\<lparr>mg_conditions := mg_conditions ob, om_resource_version := rv\<rparr>, w2), None)"
    by (simp add: critical_attempt_def g u(1))
  then have "w = w2" "y = (add_annotations ob ?a)\<lparr>mg_conditions := mg_conditions ob, om_resource_version := rv\<rparr>" "e = None"
    using r n by (simp_all add: h update_critical_annotations_def retries_def attempts_first)
  with u g(2) assms(2) show "Q e (log_ev (ApiCall op (rs_mg s) y e) (s\<lparr>rs_world := w, rs_mg := y\<rparr>))"
    by (auto intro!: assms(4) simp: here_def quiet_def)
qed

section \<open>Conditions\<close>

lemma step_conditions:
  assumes "honest E V m" "here E V mg ob st t s"
    and "\<And>us s'. length us = length cs \<Longrightarrow> here E V mg ob st t s' \<Longrightarrow> Q (map2 (\<lambda>c t. c t) cs us) s'"
  shows "wp (read_conditions (greeting_reconciler E m) cs) Q T s"
  using assms(2,3)
proof (induction cs arbitrary: s Q)
  case Nil
  then show ?case by (simp add: wps)
next
  case (Cons c cs)
  have "wp (read_conditions (greeting_reconciler E m) cs) (\<lambda>cs'. Q (c u # cs')) T s'"
    if "here E V mg ob st t s'" for u s'
  proof (rule Cons.IH[OF that])
    fix us :: "gotime list" and s'' assume "length us = length cs" "here E V mg ob st t s''"
    then show "Q (c u # map2 (\<lambda>c t. c t) cs us) s''" using Cons.prems(2)[of "u # us" s''] by simp
  qed
  moreover have "here E V mg ob st t s'" if "here E V mg ob st (inst u) s'" "t \<le> inst u" for u s'
    using that by (simp add: here_def)
  ultimately show ?case by (auto simp: wps intro!: step_clock[OF assms(1) Cons.prems(1)])
qed

lemma step_set_conds:
  assumes "honest E V m" "here E V mg ob st t s"
    and "\<And>us s'. length us = length cs \<Longrightarrow>
      here E V (put_conditions (map2 (\<lambda>c t. c t) cs us) mg) ob st t s' \<Longrightarrow> Q () s'"
  shows "wp (set_conds (greeting_reconciler E m) cs) Q T s"
  unfolding set_conds_def
  by (intro walk_andthen step_conditions[OF assms(1,2)] walk_modify assms(3)) (simp_all add: here_def)

text \<open>A pass that ends with a status write: the server then has the conditions in hand.\<close>

lemma step_conclude:
  assumes "honest E V m" "here E V mg ob st t s" "\<not> (was_deleted ob \<and> om_finalizers ob = [])"
    and "\<And>us rv x s'. length us = length cs \<Longrightarrow>
      x = ob\<lparr>mg_conditions := mg_conditions (put_conditions (map2 (\<lambda>c t. c t) cs us) mg), om_resource_version := rv\<rparr> \<Longrightarrow>
      here E V x x st t s' \<Longrightarrow> T out s'"
  shows "wp (conclude (greeting_reconciler E m) cs out) Q T s"
proof -
  let ?R = "greeting_reconciler E m"
  have "wp (write_status ?R out) Q T s'"
    if "length us = length cs" "here E V (put_conditions (map2 (\<lambda>c t. c t) cs us) mg) ob st t s'" for us s'
    unfolding write_status_def status_update_def reconciler_fields
  proof (intro walk_andthen step_status[OF assms(1) that(2) assms(3)], goal_cases)
    case (1 rv s2 x)
    from assms(4)[OF that(1) this] show ?case
      by (simp add: record_op_def wps)
  qed
  then show ?thesis unfolding conclude_def by (intro walk_andthen step_set_conds[OF assms(1,2)])
qed


lemma put_fields [simp]:
  "mg_payload (put_conditions cs g) = mg_payload g" "om_name (put_conditions cs g) = om_name g"
  "om_annotations (put_conditions cs g) = om_annotations g" "om_deletion (put_conditions cs g) = om_deletion g"
  "om_finalizers (put_conditions cs g) = om_finalizers g"
  by (simp_all add: put_conditions_def)

section \<open>Stretches of a pass\<close>

lemma walk_gated_free:
  "wp call Q T s \<Longrightarrow> wp (gated (greeting_reconciler E m) k pristine call) Q T s"
  by (simp add: gated_def gate_def wps) (erule wp_mono; simp add: wps)

lemma step_fetch:
  assumes "honest E V m" "here E V mg ob st t s" "\<And>s'. here E V ob ob st t s' \<Longrightarrow> Q () s'"
  shows "wp (fetch (greeting_reconciler E m)) Q T s"
proof -
  have "here E V (r_new (greeting_reconciler E m)) ob st t (s\<lparr>rs_mg := r_new (greeting_reconciler E m)\<rparr>)"
    using assms(2) by (simp add: here_def)
  from step_get[OF assms(1) this] assms(3) show ?thesis
    unfolding fetch_def reconciler_fields
    by (intro walk_andthen walk_modify) (simp add: record_op_def wps)
qed

lemma step_connect:
  assumes "here E V mg ob st t s" "\<And>s'. here E V mg ob st t s' \<Longrightarrow> Q (Some ()) s'"
  shows "wp (connect_client (greeting_reconciler E m) pristine) Q T s"
  unfolding connect_client_def
  by (intro walk_andthen walk_gated_free walk_connect)
    (use assms(1) in \<open>auto simp: record_op_def wps here_def intro!: assms(2)\<close>)

text \<open>What \<open>Observe\<close> sees: the Ready condition it sets and what it answers.\<close>

definition greeting_view ::
  "'w greeting_env \<Rightarrow> greeting \<Rightarrow> external_store \<Rightarrow> (gotime \<Rightarrow> condition) \<times> observation" where
  "greeting_view E g st =
     (let name = get_external_name g in
      if name = [] then (unavailable_because ''the external greeting has not been created'', no_observation)
      else case Mapping.lookup st name of
          None \<Rightarrow> (unavailable_because ''the external greeting does not exist'', no_observation)
        | Some got \<Rightarrow> (cond_available,
            if got \<noteq> mg_payload g then no_observation\<lparr>ob_exists := True,
                ob_diff := ''message: '' @ ge_quote E got @ '' != '' @ ge_quote E (mg_payload g)\<rparr>
            else no_observation\<lparr>ob_exists := True, ob_up_to_date := True\<rparr>))"

lemma client_observes:
  "xc_observe (greeting_client E) g w =
     (case greeting_view E g (ge_store E w) of (c, x) \<Rightarrow>
        case ge_now E w of (w', t) \<Rightarrow> (w', put_conditions [c t] g, Inr x))"
  by (auto simp: greeting_client_def greeting_observe_def greeting_view_def set_at_def Let_def
      split: prod.splits option.splits)

lemma step_observe:
  assumes "honest E V m" "here E V mg ob st t s" "greeting_view E mg st = (c, x)"
    and "\<And>u s'. here E V (put_conditions [c u] mg) ob st t s' \<Longrightarrow> Q x s'"
  shows "wp (observe_external (greeting_reconciler E m) k pristine unresolved (Some ())) Q T s"
  unfolding observe_external_def
proof (intro walk_andthen walk_gated_free walk_observe, goal_cases)
  case (1 w y r)
  moreover obtain w' u where n: "mn_now m (rs_world s) = (w', u)" "quiet E V (rs_world s) w'"
    using honestD(4)[OF assms(1)] by blast
  ultimately have "w = w'" "y = put_conditions [c u] mg" "r = Inr x"
    using assms(2,3) honestD(5)[OF assms(1)] by (simp_all add: client_observes here_def)
  with n(2) assms(2,4) show ?case
    by (simp add: record_op_def wps here_def quiet_def)
qed

end
