(* ===== verification/Greeting_Runs.thy ===== *)
theory Greeting_Runs
  imports Greeting_Pass
begin

text \<open>
  The passes of the example controller, from the object on the server and the store: a pass over a new
  Greeting, over one that exists, and over one that is deleted.
\<close>

section \<open>A pass up to its decision\<close>

lemma view_ready: "greeting_view E g st = (c, x) \<Longrightarrow> c_type (c u) = type_ready \<and> c_reason (c u) \<noteq> reason_not_observed"
  by (auto simp: greeting_view_def unavailable_because_def with_condition_message_def condition_ctor_defs
      condition_consts Let_def split: if_splits option.splits)

lemma switches_put [simp]:
  "is_paused (put_conditions cs g) = is_paused g" "was_deleted (put_conditions cs g) = was_deleted g"
  "should_create (put_conditions cs g) = should_create g" "should_update (put_conditions cs g) = should_update g"
  "should_delete (put_conditions cs g) = should_delete g"
  "should_only_observe (put_conditions cs g) = should_only_observe g"
  "get_external_name (put_conditions cs g) = get_external_name g"
  "get_create_succeeded (put_conditions cs g) = get_create_succeeded g"
  "finalizer_exists (put_conditions cs g) f = finalizer_exists g f"
  by (simp_all add: is_paused_def was_deleted_def should_create_def should_update_def should_delete_def
      should_only_observe_def management_policy_def deletion_policy_def get_external_name_def
      get_create_succeeded_def finalizer_exists_def)

lemma walk_with_client:
  assumes "honest E V m" "here E V mg ob st t s" "greeting_view E mg st = (c, x)" "\<not> should_only_observe mg"
    and "\<And>k u s'. here E V (put_conditions [c u] mg) ob st t s' \<Longrightarrow>
      wp (andthen (check_creation_grace R x) (\<lambda>_.
          andthen (check_deleted R k pristine x (Some ())) (\<lambda>_.
          andthen (ensure_finalizer R) (\<lambda>_.
          andthen (check_create R k pristine x (Some ())) (\<lambda>_.
          andthen (check_late_initialized R x) (\<lambda>_.
          andthen (check_settled R x) (\<lambda>_. update_external R k pristine (Some ()))))))))
        Q T s'"
    and "R = greeting_reconciler E m"
  shows "wp (with_client R pristine False (Some ())) Q T s"
  unfolding with_client_def Let_def assms(6)
proof (intro walk_andthen step_observe[OF assms(1-3)], goal_cases)
  case (1 u s')
  note h = this
  have "reason_of (rs_mg s') type_ready \<noteq> reason_not_observed"
    using view_ready[OF assms(3), of u] h by (simp add: here_def)
  then have r: "wp check_ready_contract Q' T' s'" if "Q' () s'" for Q' T'
    using that by (simp add: check_ready_contract_def ready_not_set_after_observe_def reason_of_def wps)
  have "\<not> should_only_observe (rs_mg s')" using h assms(4) by (simp add: here_def)
  then have o: "wp (check_observe_only (greeting_reconciler E m) x) Q' T' s'" if "Q' () s'" for Q' T'
    using that by (simp add: check_observe_only_def wps)
  have n: "wp (resolve_handshake (greeting_reconciler E m) False x) Q' T' s'" if "Q' () s'" for Q' T'
    using that by (simp add: resolve_handshake_def wps)
  show ?case
    by (rule r, rule walk_andthen, rule n, rule walk_andthen, rule o) (rule assms(5)[OF h, unfolded assms(6)])
qed

text \<open>The states a pass may end in; what is only logged after does not matter.\<close>

definition ends_here ::
  "'w greeting_env \<Rightarrow> 'w server \<Rightarrow> (outcome \<Rightarrow> greeting \<Rightarrow> greeting \<Rightarrow> external_store \<Rightarrow> bool)
     \<Rightarrow> outcome \<Rightarrow> ('w, string) rstate \<Rightarrow> bool" where
  "ends_here E V P out s \<longleftrightarrow> P out (rs_mg s) (sv_object V (rs_world s)) (ge_store E (rs_world s))"

lemma ends_hereI: "here E V mg ob st t s \<Longrightarrow> P out mg ob st \<Longrightarrow> ends_here E V P out s"
  by (simp add: ends_here_def here_def)

lemma walk_pass:
  assumes "honest E V m" "here E V mg ob st t s" "\<not> is_paused ob" "\<not> (was_deleted ob \<and> \<not> should_delete ob)"
    and "\<not> external_create_incomplete ob"
    and "\<And>pristine s'. here E V ob ob st t s' \<Longrightarrow>
      wp (with_client (greeting_reconciler E m) pristine False (Some ())) (\<lambda>_ _. False) (ends_here E V P) s'"
  shows "wp (pass (greeting_reconciler E m)) (\<lambda>_ _. False) (ends_here E V P) s"
proof -
  let ?R = "greeting_reconciler E m"
  have d: "ends_here E V P r (disconnect ?R s') = ends_here E V P r s'" for r s'
    by (simp add: ends_here_def disconnect_def nop_disconnect_def)
  have client: "wp (finally_do (andthen (connect_client ?R pristine) (\<lambda>c.
      finally_do (with_client ?R pristine False c) (\<lambda>s. disconnect ?R (release_slot ?R s)))) (release_slot ?R))
      (\<lambda>_ _. False) (ends_here E V P) s'"
    if h: "here E V ob ob st t s'" for pristine s'
  proof -
    have "wp (finally_do (with_client ?R pristine False (Some ())) (\<lambda>s. disconnect ?R (release_slot ?R s)))
        (\<lambda>_ _. False) (ends_here E V P) s2" if "here E V ob ob st t s2" for s2
      using assms(6)[OF that, of pristine] by (simp add: wps d)
    then show ?thesis by (simp add: wp_finally wp_andthen step_connect[OF h])
  qed
  show ?thesis unfolding pass_def
  proof (intro walk_andthen step_fetch[OF assms(1,2)], goal_cases)
    case (1 s')
    then have h: "here E V ob ob st t s'" and mg: "rs_mg s' = ob" by (simp_all add: here_def)
    show ?case
      using assms(3-5) client[OF h]
      by (cases "was_deleted ob") (simp_all add: check_paused_def check_orphaned_def wp_andthen wp_asks wp_if wp_ret mg Let_def)
  qed
qed

lemma run_ends:
  assumes "wp (pass (greeting_reconciler E m)) (\<lambda>_ _. False) (ends_here E V P)
      (begin_pass (greeting_reconciler E m) w seen)"
    and "reconcile (greeting_reconciler E m) (begin_pass (greeting_reconciler E m) w seen) = (s, out)"
  shows "P out (rs_mg s) (sv_object V (rs_world s)) (ge_store E (rs_world s))"
  using assms by (auto simp: reconcile_def wp_def ends_here_def split: prod.splits sum.splits)


section \<open>An existing greeting\<close>

text \<open>The condition of a type reads as the given one, but for its transition time.\<close>

definition shows_condition :: "greeting \<Rightarrow> (gotime \<Rightarrow> condition) \<Rightarrow> bool" where
  "shows_condition g c \<longleftrightarrow>
     condition_equal (get_condition (mg_conditions g) (c_type (c zero_time))) (c zero_time)"

lemma get_put_one:
  "get_condition (mg_conditions (put_conditions [c] g)) ct =
     (if ct = c_type c \<and> \<not> ((\<exists>e\<in>set (mg_conditions g). c_type e = ct) \<and> condition_equal (get_condition (mg_conditions g) ct) c)
      then c else get_condition (mg_conditions g) ct)"
  by (simp add: put_conditions_def set_conditions_def get_set_condition)

lemma put_conditions_two: "put_conditions [c, d] g = put_conditions [d] (put_conditions [c] g)"
  by (simp add: put_conditions_def set_conditions_def)

lemma shows_put [simp]:
  "shows_condition (put_conditions [mk_condition ct st r msg u] g) (mk_condition ct st r msg)"
  "ct' \<noteq> ct \<Longrightarrow> shows_condition (put_conditions [mk_condition ct' st' r' msg' u] g) (mk_condition ct st r msg)
     = shows_condition g (mk_condition ct st r msg)"
  by (auto simp: shows_condition_def get_put_one condition_equal_def mk_condition_def)

lemma shows_fields [simp]:
  "shows_condition (g\<lparr>om_resource_version := rv\<rparr>) c = shows_condition g c"
  "shows_condition (g\<lparr>mg_conditions := mg_conditions h\<rparr>) c = shows_condition h c"
  "shows_condition (g\<lparr>mg_conditions := mg_conditions h, om_resource_version := rv\<rparr>) c = shows_condition h c"
  by (simp_all add: shows_condition_def)

text \<open>How a pass that finds the greeting ends.\<close>

definition settled ::
  "greeting \<Rightarrow> external_store \<Rightarrow> outcome \<Rightarrow> greeting \<Rightarrow> greeting \<Rightarrow> external_store \<Rightarrow> bool" where
  "settled ob st out mg' ob' st' \<longleftrightarrow>
     out = (requeue_after (60 * second), None)
     \<and> st' = Mapping.update (get_external_name ob) (mg_payload ob) st
     \<and> (\<exists>cs rv. ob' = ob\<lparr>mg_conditions := cs, om_resource_version := rv\<rparr>)
     \<and> shows_condition ob' cond_available \<and> shows_condition ob' cond_reconcile_success"

lemma update_same: "Mapping.lookup m k = Some v \<Longrightarrow> Mapping.update k v m = m"
  by (rule mapping_eqI) (auto simp: lookup_update')

lemma step_poll:
  assumes "here E V mg ob st t s" "\<And>s'. here E V mg ob st t s' \<Longrightarrow> Q (60 * second) s'"
  shows "wp (poll_interval (greeting_reconciler E m)) Q T s"
  using assms(2)[OF assms(1)] by (simp add: wp_def poll_interval_def default_poll_hook_def)

lemma step_finalizer_there:
  assumes "here E V mg ob st t s" "finalizer_exists mg finalizer_name" "\<And>s'. here E V mg ob st t s' \<Longrightarrow> Q () s'"
  shows "wp (ensure_finalizer (greeting_reconciler E m)) Q T s"
  unfolding ensure_finalizer_def
  by (intro walk_andthen walk_api)
    (use assms(1,2) in \<open>auto simp: api_add_finalizer_def record_op_def wps here_def intro!: assms(3)\<close>)

lemma settled_conclude:
  assumes "honest E V m" "here E V (put_conditions [cond_available u] ob) ob st' t s" "\<not> was_deleted ob"
    and "st' = Mapping.update (get_external_name ob) (mg_payload ob) st"
  shows "wp (conclude (greeting_reconciler E m) [cond_reconcile_success] (requeue_after (60 * second), None))
    Q (ends_here E V (settled ob st)) s"
proof (rule step_conclude[OF assms(1,2)], goal_cases)
  case (2 us rv x s')
  then obtain v where "us = [v]" by (auto simp: length_Suc_conv)
  with 2 assms(4) show ?case
    by (intro ends_hereI[OF 2(3)])
      (auto simp: settled_def cond_available_def cond_reconcile_success_def)
qed (use assms(3) in simp)

lemma walk_settles:
  assumes "honest E V m" "here E V (put_conditions [cond_available u] ob) ob st t s"
    and "greeting_view E ob st = (cond_available, x)" "\<not> was_deleted ob" "should_update ob"
    and "finalizer_exists ob finalizer_name" "R = greeting_reconciler E m"
  shows "wp (andthen (check_creation_grace R x) (\<lambda>_.
          andthen (check_deleted R k pristine x (Some ())) (\<lambda>_.
          andthen (ensure_finalizer R) (\<lambda>_.
          andthen (check_create R k pristine x (Some ())) (\<lambda>_.
          andthen (check_late_initialized R x) (\<lambda>_.
          andthen (check_settled R x) (\<lambda>_. update_external R k pristine (Some ()))))))))
        Q (ends_here E V (settled ob st)) s"
proof -
  obtain got where x: "Mapping.lookup st (get_external_name ob) = Some got" "get_external_name ob \<noteq> []"
    "ob_exists x" "\<not> ob_late_initialized x" "ob_up_to_date x \<longleftrightarrow> got = mg_payload ob"
    using assms(3) by (auto simp: greeting_view_def Let_def no_observation_def unavailable_because_def
        with_condition_message_def condition_ctor_defs condition_consts fun_eq_iff split: if_splits option.splits)
  have off: "\<not> was_deleted (rs_mg s)" "should_update (rs_mg s)" "finalizer_exists (rs_mg s) finalizer_name"
    and mg: "rs_mg s = put_conditions [cond_available u] ob"
    using assms(2,4-6) by (simp_all add: here_def)
  have update: "wp (update_external R k pristine (Some ())) Q (ends_here E V (settled ob st)) s'"
    if h: "here E V (put_conditions [cond_available u] ob) ob st t s'" for s'
    unfolding update_external_def assms(7)
  proof (intro walk_andthen walk_gated_free walk_ext, goal_cases)
    case (1 w mg e)
    let ?st = "Mapping.update (get_external_name ob) (mg_payload ob) st"
    have r: "mg = put_conditions [cond_available u] ob" "e = None" "w = ge_put E ?st (rs_world s')"
      using 1 h by (auto simp: greeting_update_def here_def)
    have "here E V (put_conditions [cond_available u] ob) ob ?st t
        (log_ev (ExtCall XUpdate (rs_mg s') mg e) (s'\<lparr>rs_world := w, rs_mg := mg\<rparr>))"
      using h honestD(6-8)[OF assms(1)] by (simp add: r here_def)
    then show ?case unfolding r(2)
      by (intro step_record, assumption)
        (simp, intro walk_andthen, erule step_poll, intro walk_andthen, erule step_emit,
          rule settled_conclude[OF assms(1) _ assms(4) HOL.refl])
  qed
  have settle: "wp (settle R) Q' (ends_here E V (settled ob st)) s'"
    if "here E V (put_conditions [cond_available u] ob) ob st t s'" "ob_up_to_date x" for s' and Q' :: "unit \<Rightarrow> _"
    unfolding settle_def assms(7)
    by (intro walk_andthen step_poll[OF that(1)] settled_conclude[OF assms(1) _ assms(4)])
      (use x(1,5) that(2) in \<open>simp_all add: update_same\<close>)
  have finalizer: "wp (ensure_finalizer R) Q' T s" if "\<And>s'. here E V (put_conditions [cond_available u] ob) ob st t s' \<Longrightarrow> Q' () s'" for Q' T
    unfolding assms(7) by (rule step_finalizer_there[OF assms(2)]) (use assms(6) that in simp_all)
  have rest: "wp (andthen (check_create R k pristine x (Some ())) (\<lambda>_. andthen (check_late_initialized R x) (\<lambda>_.
      andthen (check_settled R x) (\<lambda>_. update_external R k pristine (Some ()))))) Q (ends_here E V (settled ob st)) s'"
    if h: "here E V (put_conditions [cond_available u] ob) ob st t s'" for s'
  proof -
    have "should_update (rs_mg s')" using h assms(5) by (simp add: here_def)
    then have "wp (check_settled R x) (\<lambda>_. wp (update_external R k pristine (Some ())) Q (ends_here E V (settled ob st)))
        (ends_here E V (settled ob st)) s'"
      using settle[OF h] update[OF h] by (simp add: check_settled_def wps)
    then show ?thesis by (simp add: check_create_def check_late_initialized_def wps x(3,4))
  qed
  show ?thesis
    by (simp add: check_creation_grace_def check_deleted_def wps x(3) off) (rule finalizer, rule rest)
qed


section \<open>A new greeting\<close>

text \<open>Objects that differ in finalizers, conditions and the resource version only.\<close>

definition alike :: "greeting \<Rightarrow> greeting \<Rightarrow> bool" where
  "alike g x \<longleftrightarrow> om_name x = om_name g \<and> mg_payload x = mg_payload g \<and> om_deletion x = om_deletion g
     \<and> om_annotations x = om_annotations g"

lemma step_ensure_finalizer:
  assumes "honest E V m" "here E V mg ob st t s" "\<not> was_deleted mg" "alike mg ob" "om_finalizers ob = om_finalizers mg"
    and "\<And>mg' ob' s'. here E V mg' ob' st t s' \<Longrightarrow> alike mg mg' \<Longrightarrow> alike mg ob' \<Longrightarrow>
      finalizer_exists mg' finalizer_name \<Longrightarrow> Q () s'"
  shows "wp (ensure_finalizer (greeting_reconciler E m)) Q T s"
proof (cases "finalizer_exists mg finalizer_name")
  case True
  show ?thesis
    by (rule step_finalizer_there[OF assms(2) True], rule assms(6), assumption)
      (use assms(4,5) True in \<open>simp_all add: alike_def finalizer_exists_def\<close>)
next
  case False
  let ?x = "add_finalizer mg finalizer_name"
  have f: "finalizer_exists ?x finalizer_name" "om_finalizers ?x \<noteq> []" and a: "alike mg ?x"
    using False by (simp_all add: add_finalizer_def finalizer_exists_def alike_def)
  have acc: "accepted E V (rs_world s) (?x\<lparr>mg_conditions := mg_conditions ob\<rparr>) (mn_update m ?x (rs_world s))"
    by (rule honest_update[OF assms(1,2)])
  have "accepted E V (rs_world s) (?x\<lparr>mg_conditions := mg_conditions ob\<rparr>)
      (api_add_finalizer (mn_update m) finalizer_name (rs_mg s) (rs_world s))"
    using acc False assms(2)
    by (auto simp: api_add_finalizer_def here_def accepted_def wrap_def with_message_def)
  then have add: "wp (api AddFinalizer (api_add_finalizer (mn_update m) finalizer_name)) Q' T s"
    if "\<And>mg' s'. here E V mg' mg' st t s' \<Longrightarrow> alike mg mg' \<Longrightarrow> finalizer_exists mg' finalizer_name \<Longrightarrow> Q' None s'" for Q'
  proof (rule step_accepted[where f = "api_add_finalizer (mn_update m) finalizer_name", OF _ assms(2)], goal_cases)
    case (1 rv ob' s')
    have "ob' = ?x\<lparr>mg_conditions := mg_conditions ob, om_resource_version := rv\<rparr>" using 1(1) f(2) by simp
    with 1(2) f a show ?case by (intro that[of ob' s']) (simp_all add: alike_def finalizer_exists_def)
  qed
  show ?thesis unfolding ensure_finalizer_def reconciler_fields
  proof (intro walk_andthen add, goal_cases)
    case (1 mg' s')
    with assms(6) show ?case by (simp add: record_op_def wps)
  qed
qed

text \<open>Laying the annotations of an object that has all the keys over another leaves its own.\<close>

definition covers :: "greeting \<Rightarrow> greeting \<Rightarrow> bool" where
  "covers a b \<longleftrightarrow> (\<forall>k. Mapping.lookup (map_norm (om_annotations b)) k \<noteq> None \<longrightarrow>
     Mapping.lookup (map_norm (om_annotations a)) k \<noteq> None)"

lemma covers_add: "covers a b \<Longrightarrow> covers (add_annotations a (singleton_map k v)) b"
  by (auto simp: covers_def add_annotations_def singleton_map_def map_norm_def lookup_map_merge lookup_update'
      lookup_empty split: option.splits)

lemma map_get_norm: "map_get m k = (case Mapping.lookup (map_norm m) k of None \<Rightarrow> [] | Some v \<Rightarrow> v)"
  by (simp add: map_get_def map_norm_def lookup_empty split: option.split)

lemma covered_annotation:
  assumes "covers a b"
  shows "annotation (add_annotations b (om_annotations a)) k = annotation a k"
  using assms unfolding map_get_add_annotations map_get_norm[of "om_annotations a"] map_get_norm[of "om_annotations b"]
  by (auto simp: covers_def split: option.split)

lemma incomplete_cong:
  "(\<And>k. annotation a k = annotation b k) \<Longrightarrow> external_create_incomplete a = external_create_incomplete b"
  by (simp add: external_create_incomplete_def marker_defs)

definition created ::
  "greeting \<Rightarrow> external_store \<Rightarrow> outcome \<Rightarrow> greeting \<Rightarrow> greeting \<Rightarrow> external_store \<Rightarrow> bool" where
  "created g st out mg' ob' st' \<longleftrightarrow>
     out = (rate_limited_requeue, None) \<and> st' = Mapping.update (om_name g) (mg_payload g) st
     \<and> om_name ob' = om_name g \<and> mg_payload ob' = mg_payload g \<and> om_deletion ob' = om_deletion g
     \<and> finalizer_exists ob' finalizer_name \<and> \<not> external_create_incomplete ob'
     \<and> get_external_name ob' = om_name g
     \<and> (\<forall>k. k \<notin> {key_external_name, key_create_pending, key_create_succeeded} \<longrightarrow> annotation ob' k = annotation g k)
     \<and> shows_condition ob' cond_creating \<and> shows_condition ob' cond_reconcile_success"


lemma set_switches [simp]:
  "was_deleted (add_annotations g a) = was_deleted g" "om_name (add_annotations g a) = om_name g"
  by (simp_all add: was_deleted_def add_annotations_def split: option.split)

lemma payload_add [simp]: "mg_payload (add_annotations g a) = mg_payload (g :: greeting)"
  by (simp add: add_annotations_def split: option.split)

lemma created_object:
  fixes g x y :: greeting
  assumes "om_annotations x = om_annotations (set_create_pending g u)"
    "om_annotations y = om_annotations (add_annotations x (om_annotations
       (set_create_succeeded (set_external_name x n) v)))"
    and "printable u" "printable v" "inst u \<le> inst v"
  shows "annotation y k = annotation (set_create_succeeded (set_external_name (set_create_pending g u) n) v) k"
    "\<not> external_create_incomplete y"
proof -
  let ?z = "set_create_succeeded (set_external_name x n) v"
  have "covers ?z x"
    unfolding set_create_succeeded_def set_external_name_def
    by (intro covers_add) (simp add: covers_def)
  from covered_annotation[OF this] assms(2) have y: "annotation y k = annotation ?z k" for k by simp
  then show z: "annotation y k = annotation (set_create_succeeded (set_external_name (set_create_pending g u) n) v) k" for k
    using assms(1) by (simp add: set_create_succeeded_def set_external_name_def)
  have "annotation y k = annotation (set_create_succeeded (set_create_pending g u) v) k" if "k \<noteq> key_external_name" for k
    using that by (simp add: z set_create_succeeded_def set_external_name_def)
  then have "external_create_incomplete y = external_create_incomplete (set_create_succeeded (set_create_pending g u) v)"
    by (simp add: external_create_incomplete_def marker_defs key_defs)
  with markers.close_succeeded[OF assms(3-5), of g] show "\<not> external_create_incomplete y" by simp
qed

lemma step_mark_pending:
  assumes "honest E V m" "here E V mg ob st t s" "\<not> was_deleted mg"
    and "\<And>u x s'. printable u \<Longrightarrow> om_annotations x = om_annotations (set_create_pending mg u) \<Longrightarrow>
      om_name x = om_name mg \<Longrightarrow> mg_payload x = mg_payload mg \<Longrightarrow> om_deletion x = om_deletion mg \<Longrightarrow>
      om_finalizers x = om_finalizers mg \<Longrightarrow> here E V x x st (inst u) s' \<Longrightarrow> Q () s'"
  shows "wp (mark_pending (greeting_reconciler E m)) Q T s"
  unfolding mark_pending_def reconciler_fields
proof (intro walk_andthen step_clock[OF assms(1,2)], goal_cases)
  case (1 u s')
  show ?case
  proof (intro step_edit[OF 1(3)] walk_andthen step_update[OF assms(1)], assumption, goal_cases)
    case 1
    then show ?case using assms(3) by (simp add: set_create_pending_def)
  next
    case (2 s2 rv s3 x)
    have "Q () s3"
      by (rule assms(4)[OF 1(1) _ _ _ _ _ 2(3)]) (simp_all add: 2(2) set_create_pending_def)
    then show ?case by (simp add: wps)
  qed
qed

lemma step_create_call:
  assumes "honest E V m" "here E V x x st t s"
    and "\<And>s'. here E V (set_external_name x (om_name x)) x (Mapping.update (om_name x) (mg_payload x) st) t s' \<Longrightarrow> Q None s'"
  shows "wp (ext XCreate (r_create (greeting_reconciler E m) (Some ()))) Q T s"
proof (rule walk_ext, goal_cases)
  case (1 w y e)
  then have r: "y = set_external_name x (om_name x)" "e = None"
    "w = ge_put E (Mapping.update (om_name x) (mg_payload x) st) (rs_world s)"
    using assms(2) by (auto simp: greeting_create_def here_def Let_def set_external_name_def)
  then show ?case using assms(2) honestD(6-8)[OF assms(1)]
    by (auto simp: here_def set_external_name_def intro!: assms(3))
qed

lemma walk_creates:
  assumes "honest E V m" "here E V mg ob st t s" "\<not> was_deleted mg" "finalizer_exists mg finalizer_name"
  shows "wp (create_external (greeting_reconciler E m) k pristine (Some ())) Q (ends_here E V (created mg st)) s"
proof -
  let ?R = "greeting_reconciler E m" and ?T = "ends_here E V (created mg st)"
  let ?st = "Mapping.update (om_name mg) (mg_payload mg) st"
  define Y where "Y = (\<lambda>u v (x :: greeting) (y :: greeting). om_annotations x = om_annotations (set_create_pending mg u)
     \<and> om_annotations y = om_annotations (add_annotations x (om_annotations
         (set_create_succeeded (set_external_name x (om_name mg)) v)))
     \<and> printable u \<and> printable v \<and> inst u \<le> inst v \<and> om_name y = om_name mg \<and> mg_payload y = mg_payload mg
     \<and> om_deletion y = om_deletion mg \<and> finalizer_exists y finalizer_name)"
  have concl: "wp (conclude ?R [cond_creating, cond_reconcile_success] (rate_limited_requeue, None)) Q' ?T s'"
    if "Y u v x y" "here E V y y ?st t' s'" for u v x y t' s' and Q' :: "'c \<Rightarrow> _"
  proof (rule step_conclude[OF assms(1) that(2)], goal_cases)
    case 1
    then show ?case using assms(3) that(1) by (simp add: Y_def was_deleted_def)
  next
    case (2 us rv z s')
    obtain a b where us: "us = [a, b]" using 2(1) by (auto simp: length_Suc_conv)
    have y: "om_annotations x = om_annotations (set_create_pending mg u)"
      "om_annotations y = om_annotations (add_annotations x (om_annotations (set_create_succeeded (set_external_name x (om_name mg)) v)))"
      "printable u" "printable v" "inst u \<le> inst v" using that(1) by (simp_all add: Y_def)
    note o = created_object[OF y]
    have zy: "om_annotations z = om_annotations y" by (simp add: 2(2))
    then have n: "\<not> external_create_incomplete z" using o(2) incomplete_cong[of z y] by simp
    have zk: "annotation z k = (if k = key_create_succeeded then format_rfc3339 v
        else if k = key_external_name then om_name mg
        else if k = key_create_pending then format_rfc3339 u else annotation mg k)" for k
      by (simp add: zy o(1) set_create_succeeded_def set_external_name_def set_create_pending_def)
    have f: "finalizer_exists z finalizer_name" "om_name z = om_name mg" "mg_payload z = mg_payload mg" "om_deletion z = om_deletion mg"
      "shows_condition z cond_creating" "shows_condition z cond_reconcile_success"
      using that(1) by (simp_all add: 2(2) Y_def us finalizer_exists_def put_conditions_two cond_creating_def
          cond_reconcile_success_def)
    have "key_external_name \<noteq> key_create_succeeded" by (simp add: key_defs)
    then have "created mg st (rate_limited_requeue, None) z z ?st"
      unfolding created_def get_external_name_def zk by (simp add: n f)
    then show ?case by (rule ends_hereI[OF 2(3)])
  qed
  have succeeded: "wp (create_succeeded ?R) Q ?T s'"
    if x: "printable u" "om_annotations x = om_annotations (set_create_pending mg u)"
        "om_name x = om_name mg" "mg_payload x = mg_payload mg" "om_deletion x = om_deletion mg" "om_finalizers x = om_finalizers mg"
      and h: "here E V (set_external_name x (om_name x)) x ?st (inst u) s'" for u x s'
    unfolding create_succeeded_def
  proof (intro walk_andthen step_clock[OF assms(1) h], goal_cases)
    case (1 v s2)
    have d: "\<not> was_deleted x" using assms(3) x(5) by (simp add: was_deleted_def)
    show ?case
    proof (intro step_edit[OF 1(3)] walk_andthen step_critical[OF assms(1) _ d], assumption, goal_cases)
      case (1 s3 rv s4 y)
      have "Y u v x y"
        unfolding Y_def 1(2) using x \<open>printable v\<close> \<open>inst u \<le> inst v\<close> assms(4)
        by (simp add: finalizer_exists_def)
      from concl[OF this 1(3)] show ?case
        by (simp add: wps) (intro walk_emit, rule concl[OF \<open>Y u v x y\<close>], rule here_trace, rule 1(3))
    qed
  qed
  have gate: "wp (andthen (gate ?R k) f) Q ?T s" if "wp (f None) Q ?T s" for f
    using that by (simp add: gate_def wps)
  show ?thesis
    unfolding create_external_def
  proof (rule gate, simp only: option.case, intro walk_andthen step_mark_pending[OF assms(1-3)], goal_cases)
    case x: (1 u x s')
    show ?case
    proof (rule step_create_call[OF assms(1) x(7)], goal_cases)
      case (1 s2)
      then have "wp (create_succeeded ?R) Q ?T s2"
        by (intro succeeded[OF x(1-6)]) (simp add: x(3,4))
      then show ?case by (simp add: wps record_op_def)
    qed
  qed
qed


lemma alike_switches:
  assumes "alike g x"
  shows "was_deleted x = was_deleted g" "should_create x = should_create g" "created x st = created g st"
  using assms by (simp_all add: alike_def was_deleted_def should_create_def management_policy_def created_def fun_eq_iff)

lemma walk_absent:
  assumes "honest E V m" "here E V (put_conditions [c u] ob) ob st t s" "\<not> was_deleted ob" "should_create ob"
    and "is_zero (get_create_succeeded ob)" "\<not> ob_exists x" "R = greeting_reconciler E m"
  shows "wp (andthen (check_creation_grace R x) (\<lambda>_.
          andthen (check_deleted R k pristine x (Some ())) (\<lambda>_.
          andthen (ensure_finalizer R) (\<lambda>_.
          andthen (check_create R k pristine x (Some ())) (\<lambda>_.
          andthen (check_late_initialized R x) (\<lambda>_.
          andthen (check_settled R x) (\<lambda>_. update_external R k pristine (Some ()))))))))
        Q (ends_here E V (created ob st)) s"
proof -
  let ?mg = "put_conditions [c u] ob"
  have m: "\<not> was_deleted ?mg" "is_zero (get_create_succeeded ?mg)" using assms(3,5) by simp_all
  have grace: "wp (check_creation_grace R x) Q' T s" if "\<And>s'. here E V ?mg ob st t s' \<Longrightarrow> Q' () s'" for Q' T
    unfolding check_creation_grace_def assms(7)
    by (simp add: assms(6) wp_andthen wp_asks)
      (rule step_clock[OF assms(1,2)], use m(2) assms(2) that in \<open>auto simp: wps create_succeeded_during_def here_def\<close>)
  have deleted: "wp (check_deleted R k pristine x (Some ())) Q' T s'" if "here E V ?mg ob st t s'" "Q' () s'" for Q' T s'
    using that m(1) by (simp add: check_deleted_def here_def wps)
  show ?thesis
  proof (intro walk_andthen grace deleted, assumption,
      unfold assms(7), intro walk_andthen step_ensure_finalizer[OF assms(1) _ m(1)], assumption, goal_cases)
    case 1 show ?case by (simp add: alike_def)
  next
    case 2 show ?case by simp
  next
    case (3 s1 mg' ob' s2)
    note a = alike_switches[OF 3(3)]
    have "wp (create_external (greeting_reconciler E m) k pristine (Some ())) Q' (ends_here E V (created mg' st)) s2"
      for Q' :: "unit \<Rightarrow> _"
      by (rule walk_creates[OF assms(1) 3(2) _ 3(5)]) (use a(1) assms(3) in simp)
    moreover have "created mg' st = created ob st" "should_create (rs_mg s2)"
      using 3(2) a(2,3) assms(4) by (simp_all add: here_def created_def fun_eq_iff)
    ultimately show ?case using assms(6) by (simp add: check_create_def wps)
  qed
qed

text \<open>A greeting nobody has created yet, in the hands of the controller.\<close>

definition fresh :: "greeting \<Rightarrow> external_store \<Rightarrow> bool" where
  "fresh g st \<longleftrightarrow> \<not> is_paused g \<and> \<not> was_deleted g \<and> should_create g \<and> \<not> external_create_incomplete g
     \<and> is_zero (get_create_succeeded g)
     \<and> (get_external_name g = [] \<or> Mapping.lookup st (get_external_name g) = None)"

lemma policies_exclude: "should_create g \<Longrightarrow> \<not> should_only_observe g" "should_create g \<Longrightarrow> should_update g"
  by (auto simp: should_create_def should_only_observe_def should_update_def policy_defs Let_def)

lemma begin_here:
  "here E V (r_new R) (sv_object V w) (ge_store E w) (sv_clock V w) (begin_pass R w seen)"
  by (simp add: here_def begin_pass_def)

lemma run_creates:
  assumes "honest E V m" "fresh (sv_object V w) (ge_store E w)"
    and "reconcile (greeting_reconciler E m) (begin_pass (greeting_reconciler E m) w seen) = (s, out)"
  shows "created (sv_object V w) (ge_store E w) out (rs_mg s) (sv_object V (rs_world s)) (ge_store E (rs_world s))"
proof (rule run_ends[OF walk_pass[OF assms(1) begin_here] assms(3)])
  let ?g = "sv_object V w"
  have f: "\<not> is_paused ?g" "\<not> was_deleted ?g" "should_create ?g" "\<not> external_create_incomplete ?g"
    "is_zero (get_create_succeeded ?g)" using assms(2) by (simp_all add: fresh_def)
  obtain c x where v1: "greeting_view E ?g (ge_store E w) = (c, x)" by (metis surj_pair)
  moreover have "\<not> ob_exists x"
    using assms(2) v1 by (cases "get_external_name ?g = []") (auto simp: fresh_def greeting_view_def no_observation_def Let_def)
  ultimately have v: "greeting_view E ?g (ge_store E w) = (c, x)" "\<not> ob_exists x" by simp_all
  show "\<not> is_paused ?g" "\<not> (was_deleted ?g \<and> \<not> should_delete ?g)" "\<not> external_create_incomplete ?g"
    using f by simp_all
  fix pristine s' assume h: "here E V ?g ?g (ge_store E w) (sv_clock V w) s'"
  show "wp (with_client (greeting_reconciler E m) pristine False (Some ())) (\<lambda>_ _. False)
      (ends_here E V (created ?g (ge_store E w))) s'"
    by (rule walk_with_client[OF assms(1) h v(1) policies_exclude(1)[OF f(3)] _ HOL.refl],
        rule walk_absent[OF assms(1) _ f(2,3,5) v(2) HOL.refl])
qed

lemma run_settles:
  assumes "honest E V m"
    and "reconcile (greeting_reconciler E m) (begin_pass (greeting_reconciler E m) w seen) = (s, out)"
    and "g = sv_object V w" "\<not> is_paused g" "\<not> was_deleted g" "should_create g" "\<not> external_create_incomplete g"
      "finalizer_exists g finalizer_name" "get_external_name g \<noteq> []"
      "Mapping.lookup (ge_store E w) (get_external_name g) \<noteq> None"
  shows "settled g (ge_store E w) out (rs_mg s) (sv_object V (rs_world s)) (ge_store E (rs_world s))"
proof (rule run_ends[OF walk_pass[OF assms(1) begin_here] assms(2)])
  obtain x where v: "greeting_view E g (ge_store E w) = (cond_available, x)"
    using assms(9,10) by (auto simp: greeting_view_def Let_def split: option.splits)
  show "\<not> is_paused (sv_object V w)" "\<not> (was_deleted (sv_object V w) \<and> \<not> should_delete (sv_object V w))"
    "\<not> external_create_incomplete (sv_object V w)" using assms(3-7) by simp_all
  fix pristine s' assume h: "here E V (sv_object V w) (sv_object V w) (ge_store E w) (sv_clock V w) s'"
  show "wp (with_client (greeting_reconciler E m) pristine False (Some ())) (\<lambda>_ _. False)
      (ends_here E V (settled g (ge_store E w))) s'"
    by (rule walk_with_client[OF assms(1) h[folded assms(3)] v policies_exclude(1)[OF assms(6)] _ HOL.refl],
        rule walk_settles[OF assms(1) _ v assms(5) policies_exclude(2)[OF assms(6)] assms(8) HOL.refl])
qed


section \<open>A greeting that is deleted\<close>

text \<open>How a pass ends that finds the greeting outside, and one that does not find it any more.\<close>

definition torn_down ::
  "greeting \<Rightarrow> external_store \<Rightarrow> outcome \<Rightarrow> greeting \<Rightarrow> greeting \<Rightarrow> external_store \<Rightarrow> bool" where
  "torn_down ob st out mg' ob' st' \<longleftrightarrow>
     out = (rate_limited_requeue, None) \<and> st' = Mapping.delete (get_external_name ob) st
     \<and> (\<exists>cs rv. ob' = ob\<lparr>mg_conditions := cs, om_resource_version := rv\<rparr>)
     \<and> shows_condition ob' cond_deleting \<and> shows_condition ob' cond_reconcile_success"

definition let_go ::
  "greeting \<Rightarrow> external_store \<Rightarrow> outcome \<Rightarrow> greeting \<Rightarrow> greeting \<Rightarrow> external_store \<Rightarrow> bool" where
  "let_go ob st out mg' ob' st' \<longleftrightarrow>
     out = (no_result, None) \<and> st' = st \<and> om_finalizers mg' = removeAll finalizer_name (om_finalizers ob)"

lemma walk_tears_down:
  assumes "honest E V m" "here E V (put_conditions [c u] ob) ob st t s" "was_deleted ob" "should_delete ob"
    and "finalizer_exists ob finalizer_name" "ob_exists x" "R = greeting_reconciler E m"
  shows "wp (andthen (check_creation_grace R x) (\<lambda>_. andthen (check_deleted R k pristine x (Some ())) rest))
    Q (ends_here E V (torn_down ob st)) s"
proof -
  let ?mg = "put_conditions [c u] ob" and ?st = "Mapping.delete (get_external_name ob) st"
  have mg: "was_deleted (rs_mg s)" "should_delete (rs_mg s)" using assms(2-4) by (simp_all add: here_def)
  have concl: "wp (conclude R [cond_deleting, cond_reconcile_success] (rate_limited_requeue, None)) Q'
      (ends_here E V (torn_down ob st)) s'" if "here E V ?mg ob ?st t s'" for s' and Q' :: "unit \<Rightarrow> _"
    unfolding assms(7)
  proof (rule step_conclude[OF assms(1) that], goal_cases)
    case 1
    then show ?case using assms(5) by (auto simp: finalizer_exists_def)
  next
    case (2 us rv y s')
    then obtain a b where us: "us = [a, b]" by (auto simp: length_Suc_conv)
    show ?case
      by (rule ends_hereI[OF 2(3)])
        (auto simp: torn_down_def 2(2) us put_conditions_two cond_deleting_def cond_reconcile_success_def)
  qed
  have "wp (delete_external R k pristine (Some ())) Q' (ends_here E V (torn_down ob st)) s" for Q' :: "unit \<Rightarrow> _"
    unfolding delete_external_def
  proof (intro walk_andthen, unfold assms(7), intro walk_gated_free walk_ext, goal_cases)
    case (1 w y e)
    then have r: "y = ?mg" "e = None" "w = ge_put E ?st (rs_world s)"
      using assms(2) by (auto simp: greeting_delete_def here_def)
    have "here E V ?mg ob ?st t (log_ev (ExtCall XDelete (rs_mg s) y e) (s\<lparr>rs_world := w, rs_mg := y\<rparr>))"
      using assms(2) honestD(6-8)[OF assms(1)] by (simp add: r here_def)
    then show ?case unfolding r(2)
      by (intro walk_andthen step_record, assumption)
        (simp, intro walk_andthen, erule step_emit, rule concl[unfolded assms(7)])
  qed
  then show ?thesis using assms(6) mg by (simp add: check_creation_grace_def check_deleted_def wps)
qed

lemma step_remove_finalizer:
  assumes "honest E V m" "here E V mg ob st t s" "finalizer_exists mg finalizer_name" "distinct (om_finalizers mg)"
    and "\<And>mg' ob' s'. om_finalizers mg' = removeAll finalizer_name (om_finalizers mg) \<Longrightarrow> here E V mg' ob' st t s' \<Longrightarrow> Q None s'"
  shows "wp (api op (r_remove_finalizer (greeting_reconciler E m))) Q T s"
  unfolding reconciler_fields
proof (rule step_accepted[where f = "managed_finalizer m", OF _ assms(2)])
  let ?x = "mg\<lparr>om_finalizers := removeAll finalizer_name (om_finalizers mg)\<rparr>"
  show "accepted E V (rs_world s) (?x\<lparr>mg_conditions := mg_conditions ob\<rparr>) (managed_finalizer m (rs_mg s) (rs_world s))"
    using honest_update[OF assms(1,2), of ?x] assms(2,3) remove_finalizer_distinct[OF assms(4)]
    by (auto simp: managed_finalizer_def api_remove_finalizer_def here_def accepted_def wrap_def with_message_def
        ignore_not_found_def ignore_def)
qed (rule assms(5)[rotated], assumption, simp)


lemma walk_lets_go:
  assumes "honest E V m" "here E V (put_conditions [c u] ob) ob st t s" "was_deleted ob"
    and "finalizer_exists ob finalizer_name" "distinct (om_finalizers ob)" "\<not> ob_exists x"
    and "is_zero (get_create_succeeded ob) \<or> inst (get_create_succeeded ob) + default_grace_period \<le> t"
    and "R = greeting_reconciler E m"
  shows "wp (andthen (check_creation_grace R x) (\<lambda>_. andthen (check_deleted R k pristine x (Some ())) rest))
    Q (ends_here E V (let_go ob st)) s"
proof -
  let ?mg = "put_conditions [c u] ob"
  have g: "\<not> create_succeeded_during (inst v) ?mg (r_creation_grace R)" if "t \<le> inst v" for v
    using assms(7) that
    by (auto simp: assms(8) create_succeeded_during_def Let_def greeting_reconciler_def blank_reconciler_def
        with_external_connecter_def with_external_connect_disconnecter_def default_grace_period_def time_sub_less_iff)
  have "wp (finalize R) Q' (ends_here E V (let_go ob st)) s'" if "here E V ?mg ob st t s'" for s' and Q' :: "unit \<Rightarrow> _"
    unfolding finalize_def assms(8)
  proof (intro walk_andthen step_remove_finalizer[OF assms(1) that], goal_cases)
    case (3 mg' ob' s2)
    then show ?case by (simp add: record_op_def wps) (erule ends_hereI, simp add: let_go_def no_result_def)
  qed (use assms(4,5) in simp_all)
  moreover have "here E V ?mg ob st t s'" if "here E V ?mg ob st (inst v) s'" "t \<le> inst v" for v s'
    using that by (simp add: here_def)
  moreover have mg: "rs_mg s' = ?mg" if "here E V ?mg ob st v s'" for v s' using that by (simp add: here_def)
  ultimately show ?thesis
    using assms(3,6) mg[OF assms(2)]
    by (simp add: check_creation_grace_def check_deleted_def wps)
      (unfold assms(8), rule step_clock[OF assms(1,2)], simp add: wps mg g[unfolded assms(8)])
qed


text \<open>A greeting the controller has to take down.\<close>

definition condemned :: "greeting \<Rightarrow> instant \<Rightarrow> bool" where
  "condemned g now \<longleftrightarrow> \<not> is_paused g \<and> was_deleted g \<and> should_delete g \<and> \<not> external_create_incomplete g
     \<and> finalizer_exists g finalizer_name \<and> distinct (om_finalizers g)
     \<and> (is_zero (get_create_succeeded g) \<or> inst (get_create_succeeded g) + default_grace_period \<le> now)"

lemma delete_excludes: "should_delete g \<Longrightarrow> \<not> should_only_observe g"
  by (auto simp: should_delete_def should_only_observe_def policy_defs Let_def split: if_splits)

lemma run_condemned:
  assumes "honest E V m" "condemned (sv_object V w) (sv_clock V w)"
    and "reconcile (greeting_reconciler E m) (begin_pass (greeting_reconciler E m) w seen) = (s, out)"
    and "greeting_view E (sv_object V w) (ge_store E w) = (c, x)"
  shows "(if ob_exists x then torn_down else let_go) (sv_object V w) (ge_store E w) out
      (rs_mg s) (sv_object V (rs_world s)) (ge_store E (rs_world s))"
proof (rule run_ends[OF walk_pass[OF assms(1) begin_here] assms(3)])
  let ?g = "sv_object V w"
  have f: "\<not> is_paused ?g" "was_deleted ?g" "should_delete ?g" "\<not> external_create_incomplete ?g"
    "finalizer_exists ?g finalizer_name" "distinct (om_finalizers ?g)"
    "is_zero (get_create_succeeded ?g) \<or> inst (get_create_succeeded ?g) + default_grace_period \<le> sv_clock V w"
    using assms(2) by (simp_all add: condemned_def)
  show "\<not> is_paused ?g" "\<not> (was_deleted ?g \<and> \<not> should_delete ?g)" "\<not> external_create_incomplete ?g"
    using f by simp_all
  fix pristine s' assume h: "here E V ?g ?g (ge_store E w) (sv_clock V w) s'"
  show "wp (with_client (greeting_reconciler E m) pristine False (Some ())) (\<lambda>_ _. False)
      (ends_here E V ((if ob_exists x then torn_down else let_go) ?g (ge_store E w))) s'"
  proof (rule walk_with_client[OF assms(1) h assms(4) delete_excludes[OF f(3)] _ HOL.refl], goal_cases)
    case (1 k u s2)
    then show ?case
      by (cases "ob_exists x")
        (simp_all only: if_True if_False,
         rule walk_tears_down[OF assms(1) _ f(2,3,5) _ HOL.refl], assumption+,
         rule walk_lets_go[OF assms(1) _ f(2,5,6) _ f(7) HOL.refl])
  qed
qed

end
