(* ===== verification/Greeting_Props.thy ===== *)
theory Greeting_Props
  imports Greeting_Runs
begin

text \<open>
  What the example controller achieves: a Greeting is created, kept and deleted, it is never dropped, and
  each of its answers to \<open>Observe\<close> honours the Ready contract.
\<close>

section \<open>Convergence\<close>

text \<open>A server with one Greeting, for the witnesses; its clock stands still.\<close>

record hello_world =
  hw_object :: greeting
  hw_store :: external_store
  hw_governor :: governor

definition hello :: greeting where
  "hello = object_meta.extend (blank_meta\<lparr>om_name := ''hello''\<rparr>) \<lparr>mg_conditions = [], mg_payload = ''hi''\<rparr>"

definition hello_start :: "greeting \<Rightarrow> external_store \<Rightarrow> hello_world" where
  "hello_start g st = \<lparr>hw_object = g, hw_store = st, hw_governor = throttled2\<rparr>"

definition hello_env :: "hello_world greeting_env" where
  "hello_env = \<lparr>ge_now = (\<lambda>w. (w, noon)), ge_store = hw_store, ge_put = (\<lambda>st w. w\<lparr>hw_store := st\<rparr>), ge_quote = (\<lambda>x. x)\<rparr>"

definition hello_server :: "hello_world server" where
  "hello_server = \<lparr>sv_object = hw_object, sv_clock = (\<lambda>_. inst noon)\<rparr>"

definition hello_cluster :: "(hello_world, string) cluster" where
  "hello_cluster =
     \<lparr>mn_new = hello, mn_get = (\<lambda>_ w. (w, hw_object w, None)),
      mn_update = (\<lambda>x w. let x = x\<lparr>mg_conditions := mg_conditions (hw_object w)\<rparr> in (w\<lparr>hw_object := x\<rparr>, x, None)),
      mn_status_update = (\<lambda>x w. let x = (hw_object w)\<lparr>mg_conditions := mg_conditions x\<rparr> in (w\<lparr>hw_object := x\<rparr>, x, None)),
      mn_retry = attempts 4, mn_api_status = (\<lambda>_. True), mn_is_conflict = (\<lambda>_. False),
      mn_is_not_found = (\<lambda>_. False), mn_deep_equal = (\<lambda>_ _. False), mn_now = (\<lambda>w. (w, noon)),
      mn_draw = (\<lambda>_ _. None), mn_panic = new_err ''panic''\<rparr>"

lemma accepted_now:
  "ge_store E w' = ge_store E w \<Longrightarrow> sv_clock V w \<le> sv_clock V w' \<Longrightarrow> sv_object V w' = x \<Longrightarrow>
     accepted E V w x (w', x, None)"
  unfolding accepted_def by (intro exI[of _ w'] exI[of _ "om_resource_version x"]) simp

lemma hello_honest: "honest hello_env hello_server hello_cluster"
proof -
  have p: "printable noon" by code_simp
  have "retries 4 (attempts 4)" by (simp add: retries_def)
  then show ?thesis
    unfolding honest_def
    by (auto simp: hello_env_def hello_server_def hello_cluster_def quiet_def p Let_def intro!: accepted_now)
qed

definition hello_main ::
  "(hello_world \<Rightarrow> governor) \<times> (governor \<Rightarrow> hello_world \<Rightarrow> hello_world) \<Rightarrow> controller_options \<Rightarrow> greeting \<Rightarrow> external_store
     \<Rightarrow> setup_error + (hello_world, string, unit option) reconciler \<times> runtime_options \<times> hello_world" where
  "hello_main lens co g st =
     greeting_main hello_env (\<lambda>g w. (w\<lparr>hw_governor := g\<rparr>, None)) lens hello_cluster co (hello_start g st)"

definition hello_lens :: "(hello_world \<Rightarrow> governor) \<times> (governor \<Rightarrow> hello_world \<Rightarrow> hello_world)" where
  "hello_lens = (hw_governor, \<lambda>g w. w\<lparr>hw_governor := g\<rparr>)"

text \<open>Two passes in a row.\<close>

definition hello_passes ::
  "greeting \<Rightarrow> external_store \<Rightarrow> (((hello_world, string) rstate \<times> outcome) \<times> ((hello_world, string) rstate \<times> outcome)) option" where
  "hello_passes g st =
     (case hello_main hello_lens (greeting_options False False False) g st of
        Inl _ \<Rightarrow> None
      | Inr (R, ct, w) \<Rightarrow>
          (let r1 = reconcile R (begin_pass R w []) in Some (r1, reconcile R (begin_pass R (rs_world (fst r1)) []))))"

lemma hello_passes_cases:
  obtains R ct s1 out1 s2 out2
  where "greeting_main hello_env (\<lambda>g w. (w\<lparr>hw_governor := g\<rparr>, None)) hello_lens hello_cluster
      (greeting_options False False False) (hello_start g st) = Inr (R, ct, hello_start g st)"
    "reconcile R (begin_pass R (hello_start g st) []) = (s1, out1)"
    "reconcile R (begin_pass R (rs_world s1) []) = (s2, out2)"
    "hello_passes g st = Some ((s1, out1), (s2, out2))"
proof -
  obtain R ct w where m: "hello_main hello_lens (greeting_options False False False) g st = Inr (R, ct, w)"
    by (auto simp: hello_main_def greeting_main_def greeting_options_def setup_rate_limit_governor_def Let_def
        default_options_def zero_saturation_def new_reconciler_def with_external_connecter_def
        with_external_connect_disconnecter_def with_rate_limit_governor_def)
  have w: "w = hello_start g st" by (rule greeting_main_off(2)[OF m[unfolded hello_main_def]])
  obtain s1 out1 where r1: "reconcile R (begin_pass R w []) = (s1, out1)" by (metis surj_pair)
  obtain s2 out2 where r2: "reconcile R (begin_pass R (rs_world s1) []) = (s2, out2)" by (metis surj_pair)
  show thesis
    by (rule that[OF m[unfolded hello_main_def w] r1[unfolded w] r2]) (simp add: hello_passes_def m r1 r2)
qed

text \<open>
  C6: a Greeting converges.  Take the example controller as \<open>main\<close> builds it without flags, an API
  server that accepts what it is sent, and a new Greeting.  The first pass creates the external greeting
  and asks to be run again; the object then carries its external name, the finalizer and a resolved
  create handshake.  Whatever has happened to the external message until the second pass, as long as it
  exists, that pass leaves the message of the spec in the store, says so with Ready and Synced, and
  comes back at the poll interval.
\<close>

theorem greeting_converges:
  assumes "greeting_main E add lens m (greeting_options False False mem) w0 = Inr (R, ct, w)" "honest E V m"
    and "fresh (sv_object V w) (ge_store E w)" "om_name (sv_object V w) = n" "n \<noteq> []"
    and "reconcile R (begin_pass R w seen) = (s1, out1)"
    and "sv_object V w2 = sv_object V (rs_world s1)" "Mapping.lookup (ge_store E w2) n \<noteq> None"
    and "reconcile R (begin_pass R w2 seen2) = (s2, out2)"
  shows "out1 = (rate_limited_requeue, None)
    \<and> Mapping.lookup (ge_store E (rs_world s1)) n = Some (mg_payload (sv_object V w))
    \<and> get_external_name (sv_object V (rs_world s1)) = n
    \<and> \<not> external_create_incomplete (sv_object V (rs_world s1))
    \<and> out2 = (requeue_after (60 * second), None)
    \<and> ge_store E (rs_world s2) = Mapping.update n (mg_payload (sv_object V w)) (ge_store E w2)
    \<and> shows_condition (sv_object V (rs_world s2)) cond_available
    \<and> shows_condition (sv_object V (rs_world s2)) cond_reconcile_success"
proof -
  let ?g1 = "sv_object V (rs_world s1)"
  have R: "R = greeting_reconciler E m" by (rule greeting_main_off(1)[OF assms(1)])
  note c = run_creates[OF assms(2,3) assms(6)[unfolded R], unfolded created_def assms(4)]
  have "annotation ?g1 key_paused = annotation (sv_object V w) key_paused"
    "annotation ?g1 key_management_policy = annotation (sv_object V w) key_management_policy"
    using c by (simp_all add: key_defs)
  then have g: "\<not> is_paused ?g1" "\<not> was_deleted ?g1" "should_create ?g1"
    using assms(3) c by (simp_all add: fresh_def is_paused_def was_deleted_def should_create_def management_policy_def)
  have "settled ?g1 (ge_store E w2) out2 (rs_mg s2) (sv_object V (rs_world s2)) (ge_store E (rs_world s2))"
    by (rule run_settles[OF assms(2) assms(9)[unfolded R] assms(7)[symmetric] g]) (use c assms(5,8) in simp_all)
  with c show ?thesis by (simp add: settled_def)
qed


theorem greeting_converges_witness:
  "case hello_passes hello Mapping.empty of Some ((s1, _), (s2, out)) \<Rightarrow>
     Mapping.lookup (hw_store (rs_world s1)) ''hello'' = Some ''hi''
     \<and> shows_condition (hw_object (rs_world s2)) cond_available \<and> out = (requeue_after (60 * second), None)
   | None \<Rightarrow> False"
proof -
  obtain R ct s1 out1 s2 out2 where p: "greeting_main hello_env (\<lambda>g w. (w\<lparr>hw_governor := g\<rparr>, None)) hello_lens hello_cluster
      (greeting_options False False False) (hello_start hello Mapping.empty) = Inr (R, ct, hello_start hello Mapping.empty)"
    "reconcile R (begin_pass R (hello_start hello Mapping.empty) []) = (s1, out1)"
    "reconcile R (begin_pass R (rs_world s1) []) = (s2, out2)"
    "hello_passes hello Mapping.empty = Some ((s1, out1), (s2, out2))"
    by (rule hello_passes_cases)
  have f: "fresh (sv_object hello_server (hello_start hello Mapping.empty)) (ge_store hello_env (hello_start hello Mapping.empty))"
    by (simp add: hello_server_def hello_env_def hello_start_def hello_def fresh_def object_meta.defs blank_meta_def
        is_paused_def was_deleted_def should_create_def management_policy_def external_create_incomplete_def marker_defs
        incomplete_markers_def zero_time_def is_zero_def get_external_name_def lookup_empty)
  have n: "om_name (sv_object hello_server (hello_start hello Mapping.empty)) = ''hello''"
    "mg_payload (sv_object hello_server (hello_start hello Mapping.empty)) = ''hi''"
    by (simp_all add: hello_server_def hello_start_def hello_def object_meta.defs)
  have c: "created (sv_object hello_server (hello_start hello Mapping.empty)) (ge_store hello_env (hello_start hello Mapping.empty))
      out1 (rs_mg s1) (sv_object hello_server (rs_world s1)) (ge_store hello_env (rs_world s1))"
    using run_creates[OF hello_honest f] p(2) greeting_main_off(1)[OF p(1)] by blast
  then have "Mapping.lookup (ge_store hello_env (rs_world s1)) ''hello'' \<noteq> None"
    by (simp add: created_def n)
  from greeting_converges[OF p(1) hello_honest f n(1) _ p(2) HOL.refl this p(3)] show ?thesis
    using n(2) by (simp add: p(4) hello_env_def hello_server_def)
qed

section \<open>Deletion\<close>

text \<open>
  C7: a Greeting that is deleted goes.  With the same controller and server, the first pass over a
  Greeting being deleted removes the external greeting and asks to be run again; once it is not found,
  the next pass removes the finalizer, which is all that held the object, and ends without a requeue.
\<close>

theorem greeting_deleted:
  assumes "greeting_main E add lens m (greeting_options False False mem) w0 = Inr (R, ct, w)" "honest E V m"
    and "condemned (sv_object V w) (sv_clock V w)" "get_external_name (sv_object V w) = n" "n \<noteq> []"
    and "Mapping.lookup (ge_store E w) n \<noteq> None"
    and "reconcile R (begin_pass R w seen) = (s1, out1)"
    and "sv_object V w2 = sv_object V (rs_world s1)" "sv_clock V w \<le> sv_clock V w2"
    and "Mapping.lookup (ge_store E w2) n = None"
    and "reconcile R (begin_pass R w2 seen2) = (s2, out2)"
  shows "out1 = (rate_limited_requeue, None)
    \<and> ge_store E (rs_world s1) = Mapping.delete n (ge_store E w)
    \<and> shows_condition (sv_object V (rs_world s1)) cond_deleting
    \<and> out2 = (no_result, None)
    \<and> om_finalizers (rs_mg s2) = removeAll finalizer_name (om_finalizers (sv_object V w))
    \<and> ge_store E (rs_world s2) = ge_store E w2"
proof -
  let ?g = "sv_object V w" and ?g1 = "sv_object V (rs_world s1)"
  have R: "R = greeting_reconciler E m" by (rule greeting_main_off(1)[OF assms(1)])
  obtain x where "greeting_view E ?g (ge_store E w) = (cond_available, x)" "ob_exists x"
    using assms(4-6) by (auto simp: greeting_view_def Let_def no_observation_def split: option.splits)
  with run_condemned[OF assms(2,3) assms(7)[unfolded R]]
  have t: "torn_down ?g (ge_store E w) out1 (rs_mg s1) ?g1 (ge_store E (rs_world s1))" by fastforce
  then obtain cs rv where g1: "?g1 = ?g\<lparr>mg_conditions := cs, om_resource_version := rv\<rparr>"
    by (auto simp: torn_down_def)
  have "condemned (sv_object V w2) (sv_clock V w2)"
    using assms(3,9) by (auto simp: condemned_def assms(8) g1 is_paused_def was_deleted_def should_delete_def
        management_policy_def deletion_policy_def external_create_incomplete_def marker_defs finalizer_exists_def)
  moreover have "greeting_view E (sv_object V w2) (ge_store E w2)
      = (unavailable_because ''the external greeting does not exist'', no_observation)"
    using assms(4,5,10) by (simp add: greeting_view_def assms(8) g1 get_external_name_def)
  ultimately have "let_go (sv_object V w2) (ge_store E w2) out2 (rs_mg s2) (sv_object V (rs_world s2)) (ge_store E (rs_world s2))"
    using run_condemned[OF assms(2) _ assms(11)[unfolded R]] by (fastforce simp: no_observation_def)
  with t show ?thesis by (simp add: torn_down_def let_go_def assms(4,8) g1)
qed


definition doomed :: greeting where
  "doomed = set_external_name hello ''hello''\<lparr>om_deletion := Some noon, om_finalizers := [finalizer_name]\<rparr>"

definition doomed_store :: external_store where
  "doomed_store = Mapping.update ''hello'' ''hi'' Mapping.empty"

theorem greeting_deleted_witness:
  "case hello_passes doomed doomed_store of Some ((s1, _), (s2, out)) \<Rightarrow>
     Mapping.lookup (hw_store (rs_world s2)) ''hello'' = None \<and> om_finalizers (rs_mg s2) = [] \<and> out = (no_result, None)
   | None \<Rightarrow> False"
proof -
  let ?w = "hello_start doomed doomed_store"
  obtain R ct s1 out1 s2 out2 where p: "greeting_main hello_env (\<lambda>g w. (w\<lparr>hw_governor := g\<rparr>, None)) hello_lens hello_cluster
      (greeting_options False False False) ?w = Inr (R, ct, ?w)"
    "reconcile R (begin_pass R ?w []) = (s1, out1)" "reconcile R (begin_pass R (rs_world s1) []) = (s2, out2)"
    "hello_passes doomed doomed_store = Some ((s1, out1), (s2, out2))"
    by (rule hello_passes_cases)
  have o: "sv_object hello_server ?w = doomed" "ge_store hello_env ?w = doomed_store"
    by (simp_all add: hello_server_def hello_env_def hello_start_def)
  have n: "get_external_name doomed = ''hello''" "om_finalizers doomed = [finalizer_name]"
    "Mapping.lookup doomed_store ''hello'' \<noteq> None"
    by (simp_all add: doomed_def doomed_store_def get_external_name_def set_external_name_def)
  have c: "condemned doomed (sv_clock hello_server ?w)"
    by (simp add: condemned_def doomed_def hello_def object_meta.defs blank_meta_def
        is_paused_def was_deleted_def should_delete_def management_policy_def deletion_policy_def policy_defs
        external_create_incomplete_def marker_defs set_external_name_def
        incomplete_markers_def zero_time_def is_zero_def finalizer_exists_def key_defs)
  obtain x where v: "greeting_view hello_env doomed doomed_store = (cond_available, x)" "ob_exists x"
    using n by (auto simp: greeting_view_def Let_def no_observation_def)
  have "ge_store hello_env (rs_world s1) = Mapping.delete ''hello'' doomed_store"
    using run_condemned[OF hello_honest, of ?w "[]" s1 out1 cond_available x] c v p(2) o n(1) greeting_main_off(1)[OF p(1)]
    by (simp add: torn_down_def)
  then have d: "Mapping.lookup (ge_store hello_env (rs_world s1)) ''hello'' = None" by (simp add: lookup_delete)
  have "sv_clock hello_server ?w \<le> sv_clock hello_server (rs_world s1)" by (simp add: hello_server_def)
  from greeting_deleted[OF p(1) hello_honest, unfolded o, OF c n(1) _ n(3) p(2) HOL.refl this d p(3)] n(2) d
  show ?thesis by (simp add: p(4) hello_env_def)
qed

section \<open>The Ready contract and the queue\<close>

text \<open>
  C33: the example honours the Ready contract.  On every path \<open>Observe\<close> passes the check of
  reconcilertest; it answers that the greeting exists exactly when the store has the external name,
  that it is up to date exactly when the message is that of the spec, and Ready is true exactly when
  it exists.
\<close>

theorem greeting_honours_ready:
  "case assert_observe_sets_ready now (xc_observe (greeting_client E)) g w of (w', g', r, failure) \<Rightarrow>
     failure = None \<and> (\<exists>x. r = Inr x
       \<and> (ob_exists x \<longleftrightarrow> get_external_name g \<noteq> []
            \<and> Mapping.lookup (ge_store E (fst (now w))) (get_external_name g) \<noteq> None)
       \<and> (ob_up_to_date x \<longleftrightarrow> get_external_name g \<noteq> []
            \<and> Mapping.lookup (ge_store E (fst (now w))) (get_external_name g) = Some (mg_payload g))
       \<and> (c_status (get_condition (mg_conditions g') type_ready) = status_true \<longleftrightarrow> ob_exists x))"
proof -
  obtain w1 t where n: "now w = (w1, t)" by (metis surj_pair)
  let ?g = "put_conditions [cond_not_observed t] g"
  obtain c x where v: "greeting_view E ?g (ge_store E w1) = (c, x)" by (metis surj_pair)
  obtain w2 u where n2: "ge_now E w1 = (w2, u)" by (metis surj_pair)
  have r: "c_type (c u) = type_ready" "c_reason (c u) \<noteq> reason_not_observed"
    using view_ready[OF v] by simp_all
  have x: "ob_exists x \<longleftrightarrow> get_external_name g \<noteq> [] \<and> Mapping.lookup (ge_store E w1) (get_external_name g) \<noteq> None"
    "ob_up_to_date x \<longleftrightarrow> get_external_name g \<noteq> [] \<and> Mapping.lookup (ge_store E w1) (get_external_name g) = Some (mg_payload g)"
    "c_status (c u) = status_true \<longleftrightarrow> ob_exists x"
    using v by (auto simp: greeting_view_def Let_def no_observation_def unavailable_because_def
        with_condition_message_def condition_ctor_defs condition_consts split: if_splits option.splits)
  have "c_reason (get_condition (mg_conditions (put_conditions [c u] ?g)) type_ready) = c_reason (c u)"
    "c_status (get_condition (mg_conditions (put_conditions [c u] ?g)) type_ready) = c_status (c u)"
    by (auto simp: get_put_one[of "c u"] r(1) condition_equal_def)
  with r(2) x show ?thesis
    by (simp add: assert_observe_sets_ready_def n client_observes v n2 Let_def)
qed

text \<open>
  The example never drops a Greeting.  With its governor on or off, over any number of passes, whatever
  happens to the world in between but to the governor's health, every pass ends in an error, a requeue
  or a delay, unless the object is gone, released or paused.
\<close>

theorem greeting_never_dropped:
  assumes "setup_rate_limit_governor add (greeting_options rl False mem) w0 = (w1, co', None)"
    and "\<And>g. co_governor co' = Some g \<Longrightarrow> getg w1 = g" "\<And>g w. getg (putg g w) = g"
    and "\<And>st w. getg (ge_put E st w) = getg w" "\<And>w. getg (fst (ge_now E w)) = getg w"
    and "ok = (\<lambda>w. co_governor co' = None \<or> healthy (getg w))" "sensible_cluster ok m"
    and "greeting_main E add (getg, putg) m (greeting_options rl False mem) w0 = Inr (R, ct, w2)"
    and "\<And>e w. e \<in> set es \<Longrightarrow> ok w \<Longrightarrow> ok (e w)" "(s, out) \<in> set (passes R es w2 [])"
  shows "comes_back out \<or> list_ex (explains (mn_is_not_found m)) (rs_trace s)"
proof -
  let ?opts = "[with_external_connecter (greeting_connecter E)]"
  have k: "keeps ok (xc_observe (greeting_client E))" "keeps ok (greeting_create E)"
    "keeps ok (greeting_update E)" "keeps ok (greeting_delete E)"
    using assms(4,5)
    by (auto simp: keeps_def assms(6) client_observes greeting_create_def greeting_update_def greeting_delete_def
        split: prod.splits) (metis fst_conv)+
  have o: "\<forall>opt \<in> set ?opts. sensible_option ok opt"
    using k unfolding with_external_connecter_def
    by (auto intro!: connecter simp: greeting_connecter_def keeps_def nop_disconnect_def greeting_client_def)
  have s: "sane_options (greeting_options rl False mem)"
    by (simp add: sane_options_def greeting_options_def default_options_def zero_saturation_def fill_defaults_def or_default_def
        default_startup_ramp_def default_sample_period_def Let_def)
  show ?thesis
  proof (rule set_up_comes_back[where opts = ?opts and getg = getg and putg = putg and ok = ok and es = es and co' = co'])
    show "new_reconciler m (?opts @ [with_rate_limit_governor (map_option (\<lambda>_. (getg, putg)) (co_governor co'))]) w1 = (R, w2)"
      using assms(1,8) by (auto simp: greeting_main_def split: prod.splits)
  qed (fact assms o s | simp add: with_external_connecter_def with_external_connect_disconnecter_def)+
qed


definition hello_options :: controller_options where "hello_options = greeting_options True False False"

theorem greeting_never_dropped_witness:
  "case hello_main hello_lens hello_options hello Mapping.empty of
     Inl _ \<Rightarrow> False
   | Inr (R, ct, w) \<Rightarrow> list_all (\<lambda>(s, out). comes_back out \<or> list_ex (explains (\<lambda>_. False)) (rs_trace s))
       (passes R [\<lambda>w. w, \<lambda>w. w\<lparr>hw_store := Mapping.empty\<rparr>] w [])"
proof -
  let ?add = "\<lambda>g w. (w\<lparr>hw_governor := g\<rparr>, None)" and ?w = "hello_start hello Mapping.empty"
  have "\<not> so_enabled zero_saturation" by (simp add: zero_saturation_def)
  then obtain g where g: "setup_rate_limit_governor ?add hello_options ?w = (?w\<lparr>hw_governor := g\<rparr>, hello_options\<lparr>co_governor := Some g\<rparr>, None)"
    by (auto simp: setup_rate_limit_governor_def hello_options_def greeting_options_def governor_options_def
        new_governor_def default_options_def Let_def zero_saturation_def)
  define ok where "ok = (\<lambda>w :: hello_world. co_governor (hello_options\<lparr>co_governor := Some g\<rparr>) = None \<or> healthy (hw_governor w))"
  obtain R w2 where r: "new_reconciler hello_cluster [with_external_connecter (greeting_connecter hello_env),
      with_rate_limit_governor (Some hello_lens)] (?w\<lparr>hw_governor := g\<rparr>) = (R, w2)" by (metis surj_pair)
  have R: "greeting_main hello_env ?add hello_lens hello_cluster hello_options ?w
      = Inr (R, for_controller_runtime (hello_options\<lparr>co_governor := Some g\<rparr>), w2)"
    by (simp add: greeting_main_def g r)
  have m: "sensible_cluster ok hello_cluster"
    by (auto simp: sensible_cluster_def keeps_def hello_cluster_def retries_def fair_def ok_def Let_def)
  have n: "mn_is_not_found hello_cluster = (\<lambda>_. False)" by (simp add: hello_cluster_def)
  have "comes_back out \<or> list_ex (explains (mn_is_not_found hello_cluster)) (rs_trace s)"
    if "(s, out) \<in> set (passes R [\<lambda>w. w, \<lambda>w. w\<lparr>hw_store := Mapping.empty\<rparr>] w2 [])" for s out
    by (rule greeting_never_dropped[OF g[unfolded hello_options_def] _ _ _ _ ok_def[unfolded hello_options_def] m
          R[unfolded hello_options_def hello_lens_def] _ that])
      (auto simp: hello_env_def ok_def)
  then show ?thesis by (auto simp: hello_main_def R n list_all_iff)
qed


text \<open>The store goes by the name alone: Greetings of one name in two namespaces overwrite each other.\<close>

lemma greetings_share_names:
  assumes "honest E V m" "om_name b = om_name a"
  shows "Mapping.lookup (ge_store E (fst (greeting_create E b (fst (greeting_create E a w))))) (om_name a)
    = Some (mg_payload b)"
  using assms(2) honestD(6)[OF assms(1)]
  by (simp add: greeting_create_def set_external_name_def Let_def lookup_update')

end
