(* ===== verification/Handshake.thy ===== *)
theory Handshake
  imports Pass_Invariant Api_Helpers "HOL-Library.Sublist"
begin

text \<open>
  The create handshake against an API server with optimistic concurrency, whose reads may be stale and
  which others write meanwhile: what a pass knows of the object on the server when it calls Create.
\<close>

section \<open>The server\<close>

text \<open>Every object the server has held under the name, the latest first, and the time.\<close>

record ('w, 'p) api_log =
  al_objects :: "'w \<Rightarrow> 'p managed list"
  al_time :: "'w \<Rightarrow> instant"

definition later :: "('w, 'p) api_log \<Rightarrow> 'w \<Rightarrow> 'w \<Rightarrow> bool" where
  "later L w w' \<longleftrightarrow> suffix (al_objects L w) (al_objects L w') \<and> al_time L w \<le> al_time L w'"

definition versioned :: "('w, 'p) api_log \<Rightarrow> 'w \<Rightarrow> bool" where
  "versioned L w \<longleftrightarrow> distinct (map om_resource_version (al_objects L w))"

text \<open>\<open>ob\<close> is what the server held at some time between \<open>w0\<close> and \<open>w\<close>.\<close>

definition held_between :: "('w, 'p) api_log \<Rightarrow> 'w \<Rightarrow> 'p managed \<Rightarrow> 'w \<Rightarrow> bool" where
  "held_between L w0 ob w \<longleftrightarrow>
     (\<exists>older. suffix (al_objects L w0) (ob # older) \<and> suffix (ob # older) (al_objects L w))"

definition same_markers :: "'p managed \<Rightarrow> 'p managed \<Rightarrow> bool" where
  "same_markers a b \<longleftrightarrow> get_create_pending a = get_create_pending b
     \<and> get_create_succeeded a = get_create_succeeded b \<and> get_create_failed a = get_create_failed b"

text \<open>
  Objects and the clock only move on and no resource version is used twice.  \<open>Get\<close> may be stale: it
  returns some object the server has held.  \<open>Update\<close> succeeds only on the version the server holds, and
  leaves the markers it is sent alone.  Connect and Observe leave the markers and the version alone.
\<close>

definition optimistic :: "('w, 'p) api_log \<Rightarrow> ('w, 'p, 'c) reconciler \<Rightarrow> bool" where
  "optimistic L R \<longleftrightarrow>
     (\<forall>w0. outside_keeps R (later L w0)) \<and> outside_keeps R (versioned L)
     \<and> (\<forall>getg putg g w. r_governor R = Some (getg, putg) \<longrightarrow>
          al_objects L (putg g w) = al_objects L w \<and> al_time L (putg g w) = al_time L w)
     \<and> (\<forall>w w' t. r_now R w = (w', t) \<longrightarrow> inst t \<le> al_time L w')
     \<and> (\<forall>mg w w' mg'. r_get R mg w = (w', mg', None) \<longrightarrow> mg' \<in> set (al_objects L w'))
     \<and> (\<forall>mg w w' mg'. r_update R mg w = (w', mg', None) \<longrightarrow> same_markers mg mg'
          \<and> (\<exists>ob. om_resource_version ob = om_resource_version mg \<and> held_between L w ob w'))
     \<and> (\<forall>mg w w' mg' c. r_connect R mg w = (w', mg', Inr c) \<longrightarrow>
          same_markers mg mg' \<and> om_resource_version mg' = om_resource_version mg)
     \<and> (\<forall>c mg w w' mg' ob. r_observe R c mg w = (w', mg', Inr ob) \<longrightarrow>
          same_markers mg mg' \<and> om_resource_version mg' = om_resource_version mg)"

lemma optimisticD:
  assumes "optimistic L R"
  shows "outside_keeps R (later L w0)" "outside_keeps R (versioned L)"
    "r_governor R = Some (getg, putg) \<Longrightarrow> al_objects L (putg g w) = al_objects L w"
    "r_governor R = Some (getg, putg) \<Longrightarrow> al_time L (putg g w) = al_time L w"
    "r_now R w = (w', t) \<Longrightarrow> inst t \<le> al_time L w'"
    "r_get R mg w = (w', mg', None) \<Longrightarrow> mg' \<in> set (al_objects L w')"
    "r_update R mg w = (w', mg', None) \<Longrightarrow> same_markers mg mg'"
    "r_update R mg w = (w', mg', None) \<Longrightarrow>
       \<exists>ob. om_resource_version ob = om_resource_version mg \<and> held_between L w ob w'"
    "r_connect R mg w = (w', mg', Inr c) \<Longrightarrow> same_markers mg mg'"
    "r_connect R mg w = (w', mg', Inr c) \<Longrightarrow> om_resource_version mg' = om_resource_version mg"
    "r_observe R c mg w = (w', mg', Inr ob) \<Longrightarrow> same_markers mg mg'"
    "r_observe R c mg w = (w', mg', Inr ob) \<Longrightarrow> om_resource_version mg' = om_resource_version mg"
  using assms by (simp_all add: optimistic_def) blast+

lemma later_refl [simp]: "later L w w"
  by (simp add: later_def)

lemma later_trans: "later L w w' \<Longrightarrow> later L w' w'' \<Longrightarrow> later L w w''"
  unfolding later_def by (blast intro: suffix_order.trans order_trans)

lemma later_held: "held_between L w0 ob w \<Longrightarrow> later L w w' \<Longrightarrow> held_between L w0 ob w'"
  unfolding held_between_def later_def by (blast intro: suffix_order.trans)

lemma held_later: "later L w0 w \<Longrightarrow> held_between L w ob w' \<Longrightarrow> held_between L w0 ob w'"
  unfolding held_between_def later_def by (blast intro: suffix_order.trans)

lemma later_known: "ob \<in> set (al_objects L w) \<Longrightarrow> later L w w' \<Longrightarrow> ob \<in> set (al_objects L w')"
  unfolding later_def by (auto dest: set_mono_suffix)

lemma held_known: "held_between L w0 ob w \<Longrightarrow> ob \<in> set (al_objects L w)"
  unfolding held_between_def by (auto dest: set_mono_suffix)

lemma one_of_a_version:
  "versioned L w \<Longrightarrow> a \<in> set (al_objects L w) \<Longrightarrow> b \<in> set (al_objects L w) \<Longrightarrow>
   om_resource_version a = om_resource_version b \<Longrightarrow> a = b"
  unfolding versioned_def distinct_map by (blast dest: inj_onD)

lemma time_sub_mono: "t \<le> u \<Longrightarrow> time_sub t v \<le> time_sub u v"
  by (auto simp: time_sub_def)

lemma during_ends:
  "\<not> create_pending_during t ob d \<Longrightarrow> t \<le> u \<Longrightarrow> \<not> create_pending_during u ob d"
  "\<not> create_succeeded_during t ob d \<Longrightarrow> t \<le> u \<Longrightarrow> \<not> create_succeeded_during u ob d"
  unfolding create_pending_during_def create_succeeded_during_def Let_def
  by (use time_sub_mono[of t u] in \<open>auto split: if_splits elim: order_trans less_le_trans simp: not_less\<close>)+

lemma during_same:
  "get_create_pending a = get_create_pending b \<Longrightarrow> create_pending_during t a d = create_pending_during t b d"
  "get_create_succeeded a = get_create_succeeded b \<Longrightarrow> create_succeeded_during t a d = create_succeeded_during t b d"
  by (simp_all add: create_pending_during_def create_succeeded_during_def)

section \<open>What must be known before Create\<close>

definition got :: "'p managed \<Rightarrow> 'p ev list \<Rightarrow> bool" where
  "got ob tr \<longleftrightarrow> (\<exists>b. ApiCall GetManaged b ob None \<in> set tr)"

fun is_creation :: "'p ev \<Rightarrow> bool" where
  "is_creation (ExtCall op _ _ _) = (op = XCreate)"
| "is_creation _ = False"

definition created :: "'p ev list \<Rightarrow> bool" where
  "created tr \<longleftrightarrow> list_ex is_creation tr"

text \<open>The grace periods of the object are over.\<close>

definition recovered :: "('w, 'p) api_log \<Rightarrow> ('w, 'p, 'c) reconciler \<Rightarrow> 'p managed \<Rightarrow> 'w \<Rightarrow> bool" where
  "recovered L R ob w \<longleftrightarrow>
     (external_create_incomplete ob \<longrightarrow> \<not> create_pending_during (al_time L w) ob (r_recovery_grace R))"

definition settled :: "('w, 'p) api_log \<Rightarrow> ('w, 'p, 'c) reconciler \<Rightarrow> 'p managed \<Rightarrow> 'w \<Rightarrow> bool" where
  "settled L R ob w \<longleftrightarrow> \<not> create_succeeded_during (al_time L w) ob (r_creation_grace R)"

definition vetted ::
  "('w, 'p) api_log \<Rightarrow> ('w, 'p, 'c) reconciler \<Rightarrow> 'w \<Rightarrow> ('w, 'p) rstate \<Rightarrow> bool" where
  "vetted L R w0 s \<longleftrightarrow> (\<exists>ob. got ob (rs_trace s) \<and> held_between L w0 ob (rs_world s)
     \<and> recovered L R ob (rs_world s) \<and> settled L R ob (rs_world s))"

lemma later_grace:
  "recovered L R ob w \<Longrightarrow> later L w w' \<Longrightarrow> recovered L R ob w'"
  "settled L R ob w \<Longrightarrow> later L w w' \<Longrightarrow> settled L R ob w'"
  unfolding recovered_def settled_def later_def by (blast dest: during_ends)+

text \<open>
  \<open>careful b\<close>: whoever has called Create, and anyone when \<open>b\<close>, knows an object that was on the server
  during the pass and whose grace periods are over.
\<close>

definition careful ::
  "('w, 'p) api_log \<Rightarrow> 'w \<Rightarrow> bool \<Rightarrow> ('w, 'p, 'c) reconciler \<Rightarrow> ('w, 'p) rstate \<Rightarrow> bool" where
  "careful L w0 b R s \<longleftrightarrow> (optimistic L R \<longrightarrow> versioned L (rs_world s) \<and> later L w0 (rs_world s)
     \<and> (b \<or> created (rs_trace s) \<longrightarrow> vetted L R w0 s))"

lemma vetted_later:
  "vetted L R w0 s \<Longrightarrow> later L (rs_world s) (rs_world s') \<Longrightarrow> set (rs_trace s) \<subseteq> set (rs_trace s') \<Longrightarrow>
   vetted L R w0 s'"
  unfolding vetted_def got_def by (blast intro: later_held later_grace)

lemma careful_step:
  assumes "careful L w0 b R s" "set (rs_trace s) \<subseteq> set (rs_trace s')"
    and "b \<or> (created (rs_trace s') \<longrightarrow> created (rs_trace s))"
    and "optimistic L R \<Longrightarrow> versioned L (rs_world s) \<Longrightarrow>
      versioned L (rs_world s') \<and> later L (rs_world s) (rs_world s')"
  shows "careful L w0 b R s'"
  unfolding careful_def
proof (intro impI)
  assume o: "optimistic L R"
  then have s: "versioned L (rs_world s)" "later L w0 (rs_world s)"
    and v: "b \<or> created (rs_trace s) \<Longrightarrow> vetted L R w0 s"
    using assms(1) by (simp_all add: careful_def)
  have s': "versioned L (rs_world s')" "later L (rs_world s) (rs_world s')" using assms(4)[OF o s(1)] by simp_all
  show "versioned L (rs_world s') \<and> later L w0 (rs_world s') \<and> (b \<or> created (rs_trace s') \<longrightarrow> vetted L R w0 s')"
    using s'(1) later_trans[OF s(2) s'(2)] vetted_later[OF v s'(2) assms(2)] assms(3) by blast
qed

lemma created_Cons [simp]:
  "created (ApiCall op x y e # tr) = created tr" "created (Connected x y e # tr) = created tr"
  "created (Observed x y ob # tr) = created tr" "created (Disconnected e # tr) = created tr"
  "created (Took ks # tr) = created tr" "created (Gave ks # tr) = created tr"
  "created (Deferred d x # tr) = created tr" "created (Emitted p q rn mn # tr) = created tr"
  "created (Metric mt # tr) = created tr" "created (ExtCall xop x y e # tr) = (xop = XCreate \<or> created tr)"
  by (simp_all add: created_def)

lemma created_metrics [simp]: "created (op_metrics R op b @ tr) = created tr"
  by (simp add: op_metrics_def)

lemma outside_keeps_both:
  "outside_keeps R P \<Longrightarrow> outside_keeps R P' \<Longrightarrow> outside_keeps R (\<lambda>w. P w \<and> P' w)"
  by (simp add: outside_keeps_def)

lemma careful_world:
  assumes "optimistic L R" "versioned L w"
  shows "f \<in> apis R \<Longrightarrow> f mg w = (w', x) \<Longrightarrow> versioned L w' \<and> later L w w'"
    "f \<in> exts R \<Longrightarrow> f mg w = (w', x) \<Longrightarrow> versioned L w' \<and> later L w w'"
    "r_connect R mg w = (w', y) \<Longrightarrow> versioned L w' \<and> later L w w'"
    "r_observe R c mg w = (w', z) \<Longrightarrow> versioned L w' \<and> later L w w'"
    "r_disconnect R w = (w', e) \<Longrightarrow> versioned L w' \<and> later L w w'"
    "r_now R w = (w', t) \<Longrightarrow> versioned L w' \<and> later L w w'"
    "r_poll_hook R mg d w = (w', d') \<Longrightarrow> versioned L w' \<and> later L w w'"
proof -
  have k: "outside_keeps R (\<lambda>w'. versioned L w' \<and> later L w w')" (is "outside_keeps R ?P")
    by (intro outside_keeps_both optimisticD(1,2) assms(1))
  have v: "?P w" using assms(2) by simp
  show "f \<in> apis R \<Longrightarrow> f mg w = (w', x) \<Longrightarrow> ?P w'" "f \<in> exts R \<Longrightarrow> f mg w = (w', x) \<Longrightarrow> ?P w'"
    "r_connect R mg w = (w', y) \<Longrightarrow> ?P w'" "r_observe R c mg w = (w', z) \<Longrightarrow> ?P w'"
    "r_disconnect R w = (w', e) \<Longrightarrow> ?P w'" "r_now R w = (w', t) \<Longrightarrow> ?P w'"
    "r_poll_hook R mg d w = (w', d') \<Longrightarrow> ?P w'"
    by (rule outside_keepsD[OF k v]; assumption)+
qed

lemma careful_update:
  "optimistic L R \<Longrightarrow> versioned L w \<Longrightarrow> r_update R mg w = (w', x) \<Longrightarrow> versioned L w' \<and> later L w w'"
  using careful_world(1)[of L R w "r_update R"] by simp

lemma careful_put:
  assumes "optimistic L R" "r_governor R = Some (getg, putg)" "versioned L w"
  shows "versioned L (putg g w) \<and> later L w (putg g w)"
  using assms(3) optimisticD(3,4)[OF assms(1,2)] by (simp add: versioned_def later_def)

interpretation wary: step_invariant R "careful L w0 b R" "if b then UNIV else {XUpdate, XDelete}"
  for R :: "('w, 'p, 'c) reconciler" and L w0 b
proof (unfold_locales, goal_cases api ext connect observe clock poll mg errs emit metrics granted deferred release disconnect)
  case api
  from api(1) show ?case by (rule careful_step) (auto dest: careful_world(1)[OF _ _ api(2,3)])
next
  case ext
  from ext(1) show ?case
    by (rule careful_step) (use ext(4) in \<open>auto dest: careful_world(2)[OF _ _ ext(2,3)] split: if_splits\<close>)
next
  case connect
  from connect(1) show ?case by (rule careful_step) (auto dest: careful_world(3)[OF _ _ connect(2)])
next
  case observe
  from observe(1) show ?case by (rule careful_step) (auto dest: careful_world(4)[OF _ _ observe(2)])
next
  case clock
  from clock(1) show ?case by (rule careful_step) (auto dest: careful_world(6)[OF _ _ clock(2)])
next
  case poll
  from poll(1) show ?case by (rule careful_step) (auto dest: careful_world(7)[OF _ _ poll(2)])
next
  case granted
  from granted(1) show ?case by (rule careful_step) (auto dest: careful_put[OF _ granted(2)])
next
  case deferred
  from deferred(1) show ?case by (rule careful_step) (auto dest: careful_put[OF _ deferred(2)])
next
  case release
  then show ?case
    by (rule careful_step)
      (auto simp: release_slot_def Let_def release_once_def dest: careful_put split: option.split prod.split)
next
  case disconnect
  then show ?case
    by (rule careful_step) (auto simp: disconnect_def Let_def split: prod.split option.split
        dest: careful_world(5))
qed (erule careful_step; auto)+

section \<open>Walking to Create\<close>

text \<open>Code that ends the pass.\<close>

definition halts :: "('s, 'r, 'a) pass \<Rightarrow> bool" where
  "halts m \<longleftrightarrow> (\<forall>Q s. wp m Q (\<lambda>_ _. True) s)"

lemma halts_stop: "halts (stop r)"
  by (simp add: halts_def wps)

lemma halts_andthen: "(\<And>a. halts (f a)) \<Longrightarrow> halts (andthen m f)"
  unfolding halts_def wp_andthen by (blast intro: wp_mono[OF wp_True])

lemma halts_if: "halts m \<Longrightarrow> halts n \<Longrightarrow> halts (if b then m else n)"
  by simp

lemma halts_option: "halts m \<Longrightarrow> (\<And>a. halts (f a)) \<Longrightarrow> halts (case x of None \<Rightarrow> m | Some a \<Rightarrow> f a)"
  by (simp split: option.split)

lemma halts_let: "(\<And>x. halts (f x)) \<Longrightarrow> halts (let x = y in f x)"
  by simp

lemma halts_status: "halts (write_status R out)" "halts (conclude R cs out)"
  unfolding write_status_def conclude_def by (intro halts_andthen halts_option halts_stop)+

lemma halts_defer: "halts (defer_reconcile R pristine d)"
  unfolding defer_reconcile_def by (intro halts_if halts_andthen halts_status halts_stop)

lemma halts_annotations: "halts (annotations_failed e)"
  unfolding annotations_failed_def by (intro halts_andthen halts_stop)

lemmas halting = halts_if halts_option halts_let halts_andthen halts_stop halts_status halts_defer halts_annotations

lemma halts_finalize: "halts (finalize R)"
  unfolding finalize_def by (intro halting)

lemma halts_delete: "halts (delete_external R k pristine c)"
  unfolding delete_external_def by (intro halting)

lemma walk_halts: "halts m \<Longrightarrow> wp m Q (\<lambda>_ _. True) s"
  by (simp add: halts_def)

text \<open>Steps between the calls: the object in hand stays, the world moves on.\<close>

definition drift ::
  "('w, 'p) api_log \<Rightarrow> ('w, 'p, 'c) reconciler \<Rightarrow> ('w, 'p) rstate \<Rightarrow> ('w, 'p) rstate \<Rightarrow> bool" where
  "drift L R s s' \<longleftrightarrow> rs_mg s' = rs_mg s \<and> later L (rs_world s) (rs_world s')
     \<and> set (rs_trace s) \<subseteq> set (rs_trace s')"

lemma drift_refl [simp]: "drift L R s s"
  by (simp add: drift_def)

lemma drift_trans: "drift L R s s' \<Longrightarrow> drift L R s' s'' \<Longrightarrow> drift L R s s''"
  unfolding drift_def by (auto intro: later_trans)

lemma later_clock: "optimistic L R \<Longrightarrow> r_now R w = (w', t) \<Longrightarrow> later L w w'"
  using outside_keepsD(6)[of R "later L w" w w' t] optimisticD(1)[of L R w] by simp

lemma later_put: "optimistic L R \<Longrightarrow> r_governor R = Some (getg, putg) \<Longrightarrow> later L w (putg g w)"
  by (simp add: later_def optimisticD(3,4))

lemma drift_log: "drift L R s (log_ev e s)"
  "drift L R s (s\<lparr>rs_trace := op_metrics R op b @ rs_trace s\<rparr>)"
  by (auto simp: drift_def)

lemma drift_release: "optimistic L R \<Longrightarrow> drift L R s (release_slot R s)"
  by (auto simp: release_slot_def Let_def release_once_def drift_def later_put split: option.split prod.split)

lemma drift_gate:
  assumes "optimistic L R" "\<And>x s'. drift L R s s' \<Longrightarrow> Q x s'"
  shows "wp (gate R k) Q T s"
proof (intro walk_gate_full assms(2), goal_cases)
  case (2 getg putg w t es keys g)
  then show ?case
    by (auto simp: drift_def intro: later_trans[OF later_clock later_put] assms(1))
next
  case (3 getg putg w t es keys g d)
  then show ?case
    by (auto simp: drift_def intro: later_trans[OF later_clock later_put] assms(1))
qed (simp add: drift_def)

lemma drift_clock:
  "optimistic L R \<Longrightarrow> (\<And>t s'. drift L R s s' \<Longrightarrow> inst t \<le> al_time L (rs_world s') \<Longrightarrow> Q t s') \<Longrightarrow>
   wp (clock R) Q T s"
  by (intro walk_clock) (auto simp: drift_def later_clock optimisticD(5))

text \<open>A property of the object in hand and of the world that drifting keeps.\<close>

definition drifts :: "('w, 'p) api_log \<Rightarrow> ('w, 'p, 'c) reconciler \<Rightarrow> (('w, 'p) rstate \<Rightarrow> bool) \<Rightarrow> bool" where
  "drifts L R P \<longleftrightarrow> (\<forall>s s'. P s \<longrightarrow> drift L R s s' \<longrightarrow> P s')"

lemma driftsD: "drifts L R P \<Longrightarrow> P s \<Longrightarrow> drift L R s s' \<Longrightarrow> P s'"
  unfolding drifts_def by blast

lemma drifting_gated:
  assumes "optimistic L R" "drifts L R P" "drifts L R P'" "P s"
    and call: "\<And>s. P s \<Longrightarrow> wp call (\<lambda>x s. (case x of Inl e \<Rightarrow> True | Inr a \<Rightarrow> P' s)) (\<lambda>_ _. True) s"
  shows "wp (gated R k pristine call) (\<lambda>x s. (case x of Inl e \<Rightarrow> True | Inr a \<Rightarrow> P' s)) (\<lambda>_ _. True) s"
  unfolding gated_def
proof (intro walk_andthen drift_gate[OF assms(1)] walk_option walk_halts[OF halts_defer], goal_cases)
  case (1 x s')
  then have "P s'" using driftsD[OF assms(2,4)] by blast
  from call[OF this] show ?case
    by (rule wp_mono) (auto simp: wps split: sum.splits intro: driftsD[OF assms(3) _ drift_release[OF assms(1)]])
qed

text \<open>The invariant and what a stretch establishes.\<close>

lemma walk_both:
  assumes "ends G (\<lambda>_. G) m" "G s" "wp m Q (\<lambda>_ _. True) s"
    and "\<And>a s'. G s' \<Longrightarrow> Q a s' \<Longrightarrow> Q' a s'" "\<And>r s'. G s' \<Longrightarrow> T r s'"
  shows "wp m Q' T s"
proof -
  have "wp m (\<lambda>_. G) (\<lambda>_. G) s" using assms(1,2) by (simp add: ends_def)
  from wp_conj[OF this assms(3)] show ?thesis by (rule wp_mono) (use assms(4,5) in auto)
qed

section \<open>The stretches\<close>

text \<open>\<open>reading\<close>: the object in hand is the one \<open>ob\<close> the pass got, as far as the handshake goes.\<close>

definition reading ::
  "('w, 'p) api_log \<Rightarrow> 'p managed \<Rightarrow> ('w, 'p) rstate \<Rightarrow> bool" where
  "reading L ob s \<longleftrightarrow> got ob (rs_trace s) \<and> ob \<in> set (al_objects L (rs_world s))
     \<and> om_resource_version (rs_mg s) = om_resource_version ob \<and> same_markers ob (rs_mg s)"

text \<open>
  \<open>waited\<close>: the recovery period of \<open>ob\<close> is over, and it was on the server unless nothing was written yet.
\<close>

definition waited ::
  "('w, 'p) api_log \<Rightarrow> ('w, 'p, 'c) reconciler \<Rightarrow> 'w \<Rightarrow> 'p managed \<Rightarrow> ('w, 'p) rstate \<Rightarrow> bool" where
  "waited L R w0 ob s \<longleftrightarrow> got ob (rs_trace s) \<and> recovered L R ob (rs_world s)
     \<and> get_create_succeeded (rs_mg s) = get_create_succeeded ob
     \<and> (held_between L w0 ob (rs_world s) \<or>
        ob \<in> set (al_objects L (rs_world s)) \<and> om_resource_version (rs_mg s) = om_resource_version ob)"

definition ready ::
  "('w, 'p) api_log \<Rightarrow> ('w, 'p, 'c) reconciler \<Rightarrow> 'w \<Rightarrow> 'p managed \<Rightarrow> ('w, 'p) rstate \<Rightarrow> bool" where
  "ready L R w0 ob s \<longleftrightarrow> got ob (rs_trace s) \<and> recovered L R ob (rs_world s) \<and> settled L R ob (rs_world s)
     \<and> (held_between L w0 ob (rs_world s) \<or>
        ob \<in> set (al_objects L (rs_world s)) \<and> om_resource_version (rs_mg s) = om_resource_version ob)"

lemma got_mono: "got ob tr \<Longrightarrow> set tr \<subseteq> set tr' \<Longrightarrow> got ob tr'"
  unfolding got_def by blast

lemma stages_drift:
  "drifts L R (reading L ob)" "drifts L R (waited L R w0 ob)" "drifts L R (ready L R w0 ob)"
  unfolding drifts_def drift_def reading_def waited_def ready_def
  by (auto intro: later_known later_held later_grace got_mono)

lemma after_op: "drifts L R P \<Longrightarrow> P s \<Longrightarrow> P (s\<lparr>rs_trace := op_metrics R op b @ rs_trace s\<rparr>)"
  using driftsD drift_log(2) by blast

lemma fetch_reading:
  assumes "optimistic L R"
  shows "wp (fetch R) (\<lambda>_ s. \<exists>ob. reading L ob s) (\<lambda>_ _. True) s"
  unfolding fetch_def
  by (intro walk_andthen walk_modify walk_api walk_record_op walk_option walk_stop walk_ret)
    (auto simp: reading_def got_def same_markers_def dest: optimisticD(6)[OF assms])

lemma pausing: "P s \<Longrightarrow> wp (check_paused R) (\<lambda>_. P) (\<lambda>_ _. True) s"
  unfolding check_paused_def
  by (intro walk_andthen[of "asks _"] walk_asks walk_if walk_ret walk_halts halting)

lemma orphaning: "P s \<Longrightarrow> wp (check_orphaned R) (\<lambda>_. P) (\<lambda>_ _. True) s"
  unfolding check_orphaned_def
  by (intro walk_andthen[of "asks _"] walk_asks walk_if walk_ret walk_halts halting halts_finalize)

lemma observing_only: "P s \<Longrightarrow> wp (check_observe_only R x) (\<lambda>_. P) (\<lambda>_ _. True) s"
  unfolding check_observe_only_def
  by (intro walk_andthen[of "asks _"] walk_asks walk_if walk_ret walk_halts halting)

lemma complaining: "drifts L R P \<Longrightarrow> P s \<Longrightarrow> wp check_ready_contract (\<lambda>_. P) T s"
  unfolding check_ready_contract_def
  by (intro walk_andthen walk_asks walk_if walk_ret walk_emit) (auto intro: driftsD drift_log)

lemma connecting:
  assumes "optimistic L R" "reading L ob s"
  shows "wp (connect_client R pristine) (\<lambda>_. reading L ob) (\<lambda>_ _. True) s"
  unfolding connect_client_def
proof (rule walk_andthen, rule wp_mono[OF drifting_gated[OF assms(1) stages_drift(1) stages_drift(1) assms(2)]])
  fix s assume "reading L ob s"
  then show "wp (connect R) (\<lambda>x s. case x of Inl e \<Rightarrow> True | Inr a \<Rightarrow> reading L ob s) (\<lambda>_ _. True) s"
    by (intro walk_connect)
      (auto simp: reading_def got_def same_markers_def split: sum.split dest: optimisticD(9,10)[OF assms(1)]
        intro: later_known outside_keepsD(3)[OF optimisticD(1)[OF assms(1)] later_refl])
qed (auto intro!: walk_andthen[of "record_op _ _ _"] walk_record_op walk_sum walk_ret
    walk_halts[of "if _ then _ else _"] halting simp: after_op[OF stages_drift(1)])

lemma observing:
  assumes "optimistic L R" "reading L ob s"
  shows "wp (observe_external R k pristine unresolved c) (\<lambda>_. reading L ob) (\<lambda>_ _. True) s"
  unfolding observe_external_def
proof (rule walk_andthen, rule wp_mono[OF drifting_gated[OF assms(1) stages_drift(1) stages_drift(1) assms(2)]])
  fix s assume "reading L ob s"
  then show "wp (observe R c) (\<lambda>x s. case x of Inl e \<Rightarrow> True | Inr a \<Rightarrow> reading L ob s) (\<lambda>_ _. True) s"
    by (intro walk_observe)
      (auto simp: reading_def got_def same_markers_def split: sum.split dest: optimisticD(11,12)[OF assms(1)]
        intro: later_known outside_keepsD(4)[OF optimisticD(1)[OF assms(1)] later_refl])
qed (auto intro!: walk_andthen[of "record_op _ _ _"] walk_record_op walk_sum walk_ret
    walk_halts[of "if _ then _ else _"] halting simp: after_op[OF stages_drift(1)])

text \<open>An update of the version that was got finds it on the server.\<close>

lemma update_held:
  assumes "optimistic L R" "versioned L w" "later L w0 w" "ob \<in> set (al_objects L w)"
    and "om_resource_version mg = om_resource_version ob" "r_update R mg w = (w', mg', None)"
  shows "held_between L w0 ob w'"
proof -
  obtain ob' where o: "om_resource_version ob' = om_resource_version mg" "held_between L w ob' w'"
    using optimisticD(8)[OF assms(1,6)] by blast
  have w: "versioned L w'" "later L w w'" using careful_update[OF assms(1,2,6)] by simp_all
  have "ob' = ob"
    using one_of_a_version[OF w(1) held_known[OF o(2)] later_known[OF assms(4) w(2)]] o(1) assms(5) by simp
  with held_later[OF assms(3) o(2)] show ?thesis by simp
qed

lemma markers_edited [simp]:
  "get_create_succeeded (remove_annotations mg [key_create_pending]) = get_create_succeeded mg"
  by (simp add: marker_defs)

lemma versions_edited [simp]:
  "om_resource_version (remove_annotations mg ks) = om_resource_version mg"
  "om_resource_version (set_create_pending mg t) = om_resource_version mg"
  "om_resource_version (add_finalizer mg f) = om_resource_version mg"
  by (simp_all add: marker_defs remove_annotations_def add_annotations_def add_finalizer_def split: option.split)

lemma handshaking:
  assumes "optimistic L R" "versioned L (rs_world s)" "later L w0 (rs_world s)" "reading L ob s"
    and "unresolved = external_create_incomplete ob"
  shows "wp (resolve_handshake R unresolved x)
    (\<lambda>_ s. ob_exists x \<or> was_deleted (rs_mg s) \<or> waited L R w0 ob s) (\<lambda>_ _. True) s"
proof (cases "unresolved \<and> \<not> ob_exists x \<and> \<not> was_deleted (rs_mg s)")
  case True
  have "wp (clock R) (\<lambda>now. wp (if create_pending_during (inst now) (rs_mg s) (r_recovery_grace R)
        then conclude R cs out
        else andthen (edit_mg (\<lambda>mg. remove_annotations mg [key_create_pending])) (\<lambda>_.
          andthen (api UpdateManaged (r_update R)) (\<lambda>e. case e of
              Some e \<Rightarrow> if r_is_conflict R e then stop (rate_limited_requeue, None) else annotations_failed e
            | None \<Rightarrow> ret ()))) (\<lambda>_. waited L R w0 ob) (\<lambda>_ _. True)) (\<lambda>_ _. True) s" for cs out
  proof (rule walk_clock)
    fix w t assume now: "r_now R (rs_world s) = (w, t)"
    let ?s = "s\<lparr>rs_world := w\<rparr>" and ?m = "remove_annotations (rs_mg s) [key_create_pending]"
    have w: "versioned L w" "later L (rs_world s) w" using careful_world(6)[OF assms(1,2) now] by simp_all
    have r: "ob \<in> set (al_objects L w)" "got ob (rs_trace s)"
      "om_resource_version (rs_mg s) = om_resource_version ob" "same_markers ob (rs_mg s)"
      using assms(4) later_known[OF _ w(2)] by (auto simp: reading_def)
    have "waited L R w0 ob (log_ev (ApiCall UpdateManaged ?m mg None) (s\<lparr>rs_world := w', rs_mg := mg\<rparr>))"
      if up: "r_update R ?m w = (w', mg, None)"
        and over: "\<not> create_pending_during (inst t) (rs_mg s) (r_recovery_grace R)" for w' mg
    proof -
      have "held_between L w0 ob w'"
        by (rule update_held[OF assms(1) w(1) later_trans[OF assms(3) w(2)] r(1) _ up]) (simp add: r(3))
      moreover have "recovered L R ob w"
        using during_ends(1)[OF over optimisticD(5)[OF assms(1) now]] r(4)
        by (simp add: recovered_def during_same(1)[of ob] same_markers_def)
      moreover have "later L w w'" using careful_update[OF assms(1) w(1) up] by simp
      moreover have "get_create_succeeded mg = get_create_succeeded ob"
        using optimisticD(7)[OF assms(1) up] r(4) by (simp add: same_markers_def)
      ultimately show ?thesis using r(2) by (auto simp: waited_def got_def later_grace)
    qed
    then show "wp (if create_pending_during (inst t) (rs_mg s) (r_recovery_grace R) then conclude R cs out
        else andthen (edit_mg (\<lambda>mg. remove_annotations mg [key_create_pending])) (\<lambda>_.
          andthen (api UpdateManaged (r_update R)) (\<lambda>e. case e of
              Some e \<Rightarrow> if r_is_conflict R e then stop (rate_limited_requeue, None) else annotations_failed e
            | None \<Rightarrow> ret ()))) (\<lambda>_. waited L R w0 ob) (\<lambda>_ _. True) ?s"
      by (intro walk_if walk_halts[of "conclude _ _ _"] halting walk_andthen walk_edit_mg walk_api walk_option
          walk_halts[of "if _ then _ else _"] walk_ret) simp_all
  qed
  then show ?thesis using True
    unfolding resolve_handshake_def by (auto simp: wps intro: wp_mono)
next
  case False
  then show ?thesis using assms(4,5)
    unfolding resolve_handshake_def
    by (auto simp: wps intro!: walk_clock walk_edit_mg walk_api walk_option walk_halts halting walk_ret
        simp: reading_def waited_def recovered_def same_markers_def)
qed

lemma gracing:
  assumes "optimistic L R" "ob_exists x \<or> was_deleted (rs_mg s) \<or> waited L R w0 ob s"
  shows "wp (check_creation_grace R x)
    (\<lambda>_ s. ob_exists x \<or> was_deleted (rs_mg s) \<or> ready L R w0 ob s) (\<lambda>_ _. True) s"
  unfolding check_creation_grace_def
proof (intro walk_if walk_ret walk_andthen[of "asks _"] walk_andthen[of "clock _"] walk_asks drift_clock[OF assms(1)]
    walk_halts halting, goal_cases)
  case (2 t s')
  then show ?case
    using assms(2) driftsD[OF stages_drift(2), of L R w0 ob s s'] during_same(2)[of "rs_mg s" ob]
    by (auto simp: drift_def waited_def ready_def settled_def dest: during_ends(2))
qed simp

lemma deleting:
  assumes "ob_exists x \<or> was_deleted (rs_mg s) \<or> ready L R w0 ob s"
  shows "wp (check_deleted R k pristine x c) (\<lambda>_ s. ob_exists x \<or> ready L R w0 ob s) (\<lambda>_ _. True) s"
  unfolding check_deleted_def
  by (intro walk_andthen[of "asks _"] walk_asks walk_if walk_ret walk_halts halts_if halts_delete halts_finalize)
    (use assms in auto)

text \<open>A write of the version in hand, which the server then held.\<close>

lemma writing:
  assumes "optimistic L R" "versioned L w" "later L w0 w" "ready L R w0 ob s" "rs_world s = w"
    and "om_resource_version mg = om_resource_version (rs_mg s)" "r_update R mg w = (w', mg', None)"
  shows "held_between L w0 ob w' \<and> later L w w'"
  using assms update_held[OF assms(1-3) _ _ assms(7)] careful_update[OF assms(1,2,7)]
  by (auto simp: ready_def intro: later_held)

lemma finalizing:
  assumes "optimistic L R" "r_add_finalizer R = api_add_finalizer (r_update R) f"
    and "versioned L (rs_world s)" "later L w0 (rs_world s)" "ob_exists x \<or> ready L R w0 ob s"
  shows "wp (ensure_finalizer R) (\<lambda>_ s. ob_exists x \<or> ready L R w0 ob s) (\<lambda>_ _. True) s"
  unfolding ensure_finalizer_def assms(2)
proof (intro walk_andthen walk_api walk_record_op walk_option walk_ret walk_halts halting, goal_cases)
  case (1 w mg e)
  let ?s = "log_ev (ApiCall AddFinalizer (rs_mg s) mg e) (s\<lparr>rs_world := w, rs_mg := mg\<rparr>)"
  have "ob_exists x \<or> ready L R w0 ob ?s"
  proof (cases "finalizer_exists (rs_mg s) f")
    case True
    then show ?thesis using 1 assms(5) by (auto simp: api_add_finalizer_def ready_def got_def)
  next
    case False
    then have "r_update R (add_finalizer (rs_mg s) f) (rs_world s) = (w, mg, None)"
      using 1 by (auto simp: api_add_finalizer_def split: prod.splits)
    then have "held_between L w0 ob w \<and> later L (rs_world s) w" if "ready L R w0 ob s"
      by (intro writing[OF assms(1,3,4) that, where mg = "add_finalizer (rs_mg s) f"]) simp_all
    then show ?thesis using assms(5) by (auto simp: ready_def got_def intro: later_grace)
  qed
  then show ?case using after_op[OF stages_drift(3), of L R w0 ob ?s] by blast
qed

lemma marking:
  assumes "optimistic L R" "versioned L (rs_world s)" "later L w0 (rs_world s)" "ready L R w0 ob s"
  shows "wp (mark_pending R) (\<lambda>_. vetted L R w0) (\<lambda>_ _. True) s"
  unfolding mark_pending_def
proof (intro walk_andthen[of "clock _"] walk_clock, goal_cases)
  case (1 w t)
  have w: "versioned L w" "later L (rs_world s) w" using careful_world(6)[OF assms(1,2) 1] by simp_all
  have r: "ready L R w0 ob (s\<lparr>rs_world := w\<rparr>)"
    using driftsD[OF stages_drift(3) assms(4)] w(2) by (simp add: drift_def)
  show ?case
  proof (intro walk_andthen walk_edit_mg walk_api walk_option walk_ret walk_halts halting, goal_cases)
    case (1 w' mg e)
    then have "held_between L w0 ob w' \<and> later L w w'"
      by (intro writing[OF assms(1) w(1) later_trans[OF assms(3) w(2)] r, where mg = "set_create_pending (rs_mg s) t"])
        simp_all
    then show ?case using r by (auto simp: ready_def vetted_def got_def intro: later_grace)
  qed
qed

section \<open>The pass\<close>

abbreviation wariness :: "('w, 'p) api_log \<Rightarrow> 'w \<Rightarrow> ('w, 'p, 'c) reconciler \<Rightarrow> ('w, 'p) rstate \<Rightarrow> bool" where
  "wariness L w0 R \<equiv> careful L w0 False R"

lemma warinessD:
  "wariness L w0 R s \<Longrightarrow> optimistic L R \<Longrightarrow> versioned L (rs_world s) \<and> later L w0 (rs_world s)"
  by (simp add: careful_def)

lemma careful_weaken: "careful L w0 True R s \<Longrightarrow> wariness L w0 R s"
  by (simp add: careful_def)

lemma wary_both:
  assumes "ends (wariness L w0 R) (\<lambda>_. wariness L w0 R) m" "wariness L w0 R s" "wp m Q (\<lambda>_ _. True) s"
    and "\<And>a s'. wariness L w0 R s' \<Longrightarrow> Q a s' \<Longrightarrow> wp (f a) Q' (\<lambda>_. wariness L w0 R) s'"
  shows "wp (andthen m f) Q' (\<lambda>_. wariness L w0 R) s"
  using walk_both[OF assms(1-3), of "\<lambda>a. wp (f a) Q' (\<lambda>_. wariness L w0 R)" "\<lambda>_. wariness L w0 R"] assms(4)
  by (simp add: wp_andthen)

lemma wary_rest:
  assumes "ends (wariness L w0 R) (\<lambda>_. wariness L w0 R) m" "wariness L w0 R s"
  shows "wp m (\<lambda>_. wariness L w0 R) (\<lambda>_. wariness L w0 R) s"
  using assms by (simp add: ends_def)

lemma ends_run: "ends G T m \<Longrightarrow> G s \<Longrightarrow> wp m (\<lambda>_. G) T s"
  by (simp add: ends_def)

lemma wary_called:
  "ends (careful L w0 True R) (\<lambda>_. careful L w0 True R) (andthen (ext XCreate (r_create R c)) (\<lambda>e.
     andthen (modify (release_slot R)) (\<lambda>_. andthen (record_op R OpCreate (e \<noteq> None)) (\<lambda>_.
       case e of Some e \<Rightarrow> create_failed R e | None \<Rightarrow> create_succeeded R))))"
  by (intro ending wary.k_ext wary.k_release wary.k_steps wary.k_stretches) simp_all

lemma wary_create:
  assumes "optimistic L R" "wariness L w0 R s" "ready L R w0 ob s"
  shows "wp (create_external R k pristine c) (\<lambda>_. wariness L w0 R) (\<lambda>_. wariness L w0 R) s"
  unfolding create_external_def
proof (rule wary_both[OF wary.k_gate assms(2) drift_gate[OF assms(1)]])
  fix s' assume "drift L R s s'"
  then show "ready L R w0 ob s'" using driftsD[OF stages_drift(3) assms(3)] by blast
next
  fix d s' assume s: "wariness L w0 R s'" "ready L R w0 ob s'"
  have "wp (mark_pending R) (\<lambda>_. vetted L R w0) (\<lambda>_ _. True) s'"
    using marking[OF assms(1) _ _ s(2)] warinessD[OF s(1) assms(1)] by blast
  note marked = wary_both[OF wary.k_stretches(11) s(1) this]
  have "ends (wariness L w0 R) (\<lambda>_. wariness L w0 R) (defer_reconcile R pristine d)" for d
    by (rule wary.k_defer) simp_all
  note deferred = ends_run[OF this s(1)]
  show "wp (case d of None \<Rightarrow> andthen (mark_pending R) (\<lambda>_. andthen (ext XCreate (r_create R c)) (\<lambda>e.
      andthen (modify (release_slot R)) (\<lambda>_. andthen (record_op R OpCreate (e \<noteq> None)) (\<lambda>_.
        case e of Some e \<Rightarrow> create_failed R e | None \<Rightarrow> create_succeeded R)))) | Some d \<Rightarrow> defer_reconcile R pristine d)
      (\<lambda>_. wariness L w0 R) (\<lambda>_. wariness L w0 R) s'"
  proof (intro walk_option deferred marked wp_mono[OF ends_run[OF wary_called]])
    fix s2 assume "wariness L w0 R s2" "vetted L R w0 s2"
    then show "careful L w0 True R s2" by (simp add: careful_def)
  qed (simp_all add: careful_weaken)
qed

lemma wary_check_create:
  assumes "optimistic L R" "wariness L w0 R s" "ob_exists x \<or> ready L R w0 ob s"
  shows "wp (check_create R k pristine x c) (\<lambda>_. wariness L w0 R) (\<lambda>_. wariness L w0 R) s"
  unfolding check_create_def
  by (intro walk_andthen walk_asks walk_if walk_ret wary_create[OF assms(1,2)]) (use assms(2,3) in auto)

lemma wary_with_client:
  assumes "optimistic L R" "r_add_finalizer R = api_add_finalizer (r_update R) f"
    and "wariness L w0 R s" "reading L ob s" "unresolved = external_create_incomplete ob"
  shows "wp (with_client R pristine unresolved c) (\<lambda>_. wariness L w0 R) (\<lambda>_. wariness L w0 R) s"
  unfolding with_client_def Let_def
proof (rule wary_both[OF wary.k_stretches(5) assms(3) observing[OF assms(1,4)]], goal_cases)
  case (1 x s1)
  note o = assms(1)
  have rest: "wp (andthen (check_late_initialized R x) (\<lambda>_. andthen (check_settled R x) (\<lambda>_. update_external R k pristine c)))
      (\<lambda>_. wariness L w0 R) (\<lambda>_. wariness L w0 R) s" if "wariness L w0 R s" for k s
    by (rule ends_run[rotated], rule that) (intro ending wary.k_stretches wary.k_calls; simp)
  show ?case
  proof (rule wary_both[OF wary.k_stretches(6) 1(1) complaining[OF stages_drift(1) 1(2)]], goal_cases)
    case (1 u2 s2)
    note w2 = warinessD[OF 1(1) o]
    show ?case
    proof (rule wary_both[OF wary.k_stretches(7) 1(1) handshaking[where ?w0.0 = w0, OF o _ _ 1(2) assms(5)]], goal_cases)
      case (3 u3 s3)
      show ?case
      proof (rule wary_both[OF wary.k_stretches(8) 3(1)
            observing_only[where P = "\<lambda>s. ob_exists x \<or> was_deleted (rs_mg s) \<or> waited L R w0 ob s", OF 3(2)]], goal_cases)
        case (1 u4 s4)
        show ?case
        proof (rule wary_both[OF wary.k_stretches(9) 1(1) gracing[OF o 1(2)]], goal_cases)
          case (1 u5 s5)
          show ?case
          proof (rule wary_both[OF wary.k_calls(1) 1(1) deleting[OF 1(2)]], goal_cases)
            case (2 u6 s6)
            note w6 = warinessD[OF 2(1) o]
            show ?case
            proof (rule wary_both[OF wary.k_stretches(10) 2(1) finalizing[OF o assms(2) _ _ 2(2)]], goal_cases)
              case (3 u7 s7)
              show ?case
                by (rule walk_andthen, rule wp_mono[OF wary_check_create[OF o 3]]) (rule rest, assumption+)
            qed (use w6 in simp_all)
          qed simp
        qed
      qed
    qed (use w2 in simp_all)
  qed
qed

lemma wary_pass:
  fixes R :: "('w, 'p, 'c) reconciler"
  assumes o: "optimistic L R" and f: "r_add_finalizer R = api_add_finalizer (r_update R) f"
    and s: "wariness L w0 R s"
  shows "wp (pass R) (\<lambda>_. wariness L w0 R) (\<lambda>_. wariness L w0 R) s"
  unfolding pass_def
proof (rule wary_both[OF wary.k_stretches(1) s fetch_reading[OF o]], erule exE, goal_cases)
  case (1 u1 s1 ob)
  show ?case
  proof (rule wary_both[OF wary.k_stretches(2) 1(1) pausing[where P = "reading L ob", OF 1(2)]], goal_cases)
    case (1 u2 s2)
    show ?case
    proof (rule wary_both[OF wary.k_stretches(3) 1(1) orphaning[where P = "reading L ob", OF 1(2)]], goal_cases)
      case (1 u3 s3)
      have i: "external_create_incomplete (rs_mg s3) = external_create_incomplete ob"
        using 1(2) by (simp add: reading_def same_markers_def external_create_incomplete_def)
      show ?case
      proof (intro walk_andthen[of "asks _"] walk_asks walk_let walk_finally, goal_cases)
        case 1
        have "wp (andthen (connect_client R pristine) (\<lambda>c. finally_do
            (with_client R pristine (external_create_incomplete (rs_mg s3)) c) (\<lambda>s. disconnect R (release_slot R s))))
            (\<lambda>_. wariness L w0 R) (\<lambda>_. wariness L w0 R) s3" for pristine
        proof (rule wary_both[OF wary.k_stretches(4) \<open>wariness L w0 R s3\<close> connecting[OF o \<open>reading L ob s3\<close>]], goal_cases)
          case (1 c s4)
          show ?case
            by (rule walk_finally, rule wp_mono[OF wary_with_client[OF o f 1 i]])
              (simp_all add: wary.keep_disconnect wary.keep_release)
        qed
        then show ?case by (rule wp_mono) (simp_all add: wary.keep_release)
      qed
    qed
  qed
qed

lemma metric_creates [simp]: "\<not> created []"
  by (simp add: created_def)

lemma fold_log_trace: "rs_trace (fold log_ev es s) = rev es @ rs_trace s"
  by (induction es arbitrary: s) simp_all

lemma fold_log_reads: "rs_world (fold log_ev es s) = rs_world s"
  by (induction es arbitrary: s) simp_all

lemma created_append: "created (map Metric ms @ tr) = created tr"
  by (induction ms) simp_all

lemma run_vetted:
  assumes "optimistic L R" "r_add_finalizer R = api_add_finalizer (r_update R) f" "versioned L w"
    and "reconcile R (begin_pass R w seen) = (s, out)" "created (rs_trace s)"
  shows "vetted L R w s"
proof -
  obtain s' ms where p: "pass R (metered R (begin_pass R w seen)) = (s', Inl out)"
    "s = fold log_ev (map Metric ms) s'" using assms(4) by (rule reconcile_run)
  have "wariness L w R (metered R (begin_pass R w seen))"
    using assms(3) by (simp add: careful_def metered_def begin_pass_def)
  from wary_pass[OF assms(1,2) this] have "wariness L w R s'" using p(1) by (simp add: wp_def)
  then have "vetted L R w s'"
    using assms(1,5) p(2) by (simp add: careful_def fold_log_trace rev_map created_append)
  then show ?thesis
    by (rule vetted_later) (simp_all add: p(2) fold_log_trace fold_log_reads)
qed

end
