(* ===== verification/Handshake_Props.thy ===== *)
theory Handshake_Props
  imports Handshake
begin

text \<open>When a pass may call Create although an earlier one may have created the resource already.\<close>

text \<open>
  C4: Create is never called on a stale read or in doubt.  On an API server that refuses updates of an old
  version, whatever its cached reads return and whoever else writes meanwhile: if a pass calls Create, the
  object it read was on the server during the pass.  If that object's handshake was unresolved, because a
  pass before it called Create and ended, or crashed, before it recorded the outcome, its recovery grace
  period is over by the end of the pass, and so is the creation grace period of a recorded success.
\<close>

theorem create_waits_out_handshake:
  assumes "optimistic L R" "r_add_finalizer R = api_add_finalizer (r_update R) f" "versioned L w"
    and "reconcile R (begin_pass R w seen) = (s, out)" "ExtCall XCreate m a r \<in> set (rs_trace s)"
  shows "\<exists>b ob. ApiCall GetManaged b ob None \<in> set (rs_trace s) \<and> held_between L w ob (rs_world s)
    \<and> (external_create_incomplete ob \<longrightarrow> \<not> create_pending_during (al_time L (rs_world s)) ob (r_recovery_grace R))
    \<and> \<not> create_succeeded_during (al_time L (rs_world s)) ob (r_creation_grace R)"
proof -
  have "created (rs_trace s)" using assms(5) by (auto simp: created_def list_ex_iff intro!: bexI[of _ "ExtCall XCreate m a r"])
  from run_vetted[OF assms(1-4) this] show ?thesis
    by (auto simp: vetted_def got_def recovered_def settled_def)
qed

text \<open>A server that keeps its log as a list, and a pass on an object left in doubt 200 seconds ago.\<close>

type_synonym log_world = "unit managed list \<times> instant"

definition fresh_version :: "unit managed list \<Rightarrow> string" where
  "fresh_version obs = concat (map om_resource_version obs) @ ''+''"

definition log_get :: "(log_world, unit) api" where
  "log_get mg w = (case fst w of [] \<Rightarrow> (w, mg, Some (new_err ''not found'')) | ob # _ \<Rightarrow> (w, ob, None))"

definition log_update :: "(log_world, unit) api" where
  "log_update mg w =
     (case fst w of
        ob # _ \<Rightarrow>
          if om_resource_version mg = om_resource_version ob
          then let new = mg\<lparr>om_resource_version := fresh_version (fst w)\<rparr> in ((new # fst w, snd w), new, None)
          else (w, mg, Some (new_err ''conflict''))
      | [] \<Rightarrow> (w, mg, Some (new_err ''not found'')))"

definition unreachable :: "(log_world, unit) api" where
  "unreachable mg w = (w, mg, Some (new_err ''unreachable''))"

definition log_demo :: "(log_world, unit, unit) reconciler" where
  "log_demo =
     \<lparr>r_new = demo_object, r_get = log_get, r_update = log_update, r_status_update = unreachable,
      r_critical = unreachable, r_add_finalizer = api_add_finalizer log_update ''f'', r_remove_finalizer = unreachable,
      r_connect = (\<lambda>mg w. (w, mg, Inr ())), r_disconnect = (\<lambda>w. (w, None)),
      r_observe = (\<lambda>_ mg w. (w, mg, Inr absent)),
      r_create = (\<lambda>_ mg w. (w, mg, None)), r_ext_update = (\<lambda>_ mg w. (w, mg, None)), r_delete = (\<lambda>_ mg w. (w, mg, None)),
      r_keyer = None, r_client_keyer = (\<lambda>_. None), r_governor = None,
      r_now = (\<lambda>w. ((fst w, snd w + second), Time (snd w) 0)),
      r_draw = (\<lambda>_ _. None), r_is_conflict = (\<lambda>_. False), r_is_not_found = (\<lambda>_. False),
      r_deep_equal = (\<lambda>a b. False), r_metrics = False, r_poll_interval = 60 * second,
      r_poll_hook = (\<lambda>_ d w. (w, d)), r_creation_grace = 30 * second,
      r_recovery_grace = 120 * second, r_reobserve = 15 * second\<rparr>"

definition log_of :: "(log_world, unit) api_log" where
  "log_of = \<lparr>al_objects = fst, al_time = snd\<rparr>"

lemma fresh_version: "fresh_version obs \<notin> om_resource_version ` set obs"
proof
  assume "fresh_version obs \<in> om_resource_version ` set obs"
  then obtain x where x: "x \<in> set (map om_resource_version obs)" "x = fresh_version obs" by auto
  have "length x \<le> length (concat (map om_resource_version obs))"
    using x(1) by (induction obs) auto
  then show False using x(2) by (simp add: fresh_version_def)
qed

lemma log_update_keeps:
  "later log_of w0 w \<Longrightarrow> later log_of w0 (fst (log_update mg w))"
  "versioned log_of w \<Longrightarrow> versioned log_of (fst (log_update mg w))"
  using fresh_version[of "fst w"]
  by (auto simp: log_update_def later_def versioned_def log_of_def Let_def suffix_Cons split: list.splits)

lemma log_demo_fields [simp]:
  "r_get log_demo = log_get" "r_update log_demo = log_update" "r_status_update log_demo = unreachable"
  "r_critical log_demo = unreachable" "r_add_finalizer log_demo = api_add_finalizer log_update ''f''"
  "r_remove_finalizer log_demo = unreachable" "r_connect log_demo = (\<lambda>mg w. (w, mg, Inr ()))"
  "r_disconnect log_demo = (\<lambda>w. (w, None))" "r_observe log_demo c = (\<lambda>mg w. (w, mg, Inr absent))"
  "r_create log_demo c = (\<lambda>mg w. (w, mg, None))" "r_ext_update log_demo c = (\<lambda>mg w. (w, mg, None))"
  "r_delete log_demo c = (\<lambda>mg w. (w, mg, None))" "r_governor log_demo = None"
  "r_now log_demo = (\<lambda>w. ((fst w, snd w + second), Time (snd w) 0))" "r_poll_hook log_demo = (\<lambda>_ d w. (w, d))"
  by (simp_all add: log_demo_def fun_eq_iff)

lemma log_get_world [simp]: "fst (log_get mg w) = w"
  by (simp add: log_get_def split: list.split)

lemma log_demo_keeps:
  assumes "\<And>mg w. P w \<Longrightarrow> P (fst (log_update mg w))" "\<And>w. P w \<Longrightarrow> P (fst w, snd w + second)"
  shows "outside_keeps log_demo P"
proof -
  have f: "P (fst (api_add_finalizer log_update f mg w))" if "P w" for f mg w
    using that assms(1)[OF that, of "add_finalizer mg f"] by (auto simp: api_add_finalizer_def split: prod.split)
  show ?thesis
    unfolding outside_keeps_def
  proof (intro conjI ballI allI impI)
    fix g mg w assume g: "g \<in> apis log_demo \<union> exts log_demo" and w: "P w"
    consider "g = log_get" | "g = log_update" | "g = api_add_finalizer log_update ''f''" | "g = unreachable" | "g = (\<lambda>mg w. (w, mg, None))"
      using g by (auto simp: apis_def exts_def)
    then show "P (fst (g mg w))" using w by cases (simp_all add: assms(1) f unreachable_def)
  qed (simp_all add: assms(2))
qed

lemma log_update_ok:
  assumes "log_update mg w = (w', mg', None)"
  shows "same_markers mg mg' \<and> (\<exists>ob. om_resource_version ob = om_resource_version mg \<and> held_between log_of w ob w')"
proof (cases "fst w")
  case Nil
  then show ?thesis using assms by (simp add: log_update_def)
next
  case (Cons ob obs)
  then have v: "om_resource_version ob = om_resource_version mg"
    and w': "w' = (mg' # fst w, snd w)" and mg': "mg' = mg\<lparr>om_resource_version := fresh_version (fst w)\<rparr>"
    using assms by (auto simp: log_update_def Let_def split: if_splits)
  have "held_between log_of w ob w'"
    unfolding held_between_def by (rule exI[of _ obs]) (simp add: log_of_def w' Cons suffix_Cons)
  moreover have "same_markers mg mg'" unfolding mg' by (simp add: same_markers_def marker_defs)
  ultimately show ?thesis using v by blast
qed

lemma log_demo_optimistic: "optimistic log_of log_demo"
proof -
  have k: "outside_keeps log_demo (later log_of w0)" for w0
    by (rule log_demo_keeps[where P = "later log_of w0", OF log_update_keeps(1)]) (auto simp: later_def log_of_def)
  have v: "outside_keeps log_demo (versioned log_of)"
    by (rule log_demo_keeps[where P = "versioned log_of", OF log_update_keeps(2)]) (auto simp: versioned_def log_of_def)
  have g: "mg' \<in> set (fst w')" if "log_get mg w = (w', mg', None)" for mg w w' mg'
    using that by (auto simp: log_get_def split: list.splits)
  show ?thesis
    unfolding optimistic_def using k v log_update_ok g
    by (auto simp: log_of_def same_markers_def)
qed

definition in_doubt :: "unit managed" where
  "in_doubt = (set_create_pending demo_object noon)\<lparr>om_finalizers := [''f'']\<rparr>"

definition log_run :: "(log_world, unit) rstate \<times> outcome" where
  "log_run = reconcile log_demo (begin_pass log_demo ([in_doubt], inst noon + 200 * second) [])"

lemma noon_marker: "printable noon" "stored_marker noon = noon" "inst noon \<noteq> 0"
  unfolding stored_marker_def by code_simp+

lemma in_doubt_annotation:
  "annotation in_doubt k = (if k = key_create_pending then format_rfc3339 noon else [])"
  by (simp add: in_doubt_def set_create_pending_def demo_object_def blank_meta_def object_meta.defs)

lemma in_doubt_fields:
  "mg_conditions in_doubt = []" "om_resource_version in_doubt = ''1''" "om_finalizers in_doubt = [''f'']"
  "om_deletion in_doubt = None"
  by (simp_all add: in_doubt_def demo_object_def blank_meta_def object_meta.defs set_create_pending_def add_annotations_def)

lemma in_doubt_switches:
  "is_paused in_doubt = False" "was_deleted in_doubt = False" "external_create_incomplete in_doubt"
  "create_pending_during t in_doubt d \<longleftrightarrow> time_sub t (inst noon) < d" "ready_not_set_after_observe in_doubt = False"
  using noon_marker
  by (simp_all add: in_doubt_annotation in_doubt_fields is_paused_def was_deleted_def external_create_incomplete_def
      get_create_pending_def get_create_succeeded_def get_create_failed_def marker_time_format incomplete_markers_def
      zero_time_def is_zero_def after_def key_defs create_pending_during_def ready_not_set_after_observe_def condition_consts)

lemma versions_apart [simp]:
  "was_deleted (mg\<lparr>om_resource_version := v\<rparr>) = was_deleted mg"
  "should_only_observe (mg\<lparr>om_resource_version := v\<rparr>) = should_only_observe mg"
  "should_create (mg\<lparr>om_resource_version := v\<rparr>) = should_create mg"
  "create_succeeded_during t (mg\<lparr>om_resource_version := v\<rparr>) d = create_succeeded_during t mg d"
  "finalizer_exists (mg\<lparr>om_resource_version := v\<rparr>) f = finalizer_exists mg f"
  by (simp_all add: was_deleted_def should_only_observe_def should_create_def management_policy_def
      create_succeeded_during_def marker_defs finalizer_exists_iff)

definition cleared :: "unit managed" where
  "cleared = remove_annotations in_doubt [key_create_pending]"

lemma cleared_switches:
  "was_deleted cleared = False" "should_only_observe cleared = False" "should_create cleared"
  "create_succeeded_during t cleared d = False" "finalizer_exists cleared ''f''"
  "om_resource_version cleared = ''1''"
  using in_doubt_switches in_doubt_fields
  by (simp_all add: cleared_def was_deleted_def policy_simps management_policy_def in_doubt_annotation key_defs
      create_succeeded_during_def get_create_succeeded_def finalizer_exists_iff is_zero_def zero_time_def Let_def)

lemma log_run_creates: "list_ex is_creation (rs_trace (fst log_run))"
  by (simp add: log_run_def begin_pass_def pass_unfold step_unfold in_doubt_switches in_doubt_fields
      log_demo_def absent_def log_get_def log_update_def api_add_finalizer_def unreachable_def time_sub_def cleared_def[symmetric] cleared_switches)

theorem create_waits_out_handshake_witness:
  "\<exists>b ob. ApiCall GetManaged b ob None \<in> set (rs_trace (fst log_run))
     \<and> held_between log_of ([in_doubt], inst noon + 200 * second) ob (rs_world (fst log_run))"
proof -
  obtain m a r where "ExtCall XCreate m a r \<in> set (rs_trace (fst log_run))"
    using log_run_creates by (auto simp: list_ex_iff elim!: is_creation.elims)
  moreover have "reconcile log_demo (begin_pass log_demo ([in_doubt], inst noon + 200 * second) [])
      = (fst log_run, snd log_run)" by (simp add: log_run_def)
  moreover have "versioned log_of ([in_doubt], inst noon + 200 * second)" by (simp add: versioned_def log_of_def)
  ultimately show ?thesis
    using create_waits_out_handshake[OF log_demo_optimistic, of "''f''"] by fastforce
qed

end
