(* ===== verification/Recorded.thy ===== *)
theory Recorded
  imports Http_Signal Errors
begin

text \<open>
  src/pkg/reconciler/reconcilertest: the recorded responses of vendors, moved to the present
  (recorded.go), and the checks a provider's tests run against them (ratelimit.go).  The embedded files,
  \<open>http.ReadResponse\<close> with the body it read, \<open>fmt.Sprintf\<close>, the error of an unreadable date and the
  machine's zones are parameters.  The server under \<open>baseURL\<close> is the response it gives, and the network
  between it and the provider is part of the call.
\<close>

section \<open>The recordings\<close>

record recordings =
  rd_entries :: "string list"
  rd_file :: "string \<Rightarrow> err + string"
  rd_read :: "string \<Rightarrow> err + response \<times> (err + string)"
  rd_sprintf :: "string \<Rightarrow> string list \<Rightarrow> string"
  rd_bad_time :: "string \<Rightarrow> err"
  rd_zones :: "string \<Rightarrow> instant \<Rightarrow> int option"

definition github_200_healthy :: string where "github_200_healthy = ''github-200-healthy''"
definition github_403_primary_exhausted :: string where
  "github_403_primary_exhausted = ''github-403-primary-exhausted''"
definition github_403_secondary_retry_after :: string where
  "github_403_secondary_retry_after = ''github-403-secondary-retry-after''"
definition github_429_retry_after :: string where "github_429_retry_after = ''github-429-retry-after''"
definition azure_devops_200_advisory :: string where "azure_devops_200_advisory = ''azure-devops-200-advisory''"
definition azure_devops_429_blocked :: string where "azure_devops_429_blocked = ''azure-devops-429-blocked''"
definition service_503_retry_after_date :: string where
  "service_503_retry_after_date = ''service-503-retry-after-date''"

definition recorded_dir :: string where "recorded_dir = ''recorded''"
definition header_date :: string where "header_date = ''Date''"

definition trim_suffix :: "string \<Rightarrow> string \<Rightarrow> string" where
  "trim_suffix s x = (if suffix x s then take (length s - length x) s else s)"

definition recorded_response_names :: "recordings \<Rightarrow> string list" where
  "recorded_response_names R = sort (map (\<lambda>e. trim_suffix e ''.http'') (rd_entries R))"

section \<open>Moving a recording to the present\<close>

text \<open>\<open>strconv.ParseInt(v, 10, 64)\<close>\<close>

definition parse_int :: "string \<Rightarrow> int option" where
  "parse_int v =
     (case strip_sign v of (neg, r) \<Rightarrow>
        if r = [] \<or> \<not> list_all is_digit r then None
        else let n = (if neg then - digits_val 0 r else digits_val 0 r)
             in if in_i64 n then Some n else None)"

text \<open>
  \<open>time.Unix(epoch, 0).Add(d).Unix()\<close>: the seconds since the year 1 are an \<open>int64\<close>; the conversions from
  and to Unix time wrap, and \<open>Add\<close> saturates.
\<close>

definition unix_add :: "int \<Rightarrow> duration \<Rightarrow> int" where
  "unix_add epoch d =
     (let s = i64 (epoch + unix_epoch) + d div second
      in i64 ((if max_int64 < s then max_int64 else if s < min_int64 then - max_int64 else s) - unix_epoch))"

definition header_set :: "string \<Rightarrow> string \<Rightarrow> header \<Rightarrow> header" where
  "header_set k v h = Mapping.update k [v] h"

definition move_reset :: "duration \<Rightarrow> header \<Rightarrow> header" where
  "move_reset shift h =
     (let v = header_get h header_reset in
      if v = [] then h
      else case parse_int v of None \<Rightarrow> h
        | Some epoch \<Rightarrow> header_set header_reset (dec_int (unix_add epoch shift)) h)"

definition move_retry_after :: "(string \<Rightarrow> instant \<Rightarrow> int option) \<Rightarrow> duration \<Rightarrow> header \<Rightarrow> header" where
  "move_retry_after zones shift h =
     (let v = header_get h header_retry_after in
      if v = [] then h
      else case parse_time zones v of None \<Rightarrow> h
        | Some t \<Rightarrow> header_set header_retry_after (http_time (time_add t shift)) h)"

definition recording_error :: "recordings \<Rightarrow> err \<Rightarrow> string \<Rightarrow> string \<Rightarrow> err" where
  "recording_error R e fmt name = (case wrapf (rd_sprintf R) (Some e) fmt [name] of None \<Rightarrow> e | Some e \<Rightarrow> e)"

definition recorded_response :: "recordings \<Rightarrow> string \<Rightarrow> instant \<Rightarrow> err + response \<times> string" where
  "recorded_response R name now =
     (case rd_file R (recorded_dir @ ''/'' @ name @ ''.http'') of
        Inl e \<Rightarrow> Inl (recording_error R e ''no recorded response %q'' name)
      | Inr raw \<Rightarrow>
     (case rd_read R raw of
        Inl e \<Rightarrow> Inl (recording_error R e ''cannot parse recorded response %q'' name)
      | Inr (resp, Inl e) \<Rightarrow> Inl (recording_error R e ''cannot read recorded response %q'' name)
      | Inr (resp, Inr body) \<Rightarrow>
          let date = header_get (rp_header resp) header_date in
          (case parse_time (rd_zones R) date of
             None \<Rightarrow> Inl (recording_error R (rd_bad_time R date) ''recorded response %q has no valid Date header'' name)
           | Some recorded_at \<Rightarrow>
               let shift = time_sub now recorded_at
               in Inr (resp\<lparr>rp_header := move_retry_after (rd_zones R) shift (move_reset shift
                         (header_set header_date (http_time now) (rp_header resp)))\<rparr>, body))))"

section \<open>Capturing what a call reports\<close>

text \<open>A recorder of signals beside the world of the call.\<close>

type_synonym 'w recording_world = "'w \<times> signal list"

definition signal_recorder :: "signal \<Rightarrow> 'w recording_world \<Rightarrow> 'w recording_world" where
  "signal_recorder s w = (case w of (w, signals) \<Rightarrow> (w, signals @ [s]))"

type_synonym 'w rate_limited_call =
  "'w recording_world sink_ctx \<Rightarrow> response \<times> string \<Rightarrow> 'w recording_world \<Rightarrow> 'w recording_world \<times> err option"

record captured =
  cp_signals :: "signal list"
  cp_err :: "err option"
  cp_now :: instant

definition served :: "response \<Rightarrow> response" where
  "served resp = resp\<lparr>rp_header := Mapping.delete ''Content-Length'' (rp_header resp)\<rparr>"

text \<open>An error ends the test.\<close>

definition capture ::
  "recordings \<Rightarrow> ('w \<Rightarrow> 'w \<times> instant) \<Rightarrow> string \<Rightarrow> 'w rate_limited_call \<Rightarrow> 'w \<Rightarrow> 'w \<times> (err + captured)" where
  "capture R clock name call w =
     (case clock w of (w, now) \<Rightarrow>
      case recorded_response R name now of
        Inl e \<Rightarrow> (w, Inl e)
      | Inr (resp, body) \<Rightarrow>
          (case call (with_sink None (Some signal_recorder)) (served resp, body) (w, []) of ((w, signals), e) \<Rightarrow>
             (w, Inr \<lparr>cp_signals = signals, cp_err = e, cp_now = now\<rparr>)))"

section \<open>The checks\<close>

text \<open>What a check fails a test with.\<close>

datatype limit_failure =
    No_Capture err | Not_Throttled "signal list" | No_Key signal | No_Deadline signal
  | Call_Failed err | Not_Advisory "signal list" | Not_Silent signal_kind signal

definition throttle_failures :: "captured \<Rightarrow> limit_failure list" where
  "throttle_failures c =
     (let throttled = filter (\<lambda>s. classify s (cp_now c) = SignalThrottled) (cp_signals c) in
      if throttled = [] then [Not_Throttled (cp_signals c)]
      else concat (map (\<lambda>s.
             (if sg_key s = [] then [No_Key s] else [])
             @ (if signal_deadline s (cp_now c) > cp_now c then [] else [No_Deadline s])) throttled))"

definition advisory_failures :: "captured \<Rightarrow> limit_failure list" where
  "advisory_failures c =
     (case cp_err c of Some e \<Rightarrow> [Call_Failed e]
      | None \<Rightarrow>
          (case List.find (\<lambda>s. classify s (cp_now c) = SignalAdvisory) (cp_signals c) of
             Some s \<Rightarrow> (if sg_key s = [] then [No_Key s] else [])
           | None \<Rightarrow> [Not_Advisory (cp_signals c)]))"

definition silence_failures :: "captured \<Rightarrow> limit_failure list" where
  "silence_failures c =
     (case cp_err c of Some e \<Rightarrow> [Call_Failed e] | None \<Rightarrow> [])
     @ concat (map (\<lambda>s. let kind = classify s (cp_now c) in
                 if kind \<noteq> SignalNone then [Not_Silent kind s] else []) (cp_signals c))"

definition check_capture ::
  "(captured \<Rightarrow> limit_failure list) \<Rightarrow> 'w \<times> (err + captured) \<Rightarrow> 'w \<times> signal list \<times> limit_failure list" where
  "check_capture check x =
     (case x of (w, Inl e) \<Rightarrow> (w, [], [No_Capture e]) | (w, Inr c) \<Rightarrow> (w, cp_signals c, check c))"

definition assert_reports_throttle ::
  "recordings \<Rightarrow> ('w \<Rightarrow> 'w \<times> instant) \<Rightarrow> string \<Rightarrow> 'w rate_limited_call \<Rightarrow> 'w \<Rightarrow> 'w \<times> signal list \<times> limit_failure list" where
  "assert_reports_throttle R clock name call w = check_capture throttle_failures (capture R clock name call w)"

definition assert_reports_advisory ::
  "recordings \<Rightarrow> ('w \<Rightarrow> 'w \<times> instant) \<Rightarrow> string \<Rightarrow> 'w rate_limited_call \<Rightarrow> 'w \<Rightarrow> 'w \<times> signal list \<times> limit_failure list" where
  "assert_reports_advisory R clock name call w = check_capture advisory_failures (capture R clock name call w)"

definition assert_silent_when_healthy ::
  "recordings \<Rightarrow> ('w \<Rightarrow> 'w \<times> instant) \<Rightarrow> string \<Rightarrow> 'w rate_limited_call \<Rightarrow> 'w \<Rightarrow> 'w \<times> signal list \<times> limit_failure list" where
  "assert_silent_when_healthy R clock name call w = check_capture silence_failures (capture R clock name call w)"

text \<open>The subtests run one after the other, a failed one with what it failed with.\<close>

definition assert_reports_rate_limits ::
  "recordings \<Rightarrow> ('w \<Rightarrow> 'w \<times> instant) \<Rightarrow> 'w rate_limited_call \<Rightarrow> 'w \<Rightarrow> 'w \<times> (string \<times> limit_failure list) list" where
  "assert_reports_rate_limits R clock call w =
     (case assert_reports_throttle R clock github_429_retry_after call w of (w, _, a) \<Rightarrow>
      case assert_reports_advisory R clock azure_devops_200_advisory call w of (w, _, b) \<Rightarrow>
      case assert_silent_when_healthy R clock github_200_healthy call w of (w, _, c) \<Rightarrow>
        (w, [(''throttled 429'', a), (''advisory 200'', b), (''healthy 200'', c)]))"

end
