(* ===== verification/Recorded_Props.thy ===== *)
theory Recorded_Props
  imports Recorded Http_Props
begin

text \<open>
  A recording moved to the present keeps the time it leaves to its deadline, and a provider that sends its
  requests through the transport of src/pkg/ratelimit/httpsignal passes the checks on every recording.
\<close>

section \<open>Numbers and headers\<close>

lemma parse_number_dec:
  assumes "int n < 9007199254740992"
  shows "parse_number (dec_nat n) = Some (Fin (of_nat n))"
proof -
  have d: "dec_nat n \<noteq> []" "list_all is_digit (dec_nat n)" using dec_nat_digits by auto
  then show ?thesis
    using assms parse_float_digits[OF d] by (simp add: parse_number_def trim_digits digits_val_dec_nat)
qed

lemma parse_count_dec: "int n \<le> 2147483647 \<Longrightarrow> parse_count oob (dec_nat n) = Some (int n)"
  by (simp add: parse_count_def parse_number_dec f_min_def f_floor_def f_trunc_floor)

lemma parse_epoch_dec:
  assumes "0 < n" "int n \<le> 100000000000"
  shows "parse_epoch oob (dec_nat n) = Some ((int n + unix_epoch) * second)"
proof -
  have "f_mul (Fin 0) (Fin 1000000000) = Fin 0" by code_simp
  then show ?thesis using assms by (simp add: parse_epoch_def parse_number_dec modf_def f_trunc_floor)
qed

lemma parse_int_dec: "int n \<le> max_int64 \<Longrightarrow> parse_int (dec_nat n) = Some (int n)"
  using dec_nat_digits[of n]
  by (simp add: parse_int_def strip_sign_digits digits_val_dec_nat in_i64_def)

lemma dec_int_nat: "0 \<le> i \<Longrightarrow> dec_int i = dec_nat (nat i)"
  by (simp add: dec_int_def)

lemma header_get_set [simp]: "header_get (header_set k v h) k' = (if k' = k then v else header_get h k')"
  by (simp add: header_get_def header_set_def lookup_update')

lemma header_get_served: "k \<noteq> ''Content-Length'' \<Longrightarrow> header_get (rp_header (served r)) k = header_get (rp_header r) k"
  by (simp add: header_get_def served_def Mapping.lookup_delete_neq)

lemma weekday_less: "weekday t < 7"
  by (simp add: weekday_def nat_less_iff)

lemma parse_http_time: "printable (Time t 0) \<Longrightarrow> parse_time zones (http_time t) = Some (trunc_second t)"
  by (simp add: http_time_def parse_time_def parse_imf_date weekday_less)

lemma div_second: "d div second * second \<le> d" "(d :: int) < d div second * second + second"
  using div_mult_mod_eq[of d second] pos_mod_bound[of second d] pos_mod_sign[of second d] by linarith+

lemma unix_add_exact:
  assumes "0 \<le> n" "n \<le> 100000000000" "in_i64 d"
  shows "unix_add n d = n + d div second"
proof -
  have "- 9223372037 \<le> d div second" "d div second \<le> 9223372036"
    using assms(3) div_second[of d] unfolding in_i64_def by linarith+
  then show ?thesis using assms(1,2) by (simp add: unix_add_def unix_epoch_def i64_id in_i64_def Let_def)
qed

text \<open>Times from the year 1 to the year 2465 print in four digits.\<close>

lemma year_range:
  assumes "0 \<le> d" "d < 900000"
  shows "0 \<le> fst (year_of_days d)" "fst (year_of_days d) < 10000"
proof -
  define r where "r = d mod 146097"
  define b where "b = min 3 (r div 36524)"
  define r1 where "r1 = r - 36524 * b"
  define c where "c = r1 div 1461"
  define e where "e = min 3 (r1 mod 1461 div 365)"
  have r: "0 \<le> r" "r < 146097" by (simp_all add: r_def)
  then have b: "0 \<le> b" "b \<le> 3" "36524 * b \<le> r"
  proof -
    have "36524 * (r div 36524) \<le> r" using mult_div_mod_eq[of 36524 r] pos_mod_sign[of 36524 r] by linarith
    moreover have "0 \<le> r div 36524" using r by (simp add: pos_imp_zdiv_nonneg_iff)
    ultimately show "0 \<le> b" "b \<le> 3" "36524 * b \<le> r" unfolding b_def by linarith+
  qed
  then have "0 \<le> r1" "r1 < 146097" using r by (simp_all add: r1_def)
  then have c: "0 \<le> c" "c < 100" by (simp_all add: c_def pos_imp_zdiv_nonneg_iff div_less_iff_less_mult)
  have e: "0 \<le> e" "e \<le> 3" by (simp_all add: e_def pos_imp_zdiv_nonneg_iff)
  have a: "0 \<le> d div 146097" "d div 146097 < 7" using assms by auto
  have y: "fst (year_of_days d) = 400 * (d div 146097) + 100 * b + 4 * c + e + 1"
    unfolding year_of_days_def Let_def fst_conv r_def b_def r1_def c_def e_def ..
  show "0 \<le> fst (year_of_days d)" "fst (year_of_days d) < 10000" unfolding y using a b c e by linarith+
qed

lemma printable_range:
  assumes "0 \<le> t" "t < 77760000000000000000"
  shows "printable (Time t 0)"
proof -
  have d: "0 \<le> t div second div 86400" "t div second div 86400 < 900000" using assms by auto
  have "civil_year (Time t 0) = fst (year_of_days (t div second div 86400))"
    by (simp add: civil_year_def civil_of_days_def split: prod.split)
  then show ?thesis using year_range[OF d] by (simp add: printable_def valid_zone_def)
qed

text \<open>Digits are no date.\<close>

lemma look_up_digit:
  assumes "\<forall>n \<in> set ns. n \<noteq> [] \<and> \<not> is_digit (hd n)" "is_digit c"
  shows "look_up ns (c # cs) = None"
  using assms(1)
proof (induction ns)
  case (Cons n ns)
  then obtain a as where n: "n = a # as" "\<not> is_digit a" by (cases n) auto
  then have "ascii_lower c \<noteq> ascii_lower a" using assms(2) by (auto simp: is_digit_iff ascii_lower_def Let_def)
  with Cons n show ?case by (simp add: lower_def)
qed simp

lemma parse_time_dec: "parse_time zones (dec_nat n) = None"
proof -
  obtain c cs where c: "dec_nat n = c # cs" "is_digit c"
    using dec_nat_digits[of n] by (cases "dec_nat n") auto
  have "\<forall>n \<in> set short_days \<union> set long_days. n \<noteq> [] \<and> \<not> is_digit (hd n)" by code_simp
  then have "look_up short_days (c # cs) = None" "look_up long_days (c # cs) = None"
    using c(2) by (simp_all add: look_up_digit)
  then show ?thesis by (simp add: c parse_time_def parse_imf_def parse_rfc850_def parse_ansic_def)
qed

section \<open>A recording moved\<close>

text \<open>An instant \<open>t\<close>, seen at \<open>d\<close>, is moved to \<open>t'\<close>, seen at \<open>now\<close>, if less than a second of the wait is lost.\<close>

definition keeps_wait :: "instant \<Rightarrow> instant \<Rightarrow> instant \<Rightarrow> instant \<Rightarrow> bool" where
  "keeps_wait t d t' now \<longleftrightarrow> t' - now \<le> t - d \<and> t - d < t' - now + second"

lemma keeps_wait_trunc: "keeps_wait t d (trunc_second (t + (now - d))) now"
proof -
  have "trunc_second (t + (now - d)) \<le> t + (now - d)" "t + (now - d) < trunc_second (t + (now - d)) + second"
    unfolding trunc_second_def by (rule div_second)+
  then show ?thesis by (simp add: keeps_wait_def)
qed

lemma keeps_wait_div: "keeps_wait (n * second) d ((n + (now - d) div second) * second) now"
proof -
  show ?thesis using div_second[of "now - d"] unfolding keeps_wait_def distrib_right by linarith
qed

lemma recorded_responseD:
  assumes "rd_file R (recorded_dir @ ''/'' @ name @ ''.http'') = Inr raw" "rd_read R raw = Inr (resp, Inr body)"
    and "parse_time (rd_zones R) (header_get (rp_header resp) header_date) = Some d"
  obtains r where "recorded_response R name now = Inr (r, body)" "rp_status r = rp_status resp"
    "header_get (rp_header r) header_date = http_time now"
    "header_get (rp_header r) header_reset =
       (let v = header_get (rp_header resp) header_reset in
        case parse_int v of Some n \<Rightarrow> if v = [] then v else dec_int (unix_add n (time_sub now d)) | None \<Rightarrow> v)"
    "header_get (rp_header r) header_retry_after =
       (let v = header_get (rp_header resp) header_retry_after in
        case parse_time (rd_zones R) v of Some t \<Rightarrow> if v = [] then v else http_time (t + time_sub now d) | None \<Rightarrow> v)"
    "\<And>k. k \<notin> {header_date, header_reset, header_retry_after} \<Longrightarrow>
       header_get (rp_header r) k = header_get (rp_header resp) k"
proof -
  have h: "header_date \<noteq> header_reset" "header_date \<noteq> header_retry_after" "header_reset \<noteq> header_retry_after"
    by (simp_all add: header_date_def header_reset_def header_retry_after_def)
  let ?r = "resp\<lparr>rp_header := move_retry_after (rd_zones R) (time_sub now d) (move_reset (time_sub now d)
      (header_set header_date (http_time now) (rp_header resp)))\<rparr>"
  have "recorded_response R name now = Inr (?r, body)" using assms by (simp add: recorded_response_def Let_def)
  then show thesis
    by (rule that) (use h in \<open>auto simp: move_retry_after_def move_reset_def Let_def time_add_def split: option.split\<close>)
qed

text \<open>
  C34: a recording moved to the present keeps its waits.  When a recorded response with a readable date is
  moved to \<open>now\<close>, its date becomes the second of \<open>now\<close>; a reset in epoch seconds and a Retry-After that is
  a date stay as far ahead as they were on the day of the recording, less than a second short and never
  longer; a Retry-After in seconds, every other header and the status stay as they were.
\<close>

theorem recording_keeps_its_waits:
  assumes "rd_file R (recorded_dir @ ''/'' @ name @ ''.http'') = Inr raw" "rd_read R raw = Inr (resp, Inr body)"
    and "parse_time (rd_zones R) (header_get (rp_header resp) header_date) = Some d"
    and "in_i64 (now - d)" "printable (Time now 0)"
  shows "\<exists>r. recorded_response R name now = Inr (r, body) \<and> rp_status r = rp_status resp
    \<and> parse_time (rd_zones R) (header_get (rp_header r) header_date) = Some (trunc_second now)
    \<and> (\<forall>n. header_get (rp_header resp) header_reset = dec_nat n \<and> 0 < n \<and> int n \<le> 100000000000
         \<and> 0 < int n + (now - d) div second \<and> int n + (now - d) div second \<le> 100000000000 \<longrightarrow>
         (\<exists>t t'. parse_epoch oob (header_get (rp_header resp) header_reset) = Some t
           \<and> parse_epoch oob (header_get (rp_header r) header_reset) = Some t' \<and> keeps_wait t d t' now))
    \<and> (\<forall>n. header_get (rp_header resp) header_retry_after = dec_nat n \<longrightarrow>
         header_get (rp_header r) header_retry_after = dec_nat n)
    \<and> (\<forall>t. parse_time (rd_zones R) (header_get (rp_header resp) header_retry_after) = Some t
         \<and> printable (Time (t + (now - d)) 0) \<longrightarrow>
         (\<exists>t'. parse_time (rd_zones R) (header_get (rp_header r) header_retry_after) = Some t' \<and> keeps_wait t d t' now))
    \<and> (\<forall>k. k \<notin> {header_date, header_reset, header_retry_after} \<longrightarrow>
         header_get (rp_header r) k = header_get (rp_header resp) k)"
  using assms(1-3)
proof (rule recorded_responseD[where now = now])
  fix r
  assume r: "recorded_response R name now = Inr (r, body)" "rp_status r = rp_status resp"
    "header_get (rp_header r) header_date = http_time now"
    and reset: "header_get (rp_header r) header_reset =
       (let v = header_get (rp_header resp) header_reset in
        case parse_int v of Some n \<Rightarrow> if v = [] then v else dec_int (unix_add n (time_sub now d)) | None \<Rightarrow> v)"
    and retry: "header_get (rp_header r) header_retry_after =
       (let v = header_get (rp_header resp) header_retry_after in
        case parse_time (rd_zones R) v of Some t \<Rightarrow> if v = [] then v else http_time (t + time_sub now d) | None \<Rightarrow> v)"
    and other: "\<And>k. k \<notin> {header_date, header_reset, header_retry_after} \<Longrightarrow>
       header_get (rp_header r) k = header_get (rp_header resp) k"
  note shift = time_sub_exact[OF assms(4)]
  have "parse_epoch oob (header_get (rp_header r) header_reset) = Some ((int n + (now - d) div second + unix_epoch) * second)"
    if "header_get (rp_header resp) header_reset = dec_nat n" "0 < n" "int n \<le> 100000000000"
      "0 < int n + (now - d) div second" "int n + (now - d) div second \<le> 100000000000" for n
    using that dec_nat_digits[of n] parse_epoch_dec[of "nat (int n + (now - d) div second)"]
    by (simp add: reset shift parse_int_dec unix_add_exact assms(4) dec_int_nat)
  then have e: "\<exists>t t'. parse_epoch oob (header_get (rp_header resp) header_reset) = Some t
      \<and> parse_epoch oob (header_get (rp_header r) header_reset) = Some t' \<and> keeps_wait t d t' now"
    if "header_get (rp_header resp) header_reset = dec_nat n \<and> 0 < n \<and> int n \<le> 100000000000
         \<and> 0 < int n + (now - d) div second \<and> int n + (now - d) div second \<le> 100000000000" for n
    using that keeps_wait_div[of "int n + unix_epoch" d now] by (simp add: parse_epoch_dec add_ac)
  have "\<exists>t'. parse_time (rd_zones R) (header_get (rp_header r) header_retry_after) = Some t' \<and> keeps_wait t d t' now"
    if "parse_time (rd_zones R) (header_get (rp_header resp) header_retry_after) = Some t"
      "printable (Time (t + (now - d)) 0)" for t
  proof -
    have "header_get (rp_header resp) header_retry_after \<noteq> []"
      using that(1) by (auto simp: parse_time_def parse_imf_def parse_rfc850_def parse_ansic_def short_days_def long_days_def)
    then show ?thesis using that by (simp add: retry shift parse_http_time keeps_wait_trunc)
  qed
  with e show ?thesis
    using r other by (intro exI[of _ r]) (simp add: parse_http_time assms(5) retry parse_time_dec)
qed

section \<open>The recordings under src\<close>

text \<open>Names, status and the headers that matter of recorded/*.http.\<close>

definition github_date :: string where "github_date = ''Wed, 04 Nov 2026 23:49:16 GMT''"
definition azure_date :: string where "azure_date = ''Wed, 04 Nov 2026 23:49:25 GMT''"

definition github_limits :: "string \<Rightarrow> string \<Rightarrow> string \<Rightarrow> (string \<times> string) list" where
  "github_limits limit remaining used =
     [(header_date, github_date), (header_limit, limit), (header_remaining, remaining), (header_used, used),
      (header_resource, ''core''), (header_reset, ''1793839764'')]"

definition azure_limits :: "string \<Rightarrow> (string \<times> string) list" where
  "azure_limits retry =
     [(header_date, azure_date), (header_retry_after, retry), (header_resource, ''ATCommandsPerUser''),
      (header_limit, ''200''), (header_remaining, ''0''), (header_reset, ''1793836465'')]"

definition recorded_table :: "(string \<times> int \<times> (string \<times> string) list) list" where
  "recorded_table =
     [(github_200_healthy, 200, github_limits ''60'' ''59'' ''1''),
      (github_403_primary_exhausted, 403, github_limits ''5000'' ''0'' ''5000''),
      (github_403_secondary_retry_after, 403, (header_retry_after, ''60'') # github_limits ''5000'' ''4890'' ''110''),
      (github_429_retry_after, 429, (header_retry_after, ''60'') # github_limits ''5000'' ''0'' ''5000''),
      (azure_devops_200_advisory, 200, (header_delay, ''0.512'') # azure_limits ''10''),
      (azure_devops_429_blocked, 429, azure_limits ''30''),
      (service_503_retry_after_date, 503,
         [(header_date, github_date), (header_retry_after, ''Wed, 04 Nov 2026 23:51:16 GMT'')])]"

definition read_headers :: "string list" where
  "read_headers = [header_date, header_retry_after, header_remaining, header_limit, header_used, header_reset,
     header_delay, header_resource]"

definition field :: "(string \<times> string) list \<Rightarrow> string \<Rightarrow> string" where
  "field hs k = (case map_of hs k of None \<Rightarrow> [] | Some v \<Rightarrow> v)"

text \<open>The embedded files are there, and \<open>http.ReadResponse\<close> reads them.\<close>

definition reads_recordings :: "recordings \<Rightarrow> bool" where
  "reads_recordings R \<longleftrightarrow> (\<forall>(name, status, hs) \<in> set recorded_table. \<exists>raw resp body.
     rd_file R (recorded_dir @ ''/'' @ name @ ''.http'') = Inr raw \<and> rd_read R raw = Inr (resp, Inr body)
     \<and> rp_status resp = status \<and> (\<forall>k \<in> set read_headers. header_get (rp_header resp) k = field hs k))"

section \<open>A provider that reports through the transport\<close>

text \<open>The network brings the served response to the client, and the clock runs; neither reports a signal.\<close>

type_synonym 'w network = "response \<Rightarrow> 'w recording_world \<Rightarrow> 'w recording_world \<times> response option \<times> err option"

definition delivers :: "'w network \<Rightarrow> bool" where
  "delivers net \<longleftrightarrow> (\<forall>r w l. \<exists>w' r'. net r (w, l) = ((w', l), Some r', None) \<and> rp_status r' = rp_status r
     \<and> (\<forall>k \<in> set read_headers. header_get (rp_header r') k = header_get (rp_header r) k))"

definition ticks :: "('w recording_world, err) platform \<Rightarrow> instant \<Rightarrow> bool" where
  "ticks P until \<longleftrightarrow> (\<forall>w l. \<exists>w' t. pf_now P (w, l) = ((w', l), t) \<and> t \<le> until)"

text \<open>One request, under a key, and what the client makes of the response.\<close>

definition provider_call ::
  "('w recording_world, err) platform \<Rightarrow> 'w network \<Rightarrow> string \<Rightarrow> string \<Rightarrow> (response \<Rightarrow> err option) \<Rightarrow> 'w rate_limited_call" where
  "provider_call P net key host check sink x w =
     (case round_trip P (new_transport (Some (\<lambda>_. net (fst x))))
         (with_key key \<lparr>rq_key = None, rq_sink = sink, rq_host = host\<rparr>) w of
        (w, Some resp, None) \<Rightarrow> (w, check resp)
      | (w, _, e) \<Rightarrow> (w, e))"

lemma parse_response_cong:
  assumes "rp_status r' = rp_status r" "\<forall>k \<in> set read_headers. header_get (rp_header r') k = header_get (rp_header r) k"
  shows "parse_response zones oob r' key t = parse_response zones oob r key t"
  using assms by (simp add: parse_response_def read_headers_def Let_def)

lemma parse_response_key: "sg_key (fst (parse_response zones oob r key t)) = key"
  by (simp add: parse_response_def headers_signal_def Let_def)

lemma provider_call_reports:
  assumes "delivers net" "ticks P until" "key \<noteq> []"
  obtains w' r' t where "t \<le> until" "rp_status r' = rp_status r"
    "provider_call P net key host check (Some signal_recorder) (r, body) (w, []) =
       ((w', let (s, found) = parse_response (pf_zones P) (pf_oob P) r key t in if found then [s] else []), check r')"
proof -
  obtain w1 r' where n: "net r (w, []) = ((w1, []), Some r', None)" "rp_status r' = rp_status r"
    "\<forall>k \<in> set read_headers. header_get (rp_header r') k = header_get (rp_header r) k"
    using assms(1) unfolding delivers_def by blast
  obtain w2 t where t: "pf_now P (w1, []) = ((w2, []), t)" "t \<le> until" using assms(2) unfolding ticks_def by blast
  obtain s found where p: "parse_response (pf_zones P) (pf_oob P) r key t = (s, found)" by fastforce
  moreover have "sg_key s = key" using parse_response_key[of "pf_zones P" "pf_oob P" r key t] p by simp
  ultimately show thesis
    using assms(3) parse_response_cong[OF n(2,3)]
    by (intro that[OF t(2) n(2), of w2])
      (simp add: provider_call_def round_trip_def new_transport_def n(1) t(1) with_key_def key_for_def report_def
        signal_recorder_def)
qed

lemma capture_recording:
  assumes "reads_recordings R" "delivers net" "ticks P until" "key \<noteq> []" "clock w = (w1, now)"
    and row: "(name, status, hs) \<in> set recorded_table" "parse_imf (field hs header_date) = Some d"
  obtains w' c r t e where
    "capture R clock name (provider_call P net key host check) w = (w', Inr c)" "cp_now c = now" "t \<le> until"
    "cp_signals c = (let (s, found) = parse_response (pf_zones P) (pf_oob P) r key t in if found then [s] else [])"
    "rp_status e = status" "cp_err c = check e" "rp_status r = status"
    "header_get (rp_header r) header_reset =
       (let v = field hs header_reset in
        case parse_int v of Some n \<Rightarrow> if v = [] then v else dec_int (unix_add n (time_sub now d)) | None \<Rightarrow> v)"
    "header_get (rp_header r) header_retry_after =
       (let v = field hs header_retry_after in
        case parse_time (rd_zones R) v of Some t \<Rightarrow> if v = [] then v else http_time (t + time_sub now d) | None \<Rightarrow> v)"
    "\<And>k. k \<in> set read_headers - {header_date, header_reset, header_retry_after} \<Longrightarrow>
       header_get (rp_header r) k = field hs k"
proof -
  obtain raw resp body where f: "rd_file R (recorded_dir @ ''/'' @ name @ ''.http'') = Inr raw"
    "rd_read R raw = Inr (resp, Inr body)" "rp_status resp = status"
    and h: "\<And>k. k \<in> set read_headers \<Longrightarrow> header_get (rp_header resp) k = field hs k"
    using assms(1) row(1) unfolding reads_recordings_def by blast
  have k: "header_date \<in> set read_headers" "header_reset \<in> set read_headers" "header_retry_after \<in> set read_headers"
    "''Content-Length'' \<notin> set read_headers" by (simp_all add: read_headers_def) code_simp
  have "parse_time (rd_zones R) (header_get (rp_header resp) header_date) = Some d"
    using row(2) h[OF k(1)] by (simp add: parse_time_def)
  with f(1,2) show thesis
  proof (rule recorded_responseD[where now = now])
    fix r
    assume r: "recorded_response R name now = Inr (r, body)" "rp_status r = rp_status resp"
      "header_get (rp_header r) header_reset =
         (let v = header_get (rp_header resp) header_reset in
          case parse_int v of Some n \<Rightarrow> if v = [] then v else dec_int (unix_add n (time_sub now d)) | None \<Rightarrow> v)"
      "header_get (rp_header r) header_retry_after =
         (let v = header_get (rp_header resp) header_retry_after in
          case parse_time (rd_zones R) v of Some t \<Rightarrow> if v = [] then v else http_time (t + time_sub now d) | None \<Rightarrow> v)"
      and other: "\<And>k. k \<notin> {header_date, header_reset, header_retry_after} \<Longrightarrow>
         header_get (rp_header r) k = header_get (rp_header resp) k"
    have s: "header_get (rp_header (served r)) k' = header_get (rp_header r) k'" if "k' \<in> set read_headers" for k'
      using that k(4) by (intro header_get_served) auto
    have st: "rp_status (served r) = status" using r(2) f(3) by (simp add: served_def)
    obtain w' r' t where c: "t \<le> until" "rp_status r' = rp_status (served r)"
      "provider_call P net key host check (Some signal_recorder) (served r, body) (w1, []) =
         ((w', let (s, found) = parse_response (pf_zones P) (pf_oob P) (served r) key t in if found then [s] else []), check r')"
      by (rule provider_call_reports[OF assms(2-4)])
    let ?c = "\<lparr>cp_signals = let (s, found) = parse_response (pf_zones P) (pf_oob P) (served r) key t
            in if found then [s] else [], cp_err = check r', cp_now = now\<rparr>"
    show thesis
    proof (rule that[of w' ?c t "served r" r'])
      show "capture R clock name (provider_call P net key host check) w = (w', Inr ?c)"
        by (simp only: capture_def assms(5) r(1) c(3) with_sink_def prod.case sum.case option.case)
      show "header_get (rp_header (served r)) k' = field hs k'"
        if "k' \<in> set read_headers - {header_date, header_reset, header_retry_after}" for k'
        using that s[of k'] other[of k'] h[of k'] by auto
    qed (simp_all only: c st r(3,4) s[OF k(2)] s[OF k(3)] h[OF k(2)] h[OF k(3)] captured.simps)
  qed
qed

section \<open>The checks pass\<close>

lemma table_dates:
  "parse_imf github_date = Some 63929432956000000000" "parse_imf azure_date = Some 63929432965000000000"
  by code_simp+

lemma table_numbers:
  "dec_nat 0 = ''0''" "dec_nat 10 = ''10''" "dec_nat 30 = ''30''" "dec_nat 59 = ''59''" "dec_nat 60 = ''60''"
  "dec_nat 200 = ''200''"
  by code_simp+

lemma table_counts:
  "parse_count oob ''0'' = Some 0" "parse_count oob ''59'' = Some 59" "parse_count oob ''60'' = Some 60"
  "parse_count oob ''200'' = Some 200" "parse_count oob [] = None"
  using parse_count_dec[of 0 oob] parse_count_dec[of 59 oob] parse_count_dec[of 60 oob] parse_count_dec[of 200 oob]
  by (simp_all add: table_numbers) (simp add: parse_count_def parse_number_def trim_space_def trim_left_def trim_right_def)

lemma table_delays:
  "parse_time zones ''10'' = None" "parse_time zones ''30'' = None" "parse_time zones ''60'' = None"
  "parse_seconds oob [] = None" "parse_retry_after zones oob [] t = None"
  "parse_retry_after zones oob ''10'' t = Some (10 * second)"
proof -
  have "parse_retry_after zones oob (dec_nat 10) t = Some (10 * second)"
    using dec_nat_digits[of 10] parse_seconds_dec[of 10 oob] by (simp add: parse_retry_after_def trim_digits)
  then show "parse_retry_after zones oob ''10'' t = Some (10 * second)" by (simp only: table_numbers)
qed (simp_all add: parse_time_dec parse_seconds_def parse_retry_after_def parse_number_def trim_space_def trim_left_def
    trim_right_def flip: table_numbers(2,3,5))

lemmas header_keys = header_date_def header_retry_after_def header_delay_def header_limit_def header_remaining_def
  header_used_def header_resource_def header_reset_def

lemma kept_headers:
  "header_remaining \<in> set read_headers - {header_date, header_reset, header_retry_after}"
  "header_limit \<in> set read_headers - {header_date, header_reset, header_retry_after}"
  "header_delay \<in> set read_headers - {header_date, header_reset, header_retry_after}"
  by (simp_all add: read_headers_def) (simp_all add: header_keys)

lemma table_rows:
  "field (github_limits l m u) header_date = github_date" "field (azure_limits v) header_date = azure_date"
  "field ((header_retry_after, v) # github_limits l m u) header_date = github_date"
  "field ((header_delay, v') # azure_limits v) header_date = azure_date"
  "field ((header_retry_after, v) # github_limits l m u) header_retry_after = v"
  "field ((header_delay, v') # azure_limits v) header_retry_after = v" "field (azure_limits v) header_retry_after = v"
  "field (github_limits l m u) header_retry_after = []"
  by (simp_all add: field_def github_limits_def azure_limits_def header_keys)

lemma table_members:
  "(github_200_healthy, 200, github_limits ''60'' ''59'' ''1'') \<in> set recorded_table"
  "(github_403_primary_exhausted, 403, github_limits ''5000'' ''0'' ''5000'') \<in> set recorded_table"
  "(github_403_secondary_retry_after, 403, (header_retry_after, ''60'') # github_limits ''5000'' ''4890'' ''110'')
     \<in> set recorded_table"
  "(github_429_retry_after, 429, (header_retry_after, ''60'') # github_limits ''5000'' ''0'' ''5000'') \<in> set recorded_table"
  "(azure_devops_200_advisory, 200, (header_delay, ''0.512'') # azure_limits ''10'') \<in> set recorded_table"
  "(azure_devops_429_blocked, 429, azure_limits ''30'') \<in> set recorded_table"
  "(service_503_retry_after_date, 503, [(header_date, github_date),
     (header_retry_after, ''Wed, 04 Nov 2026 23:51:16 GMT'')]) \<in> set recorded_table"
  by (simp_all add: recorded_table_def)

lemma table_quota:
  "field ((header_delay, v') # azure_limits v) header_remaining = ''0''"
  "field ((header_delay, v') # azure_limits v) header_limit = ''200''"
  "field (github_limits l m u) header_remaining = m" "field (github_limits l m u) header_limit = l"
  "field (github_limits l m u) header_delay = []" "field (github_limits l m u) header_reset = ''1793839764''"
  by (simp_all add: field_def github_limits_def azure_limits_def header_keys)

lemma throttle_passes:
  assumes "cp_signals c = (let (s, found) = p in if found then [s] else [])" "snd p" "sg_throttled (fst p)"
    "sg_key (fst p) \<noteq> []" "cp_now c < signal_deadline (fst p) (cp_now c)"
  shows "throttle_failures c = []"
  using assms by (cases p) (simp add: throttle_failures_def classify_throttled_iff)

lemma retry_seconds_pass:
  assumes "cp_signals c = (let (s, found) = parse_response zones oob r key t in if found then [s] else [])"
    and "rp_status r \<in> {429, 403, 503}" "header_get (rp_header r) header_retry_after = dec_nat n" "0 < n"
    and "int n \<le> 3153600000" "key \<noteq> []"
  shows "throttle_failures c = []"
proof -
  obtain s found where p: "parse_response zones oob r key t = (s, found)" by fastforce
  note q = retry_after_throttles(1,3)[OF assms(2-5) p] retry_after_throttles(2,4)[OF assms(2-5) p, where t = "cp_now c"]
  show ?thesis
    by (rule throttle_passes[OF assms(1)[unfolded p]])
      (use q assms(4,6) in \<open>simp_all add: classify_throttled_iff\<close>)
qed

lemma seconds_row_passes:
  assumes "reads_recordings R" "delivers net" "ticks P until" "key \<noteq> []"
    and "(name, status, hs) \<in> set recorded_table" "parse_imf (field hs header_date) = Some d"
    and "status \<in> {429, 403, 503}" "field hs header_retry_after = dec_nat n" "0 < n" "int n \<le> 3153600000"
  shows "snd (snd (assert_reports_throttle R clock name (provider_call P net key host check) w)) = []"
proof -
  obtain w1 now where "clock w = (w1, now)" by fastforce
  then show ?thesis
  proof (rule capture_recording[OF assms(1-4) _ assms(5,6), where host = host and check = check], goal_cases)
    case (1 w' c r t e)
    have "throttle_failures c = []"
      by (rule retry_seconds_pass[OF 1(4), of n]) (use 1(7,9) assms(4,7-10) in \<open>simp_all add: parse_time_dec\<close>)
    then show ?thesis by (simp add: assert_reports_throttle_def check_capture_def 1(1))
  qed
qed

text \<open>
  C28: a provider that reports through the transport passes the contract.  When the provider sends its
  request through the transport under a key, the network delivers, and its client takes a response with
  status 200 for a success, \<open>AssertReportsRateLimits\<close> fails in none of its three subtests, whatever the
  time of the test and however long the request takes.
\<close>

theorem transport_passes_contract:
  assumes "reads_recordings R" "delivers net" "ticks P until" "key \<noteq> []"
    and "\<And>r. rp_status r = 200 \<Longrightarrow> check r = None"
  shows "snd (assert_reports_rate_limits R clock (provider_call P net key host check) w)
    = [(''throttled 429'', []), (''advisory 200'', []), (''healthy 200'', [])]"
proof -
  have a: "snd (snd (assert_reports_throttle R clock github_429_retry_after (provider_call P net key host check) w)) = []" for w
    by (rule seconds_row_passes[OF assms(1-4) table_members(4), where n = 60])
      (simp_all add: table_rows table_dates table_numbers)
  have b: "snd (snd (assert_reports_advisory R clock azure_devops_200_advisory (provider_call P net key host check) w)) = []" for w
  proof -
    obtain w1 now where "clock w = (w1, now)" by fastforce
    then show ?thesis
    proof (rule capture_recording[OF assms(1-4) _ table_members(5), where d = 63929432965000000000 and host = host and check = check], goal_cases)
      case (2 w' c r t e)
      obtain s found where p: "parse_response (pf_zones P) (pf_oob P) r key t = (s, found)" by fastforce
      have "header_get (rp_header r) header_remaining = ''0''" "header_get (rp_header r) header_limit = ''200''"
        "header_get (rp_header r) header_retry_after = ''10''"
        using 2(9) 2(10)[OF kept_headers(1)] 2(10)[OF kept_headers(2)]
        by (simp_all add: table_rows table_quota table_delays)
      then have "found" "classify s (cp_now c) = SignalAdvisory" "sg_key s = key"
        using p 2(7) by (auto simp: parse_response_def Let_def headers_signal_def table_counts table_delays quota_of_def
            throttled_status_def classify_def or_zero_def advisory_quota_divisor_def i64_def split: option.split)
      then have "advisory_failures c = []"
        using 2(4,5,6) p assms(4,5) by (simp add: advisory_failures_def)
      then show ?thesis by (simp add: assert_reports_advisory_def check_capture_def 2(1))
    qed (simp add: table_rows table_dates)
  qed
  have c: "snd (snd (assert_silent_when_healthy R clock github_200_healthy (provider_call P net key host check) w)) = []" for w
  proof -
    obtain w1 now where "clock w = (w1, now)" by fastforce
    then show ?thesis
    proof (rule capture_recording[OF assms(1-4) _ table_members(1), where d = 63929432956000000000 and host = host and check = check], goal_cases)
      case (2 w' c r t e)
      obtain s found where p: "parse_response (pf_zones P) (pf_oob P) r key t = (s, found)" by fastforce
      have "header_get (rp_header r) header_remaining = ''59''" "header_get (rp_header r) header_limit = ''60''"
        "header_get (rp_header r) header_retry_after = []" "header_get (rp_header r) header_delay = []"
        using 2(9) 2(10)[OF kept_headers(1)] 2(10)[OF kept_headers(2)] 2(10)[OF kept_headers(3)]
        by (simp_all add: table_rows table_quota table_delays split: option.split)
      then have "classify s (cp_now c) = SignalNone"
        using p 2(7) by (auto simp: parse_response_def Let_def headers_signal_def table_counts table_delays quota_of_def
            throttled_status_def classify_def or_zero_def advisory_quota_divisor_def i64_def split: option.split)
      then have "silence_failures c = []"
        using 2(4,5,6) p assms(5) by (simp add: silence_failures_def)
      then show ?thesis by (simp add: assert_silent_when_healthy_def check_capture_def 2(1))
    qed (simp add: table_rows table_dates)
  qed
  from a b c show ?thesis
    by (simp add: assert_reports_rate_limits_def split: prod.split) (metis prod.sel)
qed

lemma deadline_after:
  "now < sg_reset_at s \<or> 0 < sg_retry_after s \<Longrightarrow> now < signal_deadline s now"
  by (auto simp: signal_deadline_def time_add_def Let_def)

text \<open>From the year 2000 to the year 2300 a recording can be moved.\<close>

definition movable :: "instant \<Rightarrow> bool" where
  "movable now \<longleftrightarrow> days_of_civil 2000 1 1 * 86400 * second \<le> now \<and> now < days_of_civil 2300 1 1 * 86400 * second"

lemma movable_bounds:
  assumes "movable now"
  shows "63082281600000000000 \<le> now" "now < 72549388800000000000"
proof -
  have "days_of_civil 2000 1 1 * 86400 * second = 63082281600000000000"
    "days_of_civil 2300 1 1 * 86400 * second = 72549388800000000000" by code_simp+
  with assms show "63082281600000000000 \<le> now" "now < 72549388800000000000" by (simp_all add: movable_def)
qed

lemma primary_row_passes:
  assumes "reads_recordings R" "delivers net" "ticks P until" "key \<noteq> []" "clock w = (w1, now)" "movable now"
  shows "snd (snd (assert_reports_throttle R clock github_403_primary_exhausted (provider_call P net key host check) w)) = []"
  using assms(5)
proof (rule capture_recording[OF assms(1-4) _ table_members(2), where d = 63929432956000000000 and host = host and check = check],
    goal_cases)
  case (2 w' c r t e)
  note b = movable_bounds[OF assms(6)]
  let ?d = "63929432956000000000 :: int" and ?n = "1793839764 + (now - 63929432956000000000) div second"
  have i: "in_i64 (now - ?d)" using b by (simp add: in_i64_def)
  have n: "946684799 < ?n" "?n \<le> 100000000000" using div_second[of "now - ?d"] b by linarith+
  have "parse_int ''1793839764'' = Some 1793839764" by code_simp
  then have "header_get (rp_header r) header_reset = dec_nat (nat ?n)"
    using 2(8) n(1) by (simp add: table_quota time_sub_exact[OF i] unix_add_exact[OF _ _ i] dec_int_nat)
  then have reset: "parse_epoch (pf_oob P) (header_get (rp_header r) header_reset) = Some ((?n + unix_epoch) * second)"
    using parse_epoch_dec[of "nat ?n" "pf_oob P"] n by simp
  have "keeps_wait ((1793839764 + unix_epoch) * second) ?d ((?n + unix_epoch) * second) now"
    using keeps_wait_div[of "1793839764 + unix_epoch" ?d now] by (simp add: add_ac)
  then have "now < (?n + unix_epoch) * second" by (simp add: keeps_wait_def unix_epoch_def)
  moreover have "parse_count (pf_oob P) (header_get (rp_header r) header_remaining) = Some 0"
    using 2(10)[OF kept_headers(1)] by (simp add: table_quota table_counts)
  ultimately have "snd (parse_response (pf_zones P) (pf_oob P) r key t)" "sg_throttled (fst (parse_response (pf_zones P) (pf_oob P) r key t))"
    "now < sg_reset_at (fst (parse_response (pf_zones P) (pf_oob P) r key t))"
    using 2(7) reset by (simp_all add: parse_response_def Let_def headers_signal_def throttled_status_def quota_of_def or_zero_def)
  then have "throttle_failures c = []"
    by (intro throttle_passes[OF 2(4)]) (simp_all add: parse_response_key assms(4) 2(2) deadline_after)
  then show ?case by (simp add: assert_reports_throttle_def check_capture_def 2(1))
qed (simp add: table_rows table_dates)

lemma service_row_passes:
  assumes "reads_recordings R" "delivers net" "ticks P (now + 100 * second)" "key \<noteq> []" "clock w = (w1, now)" "movable now"
  shows "snd (snd (assert_reports_throttle R clock service_503_retry_after_date (provider_call P net key host check) w)) = []"
  using assms(5)
proof (rule capture_recording[OF assms(1-4) _ table_members(7), where d = 63929432956000000000 and host = host and check = check],
    goal_cases)
  case (2 w' c r t e)
  note b = movable_bounds[OF assms(6)]
  let ?d = "63929432956000000000 :: int" and ?t = "now + 120 * second"
  have i: "in_i64 (now - ?d)" using b by (simp add: in_i64_def)
  have "parse_imf ''Wed, 04 Nov 2026 23:51:16 GMT'' = Some 63929433076000000000" by code_simp
  moreover have "field [(header_date, github_date), (header_retry_after, ''Wed, 04 Nov 2026 23:51:16 GMT'')] header_retry_after
      = ''Wed, 04 Nov 2026 23:51:16 GMT''" by (simp add: field_def header_keys)
  ultimately have "header_get (rp_header r) header_retry_after = http_time ?t"
    using 2(9) by (simp add: parse_time_def time_sub_exact[OF i] add.commute)
  moreover have "printable (Time ?t 0)" using b by (intro printable_range) simp_all
  ultimately have "parse_retry_after (pf_zones P) (pf_oob P) (header_get (rp_header r) header_retry_after) t
      = Some (max 0 (time_sub (trunc_second ?t) t))"
    by (simp add: http_time_def retry_after_date weekday_less)
  moreover have "t < trunc_second ?t" using div_second[of ?t] 2(3) by (simp add: trunc_second_def)
  ultimately have "snd (parse_response (pf_zones P) (pf_oob P) r key t)" "sg_throttled (fst (parse_response (pf_zones P) (pf_oob P) r key t))"
    "0 < sg_retry_after (fst (parse_response (pf_zones P) (pf_oob P) r key t))"
    using 2(7) by (simp_all add: parse_response_def Let_def headers_signal_def throttled_status_def or_zero_def time_sub_pos)
  then have "throttle_failures c = []"
    by (intro throttle_passes[OF 2(4)]) (simp_all add: parse_response_key assms(4) 2(2) deadline_after)
  then show ?case by (simp add: assert_reports_throttle_def check_capture_def 2(1))
qed (simp add: field_def header_keys table_dates)

definition throttled_recordings :: "string list" where
  "throttled_recordings = [github_403_primary_exhausted, github_403_secondary_retry_after, github_429_retry_after,
     azure_devops_429_blocked, service_503_retry_after_date]"

text \<open>
  C27: every throttled recording passes.  Served at any time of the years 2000 to 2300 to a provider that
  reports through the transport, within a hundred seconds, each of the five recordings of a throttled
  response (a delay, an exhausted quota with its reset, a date) is reported under the key, as throttled,
  and with a deadline that is still ahead.
\<close>

theorem throttled_recordings_pass:
  assumes "reads_recordings R" "delivers net" "ticks P (now + 100 * second)" "key \<noteq> []" "clock w = (w1, now)"
    and "movable now" "name \<in> set throttled_recordings"
  shows "snd (snd (assert_reports_throttle R clock name (provider_call P net key host check) w)) = []"
proof -
  note row = seconds_row_passes[OF assms(1-4), where w = w and host = host and check = check]
  have "snd (snd (assert_reports_throttle R clock github_403_secondary_retry_after (provider_call P net key host check) w)) = []"
    by (rule row[OF table_members(3), where n = 60]) (simp_all add: table_rows table_dates table_numbers)
  moreover have "snd (snd (assert_reports_throttle R clock github_429_retry_after (provider_call P net key host check) w)) = []"
    by (rule row[OF table_members(4), where n = 60]) (simp_all add: table_rows table_dates table_numbers)
  moreover have "snd (snd (assert_reports_throttle R clock azure_devops_429_blocked (provider_call P net key host check) w)) = []"
    by (rule row[OF table_members(6), where n = 30]) (simp_all add: table_rows table_dates table_numbers)
  ultimately show ?thesis
    using assms(7) primary_row_passes[where clock = clock and w = w, OF assms(1-6)]
      service_row_passes[where clock = clock and w = w, OF assms(1-6)]
    by (auto simp: throttled_recordings_def)
qed

section \<open>At concrete inputs\<close>

text \<open>The files as their own names, read as the table says.\<close>

definition table_response :: "int \<Rightarrow> (string \<times> string) list \<Rightarrow> response" where
  "table_response status hs = \<lparr>rp_status = status, rp_header = Mapping (map (\<lambda>(k, v). (k, [v])) hs)\<rparr>"

definition table_recordings :: recordings where
  "table_recordings =
     \<lparr>rd_entries = [], rd_file = Inr,
      rd_read = (\<lambda>raw. case List.find (\<lambda>(name, _). recorded_dir @ ''/'' @ name @ ''.http'' = raw) recorded_table of
        None \<Rightarrow> Inl (Foreign 0 ''malformed HTTP response'') | Some (_, status, hs) \<Rightarrow> Inr (table_response status hs, Inr [])),
      rd_sprintf = (\<lambda>f _. f), rd_bad_time = Foreign 1, rd_zones = (\<lambda>_ _. None)\<rparr>"

lemmas recording_names = github_200_healthy_def github_403_primary_exhausted_def github_403_secondary_retry_after_def
  github_429_retry_after_def azure_devops_200_advisory_def azure_devops_429_blocked_def service_503_retry_after_date_def

lemma table_recordings_read: "reads_recordings table_recordings"
proof -
  have "list_all (\<lambda>(name, status, hs).
      rd_read table_recordings (recorded_dir @ ''/'' @ name @ ''.http'') = Inr (table_response status hs, Inr [])) recorded_table"
    by (simp add: recorded_table_def table_recordings_def recording_names)
  moreover have "list_all (\<lambda>(name, status, hs).
      list_all (\<lambda>k. header_get (rp_header (table_response status hs)) k = field hs k) read_headers) recorded_table"
    by (simp add: recorded_table_def read_headers_def github_limits_def azure_limits_def field_def table_response_def
        header_get_def header_keys)
  moreover have "rd_file table_recordings = Inr" by (simp add: table_recordings_def)
  ultimately show ?thesis
    unfolding reads_recordings_def list_all_iff by (fastforce simp: table_response_def)
qed

definition wire :: "nat network" where "wire r w = (w, Some r, None)"

definition bench :: "(nat recording_world, err) platform" where
  "bench = \<lparr>pf_transport = (\<lambda>_ w. (w, None, None)), pf_now = (\<lambda>w. (w, 64000000000000000000)), pf_zones = (\<lambda>_ _. None),
     pf_lower = id, pf_oob = (\<lambda>_. 0)\<rparr>"

definition reject :: "response \<Rightarrow> err option" where
  "reject r = (if rp_status r = 200 then None else Some (Foreign 2 ''refused''))"

lemma wire_delivers: "delivers wire"
  by (simp add: delivers_def wire_def)

lemma bench_ticks: "64000000000000000000 \<le> until \<Longrightarrow> ticks bench until"
  by (simp add: ticks_def bench_def)

theorem transport_passes_contract_witness:
  "snd (assert_reports_rate_limits table_recordings (\<lambda>w. (Suc w, 64000000000000000000))
     (provider_call bench wire ''vendor'' ''api'' reject) 0)
   = [(''throttled 429'', []), (''advisory 200'', []), (''healthy 200'', [])]"
  by (rule transport_passes_contract[OF table_recordings_read wire_delivers bench_ticks[OF order.refl]])
    (simp_all add: reject_def)

theorem throttled_recordings_pass_witness:
  "snd (snd (assert_reports_throttle table_recordings (\<lambda>w. (Suc w, 64000000000000000000)) service_503_retry_after_date
     (provider_call bench wire ''vendor'' ''api'' reject) 0)) = []"
proof (rule throttled_recordings_pass[OF table_recordings_read wire_delivers bench_ticks])
  show "movable 64000000000000000000" by code_simp
qed (simp_all add: throttled_recordings_def)

theorem recording_keeps_its_waits_witness:
  "\<exists>r t. recorded_response table_recordings service_503_retry_after_date 64000000000500000000 = Inr (r, [])
     \<and> parse_time (rd_zones table_recordings) (header_get (rp_header r) header_retry_after) = Some t
     \<and> keeps_wait 63929433076000000000 63929432956000000000 t 64000000000500000000"
proof -
  let ?file = "recorded_dir @ ''/'' @ service_503_retry_after_date @ ''.http''" and ?now = "64000000000500000000 :: int"
  let ?hs = "[(header_date, github_date), (header_retry_after, ''Wed, 04 Nov 2026 23:51:16 GMT'')]"
  have f: "rd_file table_recordings ?file = Inr ?file" "rd_read table_recordings ?file = Inr (table_response 503 ?hs, Inr [])"
    by (simp_all add: recorded_table_def table_recordings_def recording_names)
  have h: "header_get (rp_header (table_response 503 ?hs)) header_date = github_date"
    "header_get (rp_header (table_response 503 ?hs)) header_retry_after = ''Wed, 04 Nov 2026 23:51:16 GMT''"
    by (simp_all add: table_response_def header_get_def header_keys)
  have t: "parse_imf ''Wed, 04 Nov 2026 23:51:16 GMT'' = Some 63929433076000000000" by code_simp
  have "printable (Time ?now 0)" "printable (Time (63929433076000000000 + (?now - 63929432956000000000)) 0)"
    by (rule printable_range; simp)+
  with recording_keeps_its_waits[OF f, of 63929432956000000000 ?now "\<lambda>_. 0"] show ?thesis
    by (auto simp: h parse_time_def t table_dates in_i64_def)
qed

end
