(* ===== verification/Logging.thy ===== *)
theory Logging
  imports Errors Rfc3339
begin

text \<open>
  src/pkg/logging/otel.go: log handlers in the model of OpenTelemetry, over package log/slog, and
  src/pkg/logging/logging.go: the \<open>Logger\<close> the library logs through.  A handler is what it does, so
  \<open>slog.Handler\<close> is a codatatype of its four methods.  A JSON line is the list of its leaves, each with the
  groups it stands under: the text of keys and values, the bridge to the OpenTelemetry log API, the span of a
  context and the writer are parameters.  Values are resolved.
\<close>

section \<open>Records and handlers\<close>

datatype log_value =
    Str string | Num int | Stamp instant | Level int | Fault "err option" | Opaque nat | Group "log_attr list"
  and log_attr = Attr string log_value

record log_record =
  lr_time :: instant
  lr_level :: int
  lr_msg :: string
  lr_attrs :: "log_attr list"

datatype log_outcome = Returned "err option" | Panicked

text \<open>\<open>WithAttrs\<close> is \<open>None\<close> when it panics.\<close>

codatatype ('c, 'w) handler = Handler
  (h_enabled: "'c \<Rightarrow> int \<Rightarrow> 'w \<Rightarrow> bool")
  (h_handle: "'c \<Rightarrow> log_record \<Rightarrow> 'w \<Rightarrow> 'w \<times> log_outcome")
  (h_attrs: "log_attr list \<Rightarrow> ('c, 'w) handler option")
  (h_group: "string \<Rightarrow> ('c, 'w) handler")

abbreviation level_debug :: int where "level_debug \<equiv> - 4"
abbreviation level_info :: int where "level_info \<equiv> 0"
abbreviation level_warn :: int where "level_warn \<equiv> 4"
abbreviation level_error :: int where "level_error \<equiv> 8"

definition otel_severity_number :: "int \<Rightarrow> int" where
  "otel_severity_number l =
     (if l < level_debug then 1 else if l < level_info then 5 else if l < level_warn then 9
      else if l < level_error then 13 else 17)"

section \<open>The JSON handler of slog\<close>

type_synonym leaf = "string list \<times> string \<times> log_value"

text \<open>\<open>time.RFC3339Nano\<close> in UTC: the fraction without its trailing zeros.\<close>

definition format_nano :: "instant \<Rightarrow> string" where
  "format_nano t =
     (let s = format_rfc3339 (Time t 0); ns = t mod second;
          ds = rev (dropWhile (\<lambda>c. c = CHR ''0'') (rev (append_int ns 9)))
      in if ns = 0 then s else butlast s @ CHR ''.'' # ds @ ''Z'')"

text \<open>\<open>ReplaceAttr\<close>: the top-level time is renamed; \<open>Value.Time\<close> panics on any other kind.\<close>

definition replace_attr :: "string list \<Rightarrow> string \<Rightarrow> log_value \<Rightarrow> leaf option" where
  "replace_attr groups k v =
     (if groups = [] \<and> k = ''time'' then
        (case v of Stamp t \<Rightarrow> Some (groups, ''timestamp'', Str (format_nano t)) | _ \<Rightarrow> None)
      else Some (groups, k, v))"

definition both :: "'a list option \<Rightarrow> 'a list option \<Rightarrow> 'a list option" where
  "both x y = Option.bind x (\<lambda>x. map_option ((@) x) y)"

text \<open>
  Attributes as leaves; a group with an empty key is inlined, one without leaves leaves no trace, and
  neither does a nil under an empty key.
\<close>

fun leaves :: "string list \<Rightarrow> log_attr list \<Rightarrow> leaf list option" where
  "leaves p [] = Some []"
| "leaves p (Attr k v # as) =
     both (case v of Group bs \<Rightarrow> leaves (if k = [] then p else p @ [k]) bs
           | _ \<Rightarrow> if k = [] \<and> v = Fault None then Some [] else map_option (\<lambda>l. [l]) (replace_attr p k v))
       (leaves p as)"

definition record_leaves :: "leaf list \<Rightarrow> string list \<Rightarrow> log_record \<Rightarrow> leaf list option" where
  "record_leaves pre groups r =
     both (leaves [] ((if lr_time r = 0 then [] else [Attr ''time'' (Stamp (lr_time r))])
            @ [Attr ''level'' (Level (lr_level r)), Attr ''msg'' (Str (lr_msg r))]))
       (both (Some pre) (leaves groups (lr_attrs r)))"

definition json_enabled :: "('w \<Rightarrow> int) option \<Rightarrow> int \<Rightarrow> 'w \<Rightarrow> bool" where
  "json_enabled lv l w \<longleftrightarrow> (case lv of None \<Rightarrow> level_info | Some f \<Rightarrow> f w) \<le> l"

text \<open>The handler with its preformatted leaves and its open groups.\<close>

primcorec json_handler ::
  "('w \<Rightarrow> int) option \<Rightarrow> (leaf list \<Rightarrow> 'w \<Rightarrow> 'w \<times> err option) \<Rightarrow> leaf list \<Rightarrow> string list \<Rightarrow> ('c, 'w) handler" where
  "h_enabled (json_handler lv emit pre groups) = (\<lambda>_. json_enabled lv)"
| "h_handle (json_handler lv emit pre groups) = (\<lambda>_ r w. case record_leaves pre groups r of
     None \<Rightarrow> (w, Panicked) | Some line \<Rightarrow> map_prod id Returned (emit line w))"
| "h_attrs (json_handler lv emit pre groups) = (\<lambda>as. map_option (\<lambda>ls. json_handler lv emit (pre @ ls) groups) (leaves groups as))"
| "h_group (json_handler lv emit pre groups) = (\<lambda>g. json_handler lv emit pre (groups @ [g]))"

section \<open>The handlers of otel.go\<close>

definition enrich :: "('c \<Rightarrow> (string \<times> string) option) \<Rightarrow> 'c \<Rightarrow> log_record \<Rightarrow> log_record" where
  "enrich spans ctx r = r\<lparr>lr_attrs := lr_attrs r @ [Attr ''SeverityNumber'' (Num (otel_severity_number (lr_level r)))]
     @ (case spans ctx of None \<Rightarrow> [] | Some (t, s) \<Rightarrow> [Attr ''trace_id'' (Str t), Attr ''span_id'' (Str s)])\<rparr>"

primcorec otel_handler :: "('c \<Rightarrow> (string \<times> string) option) \<Rightarrow> ('c, 'w) handler \<Rightarrow> ('c, 'w) handler" where
  "h_enabled (otel_handler spans h) = h_enabled h"
| "h_handle (otel_handler spans h) = (\<lambda>ctx r. h_handle h ctx (enrich spans ctx r))"
| "h_attrs (otel_handler spans h) = (\<lambda>as. map_option (otel_handler spans) (h_attrs h as))"
| "h_group (otel_handler spans h) = (\<lambda>g. otel_handler spans (h_group h g))"

definition new_otel_json_handler ::
  "('c \<Rightarrow> (string \<times> string) option) \<Rightarrow> ('w \<Rightarrow> int) option \<Rightarrow> (leaf list \<Rightarrow> 'w \<Rightarrow> 'w \<times> err option)
     \<Rightarrow> log_attr list \<Rightarrow> ('c, 'w) handler option" where
  "new_otel_json_handler spans lv emit attrs =
     (let h = json_handler lv emit [] []
      in map_option (otel_handler spans) (if attrs = [] then Some h else h_attrs h attrs))"

definition service_name_attr :: "string \<Rightarrow> log_attr list" where
  "service_name_attr s = [Attr ''service.name'' (Str s), Attr ''service'' (Str s)]"

text \<open>The record goes to every handler that wants it; the first error is returned.\<close>

fun tee_handle ::
  "('c, 'w) handler list \<Rightarrow> 'c \<Rightarrow> log_record \<Rightarrow> err option \<Rightarrow> 'w \<Rightarrow> 'w \<times> log_outcome" where
  "tee_handle [] ctx r first w = (w, Returned first)"
| "tee_handle (h # hs) ctx r first w =
     (if \<not> h_enabled h ctx (lr_level r) w then tee_handle hs ctx r first w
      else case h_handle h ctx r w of
          (w, Panicked) \<Rightarrow> (w, Panicked)
        | (w, Returned e) \<Rightarrow> tee_handle hs ctx r (if first = None then e else first) w)"

primcorec tee_handler :: "('c, 'w) handler list \<Rightarrow> ('c, 'w) handler" where
  "h_enabled (tee_handler hs) = (\<lambda>ctx l w. list_ex (\<lambda>h. h_enabled h ctx l w) hs)"
| "h_handle (tee_handler hs) = (\<lambda>ctx r. tee_handle hs ctx r None)"
| "h_attrs (tee_handler hs) = (\<lambda>as. map_option tee_handler (those (map (\<lambda>h. h_attrs h as) hs)))"
| "h_group (tee_handler hs) = (\<lambda>g. tee_handler (map (\<lambda>h. h_group h g) hs))"

definition new_otel_handler ::
  "('c \<Rightarrow> (string \<times> string) option) \<Rightarrow> (string \<Rightarrow> ('c, 'w) handler) \<Rightarrow> ('w \<Rightarrow> int) option
     \<Rightarrow> (leaf list \<Rightarrow> 'w \<Rightarrow> 'w \<times> err option) \<Rightarrow> string \<Rightarrow> ('c, 'w) handler option" where
  "new_otel_handler spans bridge lv emit service =
     map_option (\<lambda>json. tee_handler [json, bridge service])
       (new_otel_json_handler spans lv emit (service_name_attr service))"

section \<open>Loggers\<close>

text \<open>An argument of a log call: a string, an attribute, or another value; a string is a key when one follows.\<close>

datatype log_arg = Arg_Str string | Arg_Attr log_attr | Arg_Value log_value

fun arg_value :: "log_arg \<Rightarrow> log_value" where
  "arg_value (Arg_Str s) = Str s"
| "arg_value (Arg_Attr a) = Opaque 0"
| "arg_value (Arg_Value v) = v"

fun args_to_attrs :: "log_arg list \<Rightarrow> log_attr list" where
  "args_to_attrs [] = []"
| "args_to_attrs [Arg_Str s] = [Attr ''!BADKEY'' (Str s)]"
| "args_to_attrs (Arg_Str s # a # as) = Attr s (arg_value a) # args_to_attrs as"
| "args_to_attrs (Arg_Attr a # as) = a # args_to_attrs as"
| "args_to_attrs (Arg_Value v # as) = Attr ''!BADKEY'' v # args_to_attrs as"

text \<open>A \<open>slog.Logger\<close> is its handler.  Its methods without a context use \<open>context.Background\<close>.\<close>

definition slog_log ::
  "'c \<Rightarrow> ('w \<Rightarrow> 'w \<times> instant) \<Rightarrow> ('c, 'w) handler \<Rightarrow> int \<Rightarrow> string \<Rightarrow> log_arg list \<Rightarrow> 'w \<Rightarrow> 'w \<times> log_outcome" where
  "slog_log background now h l msg args w =
     (if \<not> h_enabled h background l w then (w, Returned None)
      else case now w of (w, t) \<Rightarrow>
        (case h_handle h background \<lparr>lr_time = t, lr_level = l, lr_msg = msg, lr_attrs = args_to_attrs args\<rparr> w of
           (w, Panicked) \<Rightarrow> (w, Panicked) | (w, Returned _) \<Rightarrow> (w, Returned None)))"

definition slog_with :: "log_arg list \<Rightarrow> ('c, 'w) handler \<Rightarrow> ('c, 'w) handler option" where
  "slog_with args h = (if args = [] then Some h else h_attrs h (args_to_attrs args))"

text \<open>The calls of the \<open>Logger\<close> interface.\<close>

datatype log_call =
    Info string "log_arg list" | Debug string "log_arg list"
  | Error "err option" string "log_arg list" | Warn string "log_arg list"

definition slog_logger_call ::
  "'c \<Rightarrow> ('w \<Rightarrow> 'w \<times> instant) \<Rightarrow> ('c, 'w) handler \<Rightarrow> log_call \<Rightarrow> 'w \<Rightarrow> 'w \<times> log_outcome" where
  "slog_logger_call background now h c =
     (case c of
        Info msg kvs \<Rightarrow> slog_log background now h level_info msg kvs
      | Debug msg kvs \<Rightarrow> slog_log background now h level_debug msg kvs
      | Error e msg kvs \<Rightarrow> slog_log background now h level_error msg (kvs @ [Arg_Attr (Attr ''err'' (Fault e))])
      | Warn msg kvs \<Rightarrow> slog_log background now h level_warn msg kvs)"

definition slog_logger_with_name :: "string \<Rightarrow> ('c, 'w) handler \<Rightarrow> ('c, 'w) handler option" where
  "slog_logger_with_name name h = slog_with [Arg_Attr (Attr ''logger'' (Str name))] h"

definition slog_logger_with_values :: "log_arg list \<Rightarrow> ('c, 'w) handler \<Rightarrow> ('c, 'w) handler option" where
  "slog_logger_with_values kvs h = slog_with kvs h"

text \<open>A \<open>logr.Logger\<close>, which is a value of another package.\<close>

record ('l, 'w) logr =
  lo_v :: "int \<Rightarrow> 'l \<Rightarrow> 'l"
  lo_info :: "'l \<Rightarrow> string \<Rightarrow> log_arg list \<Rightarrow> 'w \<Rightarrow> 'w"
  lo_error :: "'l \<Rightarrow> err option \<Rightarrow> string \<Rightarrow> log_arg list \<Rightarrow> 'w \<Rightarrow> 'w"
  lo_with_name :: "string \<Rightarrow> 'l \<Rightarrow> 'l"
  lo_with_values :: "log_arg list \<Rightarrow> 'l \<Rightarrow> 'l"

definition logr_logger_call :: "('l, 'w) logr \<Rightarrow> 'l \<Rightarrow> log_call \<Rightarrow> 'w \<Rightarrow> 'w" where
  "logr_logger_call L l c =
     (case c of
        Info msg kvs \<Rightarrow> lo_info L l msg kvs
      | Debug msg kvs \<Rightarrow> lo_info L (lo_v L 1 l) msg kvs
      | Error e msg kvs \<Rightarrow> lo_error L l e msg kvs
      | Warn msg kvs \<Rightarrow> lo_info L (lo_v L 0 l) msg kvs)"

definition logr_logger_with_name :: "('l, 'w) logr \<Rightarrow> string \<Rightarrow> 'l \<Rightarrow> 'l" where
  "logr_logger_with_name L name l = lo_with_name L name l"

definition logr_logger_with_values :: "('l, 'w) logr \<Rightarrow> log_arg list \<Rightarrow> 'l \<Rightarrow> 'l" where
  "logr_logger_with_values L kvs l = lo_with_values L kvs l"

definition nop_logger_call :: "log_call \<Rightarrow> 'w \<Rightarrow> 'w" where
  "nop_logger_call c w = w"

text \<open>A logger put on a context and read back, package context (src/pkg/context/context.go).\<close>

definition ctx_with_logger :: "'l \<Rightarrow> 'l option \<Rightarrow> 'l option" where
  "ctx_with_logger l ctx = Some l"

definition logger_from_ctx :: "'l option \<Rightarrow> 'l \<Rightarrow> 'l" where
  "logger_from_ctx ctx fallback = (case ctx of Some l \<Rightarrow> l | None \<Rightarrow> fallback)"

end
