(* ===== verification/Logging_Props.thy ===== *)
theory Logging_Props
  imports Logging Http_Props
begin

text \<open>
  What the log handlers do after any derivation by \<open>WithAttrs\<close> and \<open>WithGroup\<close>: the tee is the tee of its
  derived handlers, and a JSON line is the record, the attributes of the handler and those of the record,
  each under the groups that were open when it was given.
\<close>

section \<open>Derived handlers\<close>

datatype derivation = With_Attrs "log_attr list" | With_Group string

fun derive :: "derivation list \<Rightarrow> ('c, 'w) handler \<Rightarrow> ('c, 'w) handler option" where
  "derive [] h = Some h"
| "derive (With_Attrs as # ds) h = Option.bind (h_attrs h as) (derive ds)"
| "derive (With_Group g # ds) h = derive ds (h_group h g)"

fun groups_of :: "derivation list \<Rightarrow> string list" where
  "groups_of [] = []"
| "groups_of (With_Attrs as # ds) = groups_of ds"
| "groups_of (With_Group g # ds) = g # groups_of ds"

lemma those_bind:
  "those (map (\<lambda>x. Option.bind (f x) g) xs) = Option.bind (those (map f xs)) (\<lambda>ys. those (map g ys))"
  by (induction xs) (auto simp: Option.bind_eq_None_conv map_option_case split: option.splits)

lemma derive_tee: "derive ds (tee_handler hs) = map_option tee_handler (those (map (derive ds) hs))"
proof (induction ds arbitrary: hs)
  case Nil
  have "those (map Some hs) = Some hs" by (induction hs) simp_all
  then show ?case by (simp add: comp_def)
next
  case (Cons d ds)
  show ?case
  proof (cases d)
    case (With_Attrs as)
    then show ?thesis
      using Cons those_bind[of "\<lambda>h. h_attrs h as" "derive ds" hs]
      by (cases "those (map (\<lambda>h. h_attrs h as) hs)") simp_all
  qed (simp add: Cons comp_def)
qed

lemma derive_otel: "derive ds (otel_handler spans h) = map_option (otel_handler spans) (derive ds h)"
proof (induction ds arbitrary: h)
  case (Cons d ds)
  then show ?case
  proof (cases d)
    case (With_Attrs as)
    then show ?thesis using Cons by (cases "h_attrs h as") simp_all
  qed simp
qed simp

section \<open>The tee\<close>

text \<open>The record offered to each handler in turn, with what the ones that wanted it returned.\<close>

fun offers :: "('c, 'w) handler list \<Rightarrow> 'c \<Rightarrow> log_record \<Rightarrow> 'w \<Rightarrow> 'w \<times> err option list option" where
  "offers [] ctx r w = (w, Some [])"
| "offers (h # hs) ctx r w =
     (if \<not> h_enabled h ctx (lr_level r) w then offers hs ctx r w
      else case h_handle h ctx r w of
          (w, Panicked) \<Rightarrow> (w, None)
        | (w, Returned e) \<Rightarrow> (case offers hs ctx r w of (w, es) \<Rightarrow> (w, map_option (Cons e) es)))"

definition first_error :: "err option list \<Rightarrow> err option" where
  "first_error es = Option.bind (List.find (\<lambda>e. e \<noteq> None) es) id"

lemma first_error_Cons: "first_error (e # es) = (if e = None then first_error es else e)"
  by (auto simp: first_error_def)

lemma tee_offers:
  "tee_handle hs ctx r first w = (case offers hs ctx r w of
     (w, None) \<Rightarrow> (w, Panicked) | (w, Some es) \<Rightarrow> (w, Returned (first_error (first # es))))"
proof (induction hs arbitrary: first w)
  case Nil
  then show ?case by (simp add: first_error_def)
next
  case (Cons h hs)
  then show ?case
    by (auto simp: first_error_Cons split: prod.splits log_outcome.splits option.splits)
qed

text \<open>
  C30: a tee, however it was derived, is its handlers.  Attributes and groups given to the tee reach each of
  them; a record is offered to every one that wants it, in order, also after one failed; the error is the
  first; and the tee wants what any of them wants.
\<close>

theorem tee_is_its_handlers:
  assumes "derive ds (tee_handler hs) = Some h"
  shows "\<exists>hs'. map (derive ds) hs = map Some hs'
    \<and> h_handle h ctx r w = (case offers hs' ctx r w of
        (w, None) \<Rightarrow> (w, Panicked) | (w, Some es) \<Rightarrow> (w, Returned (first_error es)))
    \<and> (h_enabled h ctx l w \<longleftrightarrow> (\<exists>h' \<in> set hs'. h_enabled h' ctx l w))"
proof -
  obtain hs' where h: "those (map (derive ds) hs) = Some hs'" "h = tee_handler hs'"
    using assms by (auto simp: derive_tee)
  have "those xs = Some ys \<Longrightarrow> xs = map Some ys" for xs :: "('c, 'w) handler option list" and ys
    by (induction xs arbitrary: ys) (auto split: option.splits)
  from this[OF h(1)] show ?thesis
    by (auto simp: h(2) tee_offers first_error_Cons list_ex_iff split: prod.splits option.splits)
qed

section \<open>A JSON line\<close>

text \<open>The leaves as they were given, how one is written, and which cannot be.\<close>

fun tree :: "string list \<Rightarrow> log_attr list \<Rightarrow> leaf list" where
  "tree p [] = []"
| "tree p (Attr k v # as) =
     (case v of Group bs \<Rightarrow> tree (if k = [] then p else p @ [k]) bs
      | _ \<Rightarrow> if k = [] \<and> v = Fault None then [] else [(p, k, v)]) @ tree p as"

fun spread :: "string list \<Rightarrow> derivation list \<Rightarrow> leaf list" where
  "spread p [] = []"
| "spread p (With_Attrs as # ds) = tree p as @ spread p ds"
| "spread p (With_Group g # ds) = spread (p @ [g]) ds"

fun written :: "leaf \<Rightarrow> leaf" where
  "written (p, k, v) = (case v of Stamp t \<Rightarrow> if p = [] \<and> k = ''time'' then (p, ''timestamp'', Str (format_nano t)) else (p, k, v)
     | _ \<Rightarrow> (p, k, v))"

fun untimely :: "leaf \<Rightarrow> bool" where
  "untimely (p, k, v) \<longleftrightarrow> p = [] \<and> k = ''time'' \<and> (\<forall>t. v \<noteq> Stamp t)"

definition heading :: "log_record \<Rightarrow> leaf list" where
  "heading r = (if lr_time r = 0 then [] else [([], ''timestamp'', Str (format_nano (lr_time r)))])
     @ [([], ''level'', Level (lr_level r)), ([], ''msg'', Str (lr_msg r))]"

definition guarded :: "leaf list \<Rightarrow> leaf list option" where
  "guarded ls = (if list_ex untimely ls then None else Some (map written ls))"

lemma both_guarded: "both (guarded xs) (guarded ys) = guarded (xs @ ys)"
  by (simp add: both_def guarded_def)

lemma both_None: "both None x = None" "both x None = None"
  by (cases x; simp add: both_def)+

lemma guarded_Nil: "guarded [] = Some []"
  by (simp add: guarded_def)

lemma leaves_guarded: "leaves p as = guarded (tree p as)"
proof (induction p as rule: leaves.induct)
  case (1 p)
  then show ?case by (simp add: guarded_Nil)
next
  case (2 p k v as)
  have "map_option (\<lambda>l. [l]) (replace_attr p k v) = guarded [(p, k, v)]"
    by (auto simp: replace_attr_def guarded_def split: log_value.split)
  then show ?case using 2 by (cases v) (auto simp: both_guarded both_guarded[of "[]", unfolded append_Nil guarded_Nil])
qed

lemma derive_json:
  "derive ds (json_handler lv emit pre gs)
   = map_option (\<lambda>ls. json_handler lv emit (pre @ ls) (gs @ groups_of ds)) (guarded (spread gs ds))"
proof (induction ds arbitrary: pre gs)
  case Nil
  then show ?case by (simp add: guarded_Nil)
next
  case (Cons d ds)
  show ?case
  proof (cases d)
    case (With_Attrs as)
    then show ?thesis
      using Cons both_guarded[of "tree gs as" "spread gs ds", symmetric]
      by (cases "guarded (tree gs as)"; cases "guarded (spread gs ds)") (simp_all add: leaves_guarded both_def)
  qed (simp add: Cons)
qed

lemma record_leaves_eq:
  assumes "pre = map written ls" "\<not> list_ex untimely ls"
  shows "record_leaves pre gs r = map_option ((@) (heading r)) (guarded (ls @ tree gs (lr_attrs r)))"
proof -
  have "Some pre = guarded ls" using assms by (simp add: guarded_def)
  then show ?thesis
    by (simp add: record_leaves_def leaves_guarded both_guarded) (simp add: both_def guarded_def heading_def)
qed

lemma derived_otel_json:
  "Option.bind (new_otel_json_handler spans lv emit attrs) (derive ds)
   = map_option (\<lambda>ls. otel_handler spans (json_handler lv emit ls (groups_of ds))) (guarded (tree [] attrs @ spread [] ds))"
  by (cases "guarded (tree [] attrs)"; cases "guarded (spread [] ds)")
    (auto simp: new_otel_json_handler_def Let_def derive_otel derive_json leaves_guarded guarded_def split: if_splits)

lemma tree_append: "tree p (as @ bs) = tree p as @ tree p bs"
  by (induction p as rule: tree.induct) simp_all

lemma otel_line:
  "let own = tree [] attrs @ spread [] ds; all = own @ tree (groups_of ds) (lr_attrs r)
       @ [(groups_of ds, ''SeverityNumber'', Num (otel_severity_number (lr_level r)))]
       @ (case spans ctx of None \<Rightarrow> [] | Some (t, s) \<Rightarrow> [(groups_of ds, ''trace_id'', Str t), (groups_of ds, ''span_id'', Str s)])
   in case Option.bind (new_otel_json_handler spans lv emit attrs) (derive ds) of
        None \<Rightarrow> list_ex untimely own
      | Some h \<Rightarrow> \<not> list_ex untimely own \<and> h_handle h ctx r w =
          (if list_ex untimely all then (w, Panicked)
           else map_prod id Returned (emit (heading r @ map written all) w))"
proof -
  let ?gs = "groups_of ds" and ?own = "tree [] attrs @ spread [] ds"
  note n = derived_otel_json[of spans lv emit attrs ds]
  have t: "tree ?gs (lr_attrs (enrich spans ctx r)) = tree ?gs (lr_attrs r)
      @ [(?gs, ''SeverityNumber'', Num (otel_severity_number (lr_level r)))]
      @ (case spans ctx of None \<Rightarrow> [] | Some (t, s) \<Rightarrow> [(?gs, ''trace_id'', Str t), (?gs, ''span_id'', Str s)])"
  proof -
    show ?thesis by (simp add: enrich_def tree_append split: option.split)
  qed
  have "heading (enrich spans ctx r) = heading r" by (simp add: heading_def enrich_def)
  then show ?thesis
    using record_leaves_eq[of _ ?own ?gs "enrich spans ctx r"]
    by (auto simp: n t guarded_def Let_def)
qed

text \<open>
  C29: the JSON line of a record.  A handler of \<open>NewOTelJSONHandler\<close>, with any attributes and groups given to
  it since, writes one line: the timestamp in UTC (unless the record has no time), level and message; then its
  own attributes, those given since and those of the record, each under the groups open at that point; then,
  under all the open groups, the severity number and, with a valid span, its ids.  It panics exactly when some
  attribute outside every group has the key \<open>time\<close> and a value that is not a time, already when such an
  attribute is given to a handler.
\<close>

theorem otel_json_line:
  "let own = tree [] attrs @ spread [] ds; all = own @ tree (groups_of ds) (lr_attrs r)
       @ [(groups_of ds, ''SeverityNumber'', Num (otel_severity_number (lr_level r)))]
       @ (case spans ctx of None \<Rightarrow> [] | Some (t, s) \<Rightarrow> [(groups_of ds, ''trace_id'', Str t), (groups_of ds, ''span_id'', Str s)])
   in case Option.bind (new_otel_json_handler spans lv emit attrs) (derive ds) of
        None \<Rightarrow> list_ex untimely own
      | Some h \<Rightarrow> \<not> list_ex untimely own \<and> h_handle h ctx r w =
          (if list_ex untimely all then (w, Panicked)
           else map_prod id Returned (emit (heading r @ map written all) w))"
  by (rule otel_line)

text \<open>Under an open group the severity number is not beside the level.\<close>

lemma severity_is_nested:
  assumes "Option.bind (new_otel_json_handler spans lv emit []) (derive [With_Group g]) = Some h" "lr_attrs r = []" "spans ctx = None"
  shows "h_handle h ctx r w = map_prod id Returned (emit (heading r
    @ [([g], ''SeverityNumber'', Num (otel_severity_number (lr_level r)))]) w)"
  using otel_line[where spans = spans and lv = lv and emit = emit and attrs = "[]" and ds = "[With_Group g]" and r = r
      and ctx = ctx and w = w] assms by (simp add: Let_def)

section \<open>What a Logger writes\<close>

text \<open>
  Loggers made by \<open>WithName\<close> and \<open>WithValues\<close> from one over a handler, the attributes they were given, and
  the level, message and arguments that the four methods log.
\<close>

datatype naming = With_Name string | With_Values "log_arg list"

fun logger_from :: "naming list \<Rightarrow> ('c, 'w) handler \<Rightarrow> ('c, 'w) handler option" where
  "logger_from [] h = Some h"
| "logger_from (With_Name n # ns) h = Option.bind (slog_logger_with_name n h) (logger_from ns)"
| "logger_from (With_Values kvs # ns) h = Option.bind (slog_logger_with_values kvs h) (logger_from ns)"

fun given :: "naming list \<Rightarrow> log_attr list" where
  "given [] = []"
| "given (With_Name n # ns) = Attr ''logger'' (Str n) # given ns"
| "given (With_Values kvs # ns) = args_to_attrs kvs @ given ns"

fun logged :: "log_call \<Rightarrow> int \<times> string \<times> log_arg list" where
  "logged (Debug msg kvs) = (- 4, msg, kvs)"
| "logged (Info msg kvs) = (0, msg, kvs)"
| "logged (Warn msg kvs) = (4, msg, kvs)"
| "logged (Error e msg kvs) = (8, msg, kvs @ [Arg_Attr (Attr ''err'' (Fault e))])"

lemma derive_append: "derive (ds @ es) h = Option.bind (derive ds h) (derive es)"
proof (induction ds arbitrary: h)
  case (Cons d ds)
  then show ?case by (cases d) (auto split: bind_splits)
qed simp

lemma spread_append: "spread p (ds @ es) = spread p ds @ spread (p @ groups_of ds) es"
  by (induction p ds rule: spread.induct) simp_all

lemma groups_of_append: "groups_of (ds @ es) = groups_of ds @ groups_of es"
  by (induction ds rule: groups_of.induct) simp_all

fun naming_attrs :: "naming \<Rightarrow> derivation list" where
  "naming_attrs (With_Name n) = [With_Attrs [Attr ''logger'' (Str n)]]"
| "naming_attrs (With_Values kvs) = (if kvs = [] then [] else [With_Attrs (args_to_attrs kvs)])"

lemma logger_from_derive: "logger_from ns h = derive (concat (map naming_attrs ns)) h"
  by (induction ns h rule: logger_from.induct)
    (simp_all add: slog_logger_with_name_def slog_logger_with_values_def slog_with_def cong: Option.bind_cong)

lemma naming_spread:
  "spread p (concat (map naming_attrs ns)) = tree p (given ns)" "groups_of (concat (map naming_attrs ns)) = []"
  by (induction ns rule: given.induct) (simp_all add: tree_append)

lemma slog_log_call:
  "slog_logger_call bg now h c = (let (l, msg, args) = logged c in slog_log bg now h l msg args)"
  by (cases c) (simp_all add: slog_logger_call_def)

text \<open>
  C35: what a log call writes.  Take a handler of \<open>NewOTelJSONHandler\<close>, derived in any way, a \<open>Logger\<close> over it, named
  and given values in any order, and any of its four methods.  A call below the level does nothing.
  Another reads the clock and then either writes one line (the time, the method's level and
  message, all that the handler and the logger were given, the call's own pairs and for \<open>Error\<close> the
  error, the severity and the span of the background) and drops the writer's error, or panics:
  exactly when a pair outside every group, given at any of these points, has the key \<open>time\<close> and a value
  that is not a time; and if it was given to the handler or the logger, making them panicked.
\<close>

theorem logger_call_writes:
  "let gs = groups_of ds; own = tree [] attrs @ spread [] ds @ tree gs (given ns); (l, msg, args) = logged c;
       all = own @ tree gs (args_to_attrs args) @ [(gs, ''SeverityNumber'', Num (otel_severity_number l))]
         @ (case spans bg of None \<Rightarrow> [] | Some (t, s) \<Rightarrow> [(gs, ''trace_id'', Str t), (gs, ''span_id'', Str s)])
   in case Option.bind (Option.bind (new_otel_json_handler spans lv emit attrs) (derive ds)) (logger_from ns) of
        None \<Rightarrow> list_ex untimely own
      | Some h \<Rightarrow> \<not> list_ex untimely own \<and> slog_logger_call bg now h c w =
          (if \<not> json_enabled lv l w then (w, Returned None)
           else let (w, t) = now w in
             if list_ex untimely all then (w, Panicked)
             else (fst (emit ((if t = 0 then [] else [([], ''timestamp'', Str (format_nano t))])
                     @ [([], ''level'', Level l), ([], ''msg'', Str msg)] @ map written all) w), Returned None))"
proof -
  let ?ds = "ds @ concat (map naming_attrs ns)"
  obtain l msg args where c: "logged c = (l, msg, args)" by (rule prod_cases3)
  have d: "Option.bind (Option.bind x (derive ds)) (logger_from ns) = Option.bind x (derive ?ds)" for x :: "('a, 'b) handler option"
    by (cases x) (simp_all add: derive_append logger_from_derive cong: Option.bind_cong)
  have e: "h_enabled h bg l w = json_enabled lv l w"
    if "Option.bind (new_otel_json_handler spans lv emit attrs) (derive ?ds) = Some h" for h
    using that by (auto simp: derived_otel_json)
  note line = otel_line[where spans = spans and lv = lv and emit = emit and attrs = attrs and ds = ?ds and ctx = bg,
      unfolded Let_def spread_append groups_of_append naming_spread]
  show ?thesis
    unfolding d Let_def c
    using line[where r = "\<lparr>lr_time = snd (now w), lr_level = l, lr_msg = msg, lr_attrs = args_to_attrs args\<rparr>" and w = "fst (now w)"] e
    by (auto simp: slog_log_call c slog_log_def heading_def map_prod_def split: option.splits prod.splits)
qed

text \<open>So a string under the key \<open>time\<close> makes any enabled call of a logger outside every group panic.\<close>

lemma string_time_panics:
  assumes "Option.bind (new_otel_json_handler spans lv emit attrs) (derive ds) = Some h" "groups_of ds = []"
    and "logged c = (l, msg, Arg_Str ''time'' # Arg_Str v # args)" "json_enabled lv l w"
  shows "slog_logger_call bg now h c w = (fst (now w), Panicked)
    \<and> slog_logger_with_values (Arg_Str ''time'' # Arg_Str v # args') h = None"
proof -
  obtain ls where h: "h = otel_handler spans (json_handler lv emit ls [])"
    using assms(1,2) by (auto simp: derived_otel_json)
  have l: "leaves [] (Attr ''time'' (Str v) # as) = None" for as
    by (simp add: replace_attr_def both_None)
  have "record_leaves ls [] (enrich spans bg \<lparr>lr_time = t, lr_level = l, lr_msg = msg, lr_attrs = Attr ''time'' (Str v) # as\<rparr>) = None" for t as
    by (simp add: record_leaves_def enrich_def both_None replace_attr_def)
  with l show ?thesis using assms(3,4)
    by (auto simp: slog_log_call slog_log_def slog_logger_with_values_def slog_with_def h
        simp del: leaves.simps split: prod.split)
qed

section \<open>Timestamps\<close>

lemma length_dec_nat: "n < 10 ^ k \<Longrightarrow> 0 < k \<Longrightarrow> length (dec_nat n) \<le> k"
proof (induction k arbitrary: n)
  case (Suc k)
  show ?case
  proof (cases "n < 10")
    case False
    then have "n div 10 < 10 ^ k" "0 < k" using Suc.prems(1) by (auto intro: Nat.gr0I)
    then show ?thesis using Suc.IH[of "n div 10"] False by (subst dec_nat.simps) simp
  qed (subst dec_nat.simps, simp)
qed simp

lemma digits_val_zeros: "digits_val 0 (replicate n (CHR ''0'') @ ds) = digits_val 0 ds"
  "digits_val a (replicate n (CHR ''0'')) = a * 10 ^ n"
proof -
  have "digit_val (CHR ''0'') = Some 0" by code_simp
  then show "digits_val 0 (replicate n (CHR ''0'') @ ds) = digits_val 0 ds"
    "digits_val a (replicate n (CHR ''0'')) = a * 10 ^ n"
    by (induction n arbitrary: a) simp_all
qed

lemma parse_frac_nano:
  assumes "0 < ns" "ns < second"
  defines "ds \<equiv> rev (dropWhile (\<lambda>c. c = CHR ''0'') (rev (append_int ns 9)))"
  shows "parse_frac (CHR ''.'' # ds @ ''Z'') = (ns, ''Z'')"
proof -
  have len: "length (dec_nat (nat ns)) \<le> 9" using assms(1,2) by (intro length_dec_nat) simp_all
  define S where "S = append_int ns 9"
  have S: "S = replicate (9 - length (dec_nat (nat ns))) (CHR ''0'') @ dec_nat (nat ns)"
    using assms(1) by (simp add: S_def append_int_def Let_def)
  then have v: "digits_val 0 S = ns" using assms(1) by (simp add: digits_val_zeros digits_val_dec_nat)
  have digit_zero: "is_digit (CHR ''0'')" by code_simp
  have d: "list_all is_digit S" "length S = 9"
    using len dec_nat_digits[of "nat ns"] digit_zero by (auto simp: S list_all_iff)
  define z where "z = length (takeWhile (\<lambda>c. c = CHR ''0'') (rev S))"
  have "takeWhile (\<lambda>c. c = CHR ''0'') (rev S) = replicate z (CHR ''0'')"
    unfolding z_def by (intro replicate_eqI) (auto dest: set_takeWhileD)
  then have "rev S = replicate z (CHR ''0'') @ rev ds"
    using takeWhile_dropWhile_id[of "\<lambda>c. c = CHR ''0''" "rev S"] by (simp add: ds_def S_def)
  then have split: "S = ds @ replicate z (CHR ''0'')" by (metis rev_append rev_replicate rev_rev_ident)
  have ne: "ds \<noteq> []"
  proof
    assume "ds = []"
    with split v have "ns = 0" using digits_val_zeros(2)[of 0 z] by simp
    with assms(1) show False by simp
  qed
  have dd: "list_all is_digit ds" "length ds \<le> 9" "z = 9 - length ds"
    using d split by auto
  have "\<not> is_digit (CHR ''Z'')" by code_simp
  then have tw: "takeWhile is_digit (ds @ ''Z'') = ds" "dropWhile is_digit (ds @ ''Z'') = ''Z''"
    using dd(1) by (auto simp: takeWhile_append dropWhile_append list_all_iff)
  have "digits_val 0 ds * 10 ^ (9 - length ds) = ns"
    using v split dd(3) digits_val_append[of 0 ds] by (simp add: digits_val_zeros(2))
  moreover obtain c r where "ds = c # r" "is_digit c" using ne dd(1) by (cases ds) auto
  ultimately show ?thesis using tw dd(2) by (simp add: parse_frac_def)
qed

lemma parse_parts_frac:
  assumes "0 \<le> y" "y < 10000" "1 \<le> m" "m \<le> 12" "1 \<le> d" "d \<le> days_in m y"
    "0 \<le> h" "h < 24" "0 \<le> mi" "mi < 60" "0 \<le> s" "s < 60" "parse_frac z = (ns, ''Z'')"
  shows "parse_rfc3339 (append_int y 4 @ ''-'' @ append_int m 2 @ ''-'' @ append_int d 2 @ ''T''
      @ append_int h 2 @ '':'' @ append_int mi 2 @ '':'' @ append_int s 2 @ z)
    = Some (Time ((days_of_civil y m d * 86400 + h * 3600 + mi * 60 + s) * second + ns) 0)"
proof -
  have "d < 100" using assms days_in_le[of m y] by simp
  moreover have "parse_zone ''Z'' = Some 0" by (simp add: parse_zone_def)
  ultimately show ?thesis using assms by (simp add: parse_rfc3339_def)
qed

text \<open>
  Timestamps keep every nanosecond.  The timestamp of a record whose time falls in the years 0 to 9999
  reads back, by \<open>time.Parse\<close> with \<open>time.RFC3339\<close>, as exactly that time in UTC.
\<close>

theorem timestamp_reads_back:
  assumes "printable (Time t 0)"
  shows "parse_rfc3339 (format_nano t) = Some (Time t 0)"
proof -
  define secs where "secs = t div second"
  obtain y m d where c: "civil_of_days (secs div 86400) = (y, m, d)" by (metis prod_cases3)
  define sod where "sod = secs mod 86400"
  note C = civil_of_days_correct[OF c]
  have y: "0 \<le> y" "y < 10000" using assms c by (auto simp: printable_def civil_year_def secs_def)
  have s: "0 \<le> sod div 3600" "sod div 3600 < 24" "0 \<le> sod mod 3600 div 60"
    "sod mod 3600 div 60 < 60" "0 \<le> sod mod 60" "sod mod 60 < 60"
    by (auto simp: sod_def)
  have "sod mod 3600 div 60 * 60 + sod mod 60 = sod mod 3600"
    using div_mult_mod_eq[of "sod mod 3600" 60] by (simp add: mod_mod_cancel)
  then have "secs div 86400 * 86400 + sod div 3600 * 3600 + sod mod 3600 div 60 * 60 + sod mod 60 = secs"
    using div_mult_mod_eq[of sod 3600] div_mult_mod_eq[of secs 86400] unfolding sod_def by linarith
  then have eq: "(days_of_civil y m d * 86400 + sod div 3600 * 3600 + sod mod 3600 div 60 * 60 + sod mod 60) * second
      + t mod second = t"
    using div_mult_mod_eq[of t second] by (simp only: C(5) secs_def)
  define pre where "pre = append_int y 4 @ ''-'' @ append_int m 2 @ ''-'' @ append_int d 2 @ ''T''
      @ append_int (sod div 3600) 2 @ '':'' @ append_int (sod mod 3600 div 60) 2 @ '':'' @ append_int (sod mod 60) 2"
  have f: "format_rfc3339 (Time t 0) = pre @ ''Z''"
    by (simp add: format_rfc3339_def Let_def c pre_def format_zone_def flip: secs_def sod_def)
  show ?thesis
  proof (cases "t mod second = 0")
    case True
    then show ?thesis using parse_format[OF assms] div_mult_mod_eq[of t second] by (simp add: format_nano_def trunc_second_def)
  next
    case False
    then have ns: "0 < t mod second" "t mod second < second" using pos_mod_sign[of second t] by auto
    have "format_nano t = pre @ CHR ''.'' # rev (dropWhile (\<lambda>c. c = CHR ''0'') (rev (append_int (t mod second) 9))) @ ''Z''"
      using False by (simp add: format_nano_def Let_def f butlast_append)
    then show ?thesis
      using parse_parts_frac[OF y C(1-4) s parse_frac_nano[OF ns]] eq by (simp add: pre_def)
  qed
qed

theorem timestamp_reads_back_witness:
  "parse_rfc3339 (format_nano 63929432956120000000) = Some (Time 63929432956120000000 0)"
proof -
  have "printable (Time 63929432956120000000 0)" by code_simp
  then show ?thesis by (rule timestamp_reads_back)
qed

section \<open>At concrete inputs\<close>

text \<open>Two writers of lines; the first stores the line and reports a full disk.\<close>

definition full_disk :: "(unit, leaf list list) handler" where
  "full_disk = json_handler None (\<lambda>l w. (w @ [l], Some (Foreign 0 ''no space left''))) [] []"

definition sound_disk :: "(unit, leaf list list) handler" where
  "sound_disk = json_handler None (\<lambda>l w. (w @ [l], None)) [] []"

definition hello_record :: log_record where
  "hello_record = \<lparr>lr_time = 0, lr_level = level_warn, lr_msg = ''hello'', lr_attrs = []\<rparr>"

theorem tee_is_its_handlers_witness:
  "\<exists>h. derive [With_Group ''g''] (tee_handler [full_disk, sound_disk]) = Some h
    \<and> h_handle h () hello_record [] = ([heading hello_record, heading hello_record], Returned (Some (Foreign 0 ''no space left'')))"
proof -
  obtain h where h: "derive [With_Group ''g''] (tee_handler [full_disk, sound_disk]) = Some h" by simp
  obtain hs' where hs: "map (derive [With_Group ''g'']) [full_disk, sound_disk] = map Some hs'"
    "h_handle h () hello_record [] = (case offers hs' () hello_record [] of
        (w, None) \<Rightarrow> (w, Panicked) | (w, Some es) \<Rightarrow> (w, Returned (first_error es)))"
    using tee_is_its_handlers[OF h, of "()" hello_record "[]"] by blast
  then have "hs' = [h_group full_disk ''g'', h_group sound_disk ''g'']" by (auto simp: Cons_eq_map_conv)
  then show ?thesis using h hs(2)
    by (simp add: full_disk_def sound_disk_def json_enabled_def record_leaves_def heading_def hello_record_def both_def
        replace_attr_def first_error_def)
qed

text \<open>An error logged through a named logger with a value, to a writer that fails: its line is there, its error is not.\<close>

theorem logger_call_writes_witness:
  "\<exists>h. Option.bind (Option.bind (new_otel_json_handler (\<lambda>_ :: unit. None) None (\<lambda>l w. (w @ [l], Some (Foreign 0 ''no space left''))) [])
        (derive [])) (logger_from [With_Name ''greeting'', With_Values [Arg_Str ''attempt'', Arg_Value (Num 2)]]) = Some h
    \<and> slog_logger_call () (\<lambda>w. (w, 0)) h (Error (Some (Foreign 1 ''gone'')) ''failed'' []) []
      = ([[([], ''level'', Level 8), ([], ''msg'', Str ''failed''), ([], ''logger'', Str ''greeting''), ([], ''attempt'', Num 2),
           ([], ''err'', Fault (Some (Foreign 1 ''gone''))), ([], ''SeverityNumber'', Num 17)]], Returned None)"
proof -
  let ?ns = "[With_Name ''greeting'', With_Values [Arg_Str ''attempt'', Arg_Value (Num 2)]]"
  let ?emit = "\<lambda>l (w :: leaf list list). (w @ [l], Some (Foreign 0 ''no space left''))"
  let ?h = "Option.bind (Option.bind (new_otel_json_handler (\<lambda>_ :: unit. None) None ?emit []) (derive [])) (logger_from ?ns)"
  note line = logger_call_writes[where ds = "[]" and attrs = "[]" and ns = ?ns and spans = "\<lambda>_ :: unit. None" and lv = None
      and emit = ?emit and bg = "()" and now = "\<lambda>w. (w, 0)" and w = "[]"
      and c = "Error (Some (Foreign 1 ''gone'')) ''failed'' []"]
  obtain h where h: "?h = Some h" using line by (cases ?h) (simp_all add: Let_def)
  show ?thesis using line unfolding h by (simp add: Let_def json_enabled_def otel_severity_number_def)
qed

end
