(* ===== verification/References.thy ===== *)
theory References
  imports Errors Reconciler_State
begin

text \<open>
  References of package resource: the values of config maps and secrets (src/pkg/resource/resource.go), the
  status of a reference (src/pkg/resource/reference.go), with the selectors of
  src/apis/common/v1/resource.go.  The client's \<open>Get\<close> gives the data of an object of a namespace and a
  name; \<open>fmt.Sprintf\<close> is a parameter.
\<close>

record reference =
  rf_name :: string
  rf_namespace :: string

record key_selector = reference +
  ks_key :: string

type_synonym 'w data_get = "string \<Rightarrow> string \<Rightarrow> 'w \<Rightarrow> 'w \<times> strmap option \<times> err option"

definition get_config_map_value ::
  "(string \<Rightarrow> string list \<Rightarrow> string) \<Rightarrow> 'w data_get \<Rightarrow> key_selector option \<Rightarrow> 'w \<Rightarrow> 'w \<times> string \<times> err option" where
  "get_config_map_value sprintf get ref w =
     (case ref of None \<Rightarrow> (w, [], Some (new_err ''no configmap referenced''))
      | Some r \<Rightarrow>
          (case get (rf_namespace r) (rf_name r) w of
             (w, data, Some e) \<Rightarrow> (w, [], wrapf sprintf (Some e) ''cannot get %s configmap'' [rf_name r])
           | (w, data, None) \<Rightarrow> (w, map_get data (ks_key r), None)))"

definition get_secret ::
  "(string \<Rightarrow> string list \<Rightarrow> string) \<Rightarrow> 'w data_get \<Rightarrow> key_selector option \<Rightarrow> 'w \<Rightarrow> 'w \<times> string \<times> err option" where
  "get_secret sprintf get ref w =
     (case ref of None \<Rightarrow> (w, [], Some (new_err ''no credentials secret referenced''))
      | Some r \<Rightarrow>
          (case get (rf_namespace r) (rf_name r) w of
             (w, data, Some e) \<Rightarrow> (w, [], wrapf sprintf (Some e) ''cannot get %s secret'' [rf_name r])
           | (w, data, None) \<Rightarrow> (w, map_get data (ks_key r), None)))"

text \<open>Whether the error has a method \<open>MissingReference\<close> is the parameter \<open>missing\<close>.\<close>

definition is_missing_reference :: "(err \<Rightarrow> bool) \<Rightarrow> err option \<Rightarrow> bool" where
  "is_missing_reference missing e = (case e of None \<Rightarrow> False | Some e \<Rightarrow> missing e)"

text \<open>\<open>MustCreateObject\<close> panics (\<open>None\<close>) with the creater's error.\<close>

definition must_create_object :: "('k \<Rightarrow> err + 'o) \<Rightarrow> 'k \<Rightarrow> 'o option" where
  "must_create_object new kind = (case new kind of Inl e \<Rightarrow> None | Inr obj \<Rightarrow> Some obj)"

text \<open>A status is an integer; printing one without a name panics, and \<open>fmt\<close> then prints the panic.\<close>

definition reference_status_unknown :: int where "reference_status_unknown = 0"
definition reference_not_found :: int where "reference_not_found = 1"
definition reference_not_ready :: int where "reference_not_ready = 2"
definition reference_ready :: int where "reference_ready = 3"

definition status_string :: "int \<Rightarrow> string option" where
  "status_string t =
     (let names = [''Unknown'', ''NotFound'', ''NotReady'', ''Ready'']
      in if 0 \<le> t \<and> t < int (length names) then Some (names ! nat t) else None)"

record reference_status =
  rs_name :: string
  rs_status :: int

definition reference_status_string :: "string \<Rightarrow> reference_status \<Rightarrow> string" where
  "reference_status_string panicked r =
     ''{reference:'' @ rs_name r @ '' status:''
       @ (case status_string (rs_status r) of None \<Rightarrow> panicked | Some s \<Rightarrow> s) @ ''}''"

text \<open>
  A lookup fails with the error of the client in its chain, so that the filters of errors see through it,
  and a key that is not there is no error.
\<close>

lemma get_value_error:
  assumes "get (rf_namespace r) (rf_name r) w = (w', data, Some e)"
  shows "\<exists>m. get_secret sprintf get (Some r) w = (w', [], Some (Wrapped m e))"
    "\<exists>m. get_config_map_value sprintf get (Some r) w = (w', [], Some (Wrapped m e))"
  using assms by (simp_all add: get_secret_def get_config_map_value_def wrapf_def with_messagef_def)

lemma get_value_missing_key:
  assumes "get (rf_namespace r) (rf_name r) w = (w', data, None)" "Mapping.lookup (map_norm data) (ks_key r) = None"
  shows "get_secret sprintf get (Some r) w = (w', [], None)"
    "get_config_map_value sprintf get (Some r) w = (w', [], None)"
  using assms by (auto simp: get_secret_def get_config_map_value_def map_get_def map_norm_def split: option.splits)

lemma status_string_inj:
  assumes "status_string t = Some s" "status_string u = Some s"
  shows "t = u"
proof -
  have "nat t < 4" "nat u < 4" "0 \<le> t" "0 \<le> u"
    using assms by (auto simp: status_string_def Let_def split: if_splits)
  moreover from this have "[''Unknown'', ''NotFound'', ''NotReady'', ''Ready''] ! nat t = [''Unknown'', ''NotFound'', ''NotReady'', ''Ready''] ! nat u"
    using assms by (auto simp: status_string_def Let_def split: if_splits)
  ultimately have "nat t = nat u" by (subst (asm) nth_eq_iff_index_eq) simp_all
  with \<open>0 \<le> t\<close> \<open>0 \<le> u\<close> show ?thesis by simp
qed

end
