(* ===== verification/Adapters.thy ===== *)
theory Adapters
  imports New_Reconciler Strconv
begin

text \<open>
  The adapters of src/pkg/reconciler/reconciler.go that turn functions into connecters, clients and updaters,
  and \<open>ControllerName\<close>.  None of them has the methods that name rate-limit keys, so a connecter behind one of
  them is not asked for its keys.
\<close>

section \<open>Adapters\<close>

definition controller_name :: "(string \<Rightarrow> string) \<Rightarrow> string \<Rightarrow> string" where
  "controller_name unicode_lower kind =
     ''managed/'' @ (if list_all is_ascii kind then lower kind else unicode_lower kind)"

definition critical_annotation_update_fn :: "('w, 'p) api \<Rightarrow> ('w, 'p) api" where
  "critical_annotation_update_fn fn o' w = fn o' w"

text \<open>A connecter with a way to disconnect.\<close>

type_synonym ('w, 'p, 'c) connect_disconnecter = "('w, 'p, 'c) connecter \<times> ('w \<Rightarrow> 'w \<times> err option)"

definition new_nop_disconnecter :: "('w, 'p, 'c) connecter \<Rightarrow> ('w, 'p, 'c) connect_disconnecter" where
  "new_nop_disconnecter c = (c\<lparr>cn_keys := no_keys\<rparr>, nop_disconnect)"

definition external_connector_fn ::
  "('p managed \<Rightarrow> 'w \<Rightarrow> 'w \<times> 'p managed \<times> (err + 'c)) \<Rightarrow> ('c \<Rightarrow> ('w, 'p) external_client) \<Rightarrow> ('w, 'p, 'c) connecter" where
  "external_connector_fn ec client = \<lparr>cn_connect = ec, cn_client = client, cn_keys = no_keys\<rparr>"

definition external_disconnector_fn :: "('w \<Rightarrow> 'w \<times> err option) \<Rightarrow> 'w \<Rightarrow> 'w \<times> err option" where
  "external_disconnector_fn ed w = ed w"

definition external_connect_disconnecter_fns ::
  "('p managed \<Rightarrow> 'w \<Rightarrow> 'w \<times> 'p managed \<times> (err + 'c)) \<Rightarrow> ('c \<Rightarrow> ('w, 'p) external_client)
     \<Rightarrow> ('w \<Rightarrow> 'w \<times> err option) \<Rightarrow> ('w, 'p, 'c) connect_disconnecter" where
  "external_connect_disconnecter_fns conn client disc = (external_connector_fn conn client, disc)"

definition external_client_fns ::
  "('p managed \<Rightarrow> 'w \<Rightarrow> 'w \<times> 'p managed \<times> (err + observation)) \<Rightarrow> ('w, 'p) api \<Rightarrow> ('w, 'p) api \<Rightarrow> ('w, 'p) api
     \<Rightarrow> ('w, 'p) external_client" where
  "external_client_fns obs cr up de =
     \<lparr>xc_observe = obs, xc_create = cr, xc_update = up, xc_delete = de, xc_keys = no_keys\<rparr>"

definition nop_connecter :: "('w, 'p, unit) connecter" where
  "nop_connecter = \<lparr>cn_connect = (\<lambda>mg w. (w, mg, Inr ())), cn_client = (\<lambda>_. nop_client), cn_keys = no_keys\<rparr>"

text \<open>A finalizer is its two methods; \<open>WithFinalizer\<close> takes one.\<close>

definition finalizer_fns :: "('w, 'p) api \<Rightarrow> ('w, 'p) api \<Rightarrow> ('w, 'p) api \<times> ('w, 'p) api" where
  "finalizer_fns add remove = (add, remove)"

text \<open>
  The client's settings that \<open>LimitRESTConfig\<close> changes in its copy, of src/pkg/ratelimiter/default.go; \<open>float32\<close>
  is the conversion of an \<open>int\<close>.
\<close>

record 'f rest_config =
  rc_qps :: 'f
  rc_burst :: int

definition limit_rest_config :: "(int \<Rightarrow> 'f) \<Rightarrow> 'f rest_config \<Rightarrow> int \<Rightarrow> 'f rest_config" where
  "limit_rest_config float32 cfg rps = cfg\<lparr>rc_qps := float32 (i64 (rps * 5)), rc_burst := i64 (rps * 10)\<rparr>"

section \<open>What they leave of a reconciler\<close>

definition with_pair :: "('w, 'p, 'c) connect_disconnecter \<Rightarrow> ('w, 'p, 'c) reconciler_option" where
  "with_pair x = with_external_connect_disconnecter (fst x) (snd x)"

text \<open>
  Wrapped by hand, a connecter connects as \<open>WithExternalConnecter\<close> would have it, but its keys are lost, so the
  first gate of a pass asks for none of them.
\<close>

lemma nop_disconnecter_loses_keys:
  "fst (with_pair (new_nop_disconnecter c) (R, w)) = (fst (with_external_connecter c (R, w)))\<lparr>r_keyer := None\<rparr>"
  by (simp add: with_pair_def new_nop_disconnecter_def with_external_connecter_def with_external_connect_disconnecter_def
      client_of_def keyer_of_def no_keys_def cong: option.case_cong)

lemma adapters_have_no_keyer:
  "r_keyer (fst (with_pair (external_connect_disconnecter_fns conn client disc) (R, w))) = None"
  "r_client_keyer (fst (with_pair (external_connect_disconnecter_fns conn
     (\<lambda>c. external_client_fns (obs c) (cr c) (up c) (de c)) disc) (R, w))) c = None"
  by (simp_all add: with_pair_def external_connect_disconnecter_fns_def external_connector_fn_def keyer_of_def no_keys_def
      with_external_connect_disconnecter_def external_client_fns_def client_of_def nop_client_def split: option.split)

text \<open>The default reconciler connects through the connecter that does nothing.\<close>

lemma nop_connecter_is_default:
  fixes m :: "('w, 'p) cluster"
  shows "let R = fst (with_external_connecter nop_connecter (blank_reconciler m, w)); D = blank_reconciler m in
    r_observe R (Some ()) = r_observe D None \<and> r_create R (Some ()) = r_create D None
    \<and> r_ext_update R (Some ()) = r_ext_update D None \<and> r_delete R (Some ()) = r_delete D None
    \<and> r_disconnect R = r_disconnect D \<and> r_keyer R = r_keyer D"
  by (simp add: Let_def with_external_connecter_def with_external_connect_disconnecter_def nop_connecter_def
      blank_reconciler_def client_of_def keyer_of_def no_keys_def)

end
