(* ===== verification/Deep_Copy.thy ===== *)
theory Deep_Copy
  imports Conditions References
begin

text \<open>
  The objects of src/apis/common/v1 in memory: conditions live in an array that the copies of a status share
  unless they are deep copies (zz_generated.deepcopy.go), and \<open>SetConditions\<close> (condition.go) writes into it.  The
  other theories take a status as the list of its conditions; here a status is a slice, and what happens
  to one status is shown not to happen to its deep copies.  A cell is an array of conditions, or what a pointer of
  \<open>CredentialSelectors\<close> points to.  How far \<open>append\<close> grows an array is a parameter.
\<close>

section \<open>Memory\<close>

datatype cell = Array "condition list" | Env string | Secret key_selector

record memory =
  cells :: "(nat, cell) mapping"
  next_free :: nat

definition store :: "nat \<Rightarrow> cell \<Rightarrow> memory \<Rightarrow> memory" where
  "store a c m = m\<lparr>cells := Mapping.update a c (cells m)\<rparr>"

definition allocate :: "cell \<Rightarrow> memory \<Rightarrow> memory \<times> nat" where
  "allocate c m = (store (next_free m) c m\<lparr>next_free := next_free m + 1\<rparr>, next_free m)"

definition array_at :: "memory \<Rightarrow> nat \<Rightarrow> condition list" where
  "array_at m a = (case Mapping.lookup (cells m) a of Some (Array xs) \<Rightarrow> xs | _ \<Rightarrow> [])"

text \<open>A slice from the start of its array; the zero slice is nil.\<close>

record slice =
  sl_addr :: nat
  sl_len :: nat

type_synonym status = "slice option"

definition status_view :: "memory \<Rightarrow> status \<Rightarrow> condition list" where
  "status_view m s = (case s of None \<Rightarrow> [] | Some sl \<Rightarrow> take (sl_len sl) (array_at m (sl_addr sl)))"

definition zero_condition :: condition where
  "zero_condition = \<lparr>c_type = [], c_status = [], c_last_transition = zero_time, c_reason = [], c_message = []\<rparr>"

section \<open>SetConditions in memory\<close>

definition set_slot :: "condition \<Rightarrow> nat \<Rightarrow> nat \<Rightarrow> memory \<times> bool \<Rightarrow> memory \<times> bool" where
  "set_slot new a i = (\<lambda>(m, exists).
     let e = array_at m a ! i in
     if c_type e \<noteq> c_type new then (m, exists)
     else if condition_equal e new then (m, True)
     else (store a (Array ((array_at m a)[i := new])) m, True))"

definition append_condition :: "(nat \<Rightarrow> nat) \<Rightarrow> condition \<Rightarrow> memory \<Rightarrow> status \<Rightarrow> memory \<times> status" where
  "append_condition grow new m s =
     (let n = (case s of None \<Rightarrow> 0 | Some sl \<Rightarrow> sl_len sl);
          cap = (case s of None \<Rightarrow> 0 | Some sl \<Rightarrow> length (array_at m (sl_addr sl)))
      in case s of
           Some sl \<Rightarrow>
             if n < cap then (store (sl_addr sl) (Array ((array_at m (sl_addr sl))[n := new])) m, Some (sl\<lparr>sl_len := n + 1\<rparr>))
             else (case allocate (Array (status_view m s @ new # replicate (grow n) zero_condition)) m of
                     (m, a) \<Rightarrow> (m, Some \<lparr>sl_addr = a, sl_len = n + 1\<rparr>))
         | None \<Rightarrow> (case allocate (Array (new # replicate (grow n) zero_condition)) m of
                     (m, a) \<Rightarrow> (m, Some \<lparr>sl_addr = a, sl_len = n + 1\<rparr>)))"

definition set_condition_at :: "(nat \<Rightarrow> nat) \<Rightarrow> condition \<Rightarrow> memory \<times> status \<Rightarrow> memory \<times> status" where
  "set_condition_at grow new = (\<lambda>(m, s).
     case (case s of None \<Rightarrow> (m, False)
           | Some sl \<Rightarrow> fold (set_slot new (sl_addr sl)) [0..<sl_len sl] (m, False)) of
       (m, exists) \<Rightarrow> if exists then (m, s) else append_condition grow new m s)"

definition set_conditions_at :: "(nat \<Rightarrow> nat) \<Rightarrow> condition list \<Rightarrow> memory \<times> status \<Rightarrow> memory \<times> status" where
  "set_conditions_at grow = fold (set_condition_at grow)"

section \<open>Deep copies\<close>

definition condition_copy :: "condition \<Rightarrow> condition" where
  "condition_copy c = c\<lparr>c_last_transition := c_last_transition c\<rparr>"

definition copy_slot :: "nat \<Rightarrow> nat \<Rightarrow> nat \<Rightarrow> memory \<Rightarrow> memory" where
  "copy_slot from to i m = store to (Array ((array_at m to)[i := condition_copy (array_at m from ! i)])) m"

definition status_copy_into :: "memory \<Rightarrow> status \<Rightarrow> memory \<times> status" where
  "status_copy_into m s =
     (case s of None \<Rightarrow> (m, None)
      | Some sl \<Rightarrow>
          (case allocate (Array (replicate (sl_len sl) zero_condition)) m of
             (m, a) \<Rightarrow> (fold (copy_slot (sl_addr sl) a) [0..<sl_len sl] m, Some \<lparr>sl_addr = a, sl_len = sl_len sl\<rparr>)))"

definition reference_copy_into :: "reference \<Rightarrow> reference" where "reference_copy_into r = r"

definition selector_copy_into :: "key_selector \<Rightarrow> key_selector" where
  "selector_copy_into r = r\<lparr>rf_name := rf_name r, rf_namespace := rf_namespace r\<rparr>"

record credential_selectors =
  cs_env :: "nat option"
  cs_secret :: "nat option"

text \<open>A pointer copied: nil, or a new cell with the old one's content.\<close>

definition copy_cell :: "memory \<Rightarrow> nat option \<Rightarrow> memory \<times> nat option" where
  "copy_cell m p =
     (case p of None \<Rightarrow> (m, None)
      | Some a \<Rightarrow>
          (case Mapping.lookup (cells m) a of None \<Rightarrow> (m, None)
           | Some c \<Rightarrow> (case allocate c m of (m, b) \<Rightarrow> (m, Some b))))"

definition credentials_copy_into :: "memory \<Rightarrow> credential_selectors \<Rightarrow> memory \<times> credential_selectors" where
  "credentials_copy_into m c =
     (case copy_cell m (cs_env c) of (m, e) \<Rightarrow>
      case copy_cell m (cs_secret c) of (m, k) \<Rightarrow> (m, \<lparr>cs_env = e, cs_secret = k\<rparr>))"

text \<open>\<open>DeepCopy\<close> of a possibly-nil receiver.\<close>

definition deep_copy :: "(memory \<Rightarrow> 'a \<Rightarrow> memory \<times> 'a) \<Rightarrow> memory \<Rightarrow> 'a option \<Rightarrow> memory \<times> 'a option" where
  "deep_copy into m p = (case p of None \<Rightarrow> (m, None) | Some x \<Rightarrow> map_prod id Some (into m x))"

definition condition_deep_copy :: "memory \<Rightarrow> condition option \<Rightarrow> memory \<times> condition option" where
  "condition_deep_copy = deep_copy (\<lambda>m c. (m, condition_copy c))"

definition conditioned_status_deep_copy :: "memory \<Rightarrow> status option \<Rightarrow> memory \<times> status option" where
  "conditioned_status_deep_copy = deep_copy status_copy_into"

definition selector_deep_copy :: "memory \<Rightarrow> key_selector option \<Rightarrow> memory \<times> key_selector option" where
  "selector_deep_copy = deep_copy (\<lambda>m r. (m, selector_copy_into r))"

definition credentials_deep_copy :: "memory \<Rightarrow> credential_selectors option \<Rightarrow> memory \<times> credential_selectors option" where
  "credentials_deep_copy = deep_copy credentials_copy_into"

definition reference_deep_copy :: "memory \<Rightarrow> reference option \<Rightarrow> memory \<times> reference option" where
  "reference_deep_copy = deep_copy (\<lambda>m r. (m, reference_copy_into r))"

definition env_deep_copy :: "memory \<Rightarrow> string option \<Rightarrow> memory \<times> string option" where
  "env_deep_copy = deep_copy (\<lambda>m e. (m, e))"

text \<open>The object of the example (src/examples/greeting-controller/main.go), and its list; \<open>meta\<close> copies the metadata.\<close>

record 'm greeting_object =
  go_meta :: 'm
  go_message :: string
  go_status :: status

definition greeting_deep_copy ::
  "(memory \<Rightarrow> 'm \<Rightarrow> memory \<times> 'm) \<Rightarrow> memory \<Rightarrow> 'm greeting_object \<Rightarrow> memory \<times> 'm greeting_object" where
  "greeting_deep_copy meta m g =
     (case meta m (go_meta g) of (m, mt) \<Rightarrow>
      case conditioned_status_deep_copy m (Some (go_status g)) of (m, cs) \<Rightarrow>
        (m, \<lparr>go_meta = mt, go_message = go_message g, go_status = (case cs of None \<Rightarrow> None | Some s \<Rightarrow> s)\<rparr>))"

fun greeting_list_deep_copy ::
  "(memory \<Rightarrow> 'm \<Rightarrow> memory \<times> 'm) \<Rightarrow> memory \<Rightarrow> 'm greeting_object list \<Rightarrow> memory \<times> 'm greeting_object list" where
  "greeting_list_deep_copy meta m [] = (m, [])"
| "greeting_list_deep_copy meta m (g # gs) =
     (case greeting_deep_copy meta m g of (m, g) \<Rightarrow>
      case greeting_list_deep_copy meta m gs of (m, gs) \<Rightarrow> (m, g # gs))"

end
