(* ===== verification/Deep_Copy_Props.thy ===== *)
theory Deep_Copy_Props
  imports Deep_Copy
begin

text \<open>
  A status in memory refines the list of conditions of the other theories, and a deep copy of it is a snapshot:
  whatever is set on one of the two later, the other reads as before.
\<close>

section \<open>Cells\<close>

lemma array_at_store [simp]: "array_at (store a (Array xs) m) b = (if b = a then xs else array_at m b)"
  by (simp add: array_at_def store_def lookup_update')

lemma next_free_store [simp]: "next_free (store a c m) = next_free m"
  by (simp add: store_def)

lemma allocate_array:
  assumes "allocate (Array xs) m = (m', a)"
  shows "a = next_free m" "next_free m' = Suc (next_free m)" "array_at m' b = (if b = a then xs else array_at m b)"
  using assms by (auto simp: allocate_def array_at_def store_def lookup_update')

text \<open>A status whose array is there, and another whose array is a different one.\<close>

definition status_ok :: "memory \<Rightarrow> status \<Rightarrow> bool" where
  "status_ok m s \<longleftrightarrow> (\<forall>sl. s = Some sl \<longrightarrow> sl_addr sl < next_free m \<and> sl_len sl \<le> length (array_at m (sl_addr sl)))"

definition apart :: "memory \<Rightarrow> status \<Rightarrow> status \<Rightarrow> bool" where
  "apart m s t \<longleftrightarrow> (\<forall>sl. t = Some sl \<longrightarrow> sl_addr sl < next_free m \<and> (\<forall>sl'. s = Some sl' \<longrightarrow> sl_addr sl' \<noteq> sl_addr sl))"

text \<open>From one state of a status to the next, nothing else that was there changes.\<close>

definition only_changes :: "memory \<Rightarrow> status \<Rightarrow> memory \<Rightarrow> status \<Rightarrow> bool" where
  "only_changes m s m' s' \<longleftrightarrow> next_free m \<le> next_free m'
     \<and> (\<forall>a < next_free m. (\<forall>sl. s = Some sl \<longrightarrow> sl_addr sl \<noteq> a) \<longrightarrow> array_at m' a = array_at m a)
     \<and> (\<forall>sl'. s' = Some sl' \<longrightarrow> next_free m \<le> sl_addr sl' \<or> (\<exists>sl. s = Some sl \<and> sl_addr sl' = sl_addr sl))"

lemma only_changes_refl: "only_changes m s m s"
  by (auto simp: only_changes_def)

lemma only_changes_apart:
  assumes "only_changes m s m' s'" "apart m s t"
  shows "apart m' s' t" "status_view m' t = status_view m t"
proof -
  show "apart m' s' t" using assms unfolding only_changes_def apart_def by fastforce
  show "status_view m' t = status_view m t"
    using assms by (cases t) (auto simp: only_changes_def apart_def status_view_def)
qed

lemma only_changes_trans:
  assumes "only_changes m s m1 s1" "only_changes m1 s1 m2 s2"
  shows "only_changes m s m2 s2"
proof -
  have "array_at m2 a = array_at m a" if "a < next_free m" "\<forall>sl. s = Some sl \<longrightarrow> sl_addr sl \<noteq> a" for a
  proof -
    have "\<forall>sl. s1 = Some sl \<longrightarrow> sl_addr sl \<noteq> a" using assms(1) that by (fastforce simp: only_changes_def)
    then show ?thesis using assms that by (auto simp: only_changes_def)
  qed
  then show ?thesis using assms unfolding only_changes_def by (auto intro: order.trans)
qed

section \<open>SetConditions\<close>

definition replaced :: "condition \<Rightarrow> condition \<Rightarrow> condition" where
  "replaced new e = (if c_type e \<noteq> c_type new then e else if condition_equal e new then e else new)"

lemma set_slots:
  assumes "n \<le> length (array_at m a)" "fold (set_slot new a) [0..<n] (m, False) = (m', b)"
  shows "array_at m' a = map (replaced new) (take n (array_at m a)) @ drop n (array_at m a)
    \<and> (b \<longleftrightarrow> (\<exists>e \<in> set (take n (array_at m a)). c_type e = c_type new))
    \<and> next_free m' = next_free m \<and> (\<forall>c. c \<noteq> a \<longrightarrow> array_at m' c = array_at m c)"
  using assms
proof (induction n arbitrary: m' b)
  case (Suc n)
  let ?xs = "array_at m a"
  obtain m1 b1 where f: "fold (set_slot new a) [0..<n] (m, False) = (m1, b1)" by fastforce
  have n: "n < length ?xs" using Suc.prems by simp
  note IH = Suc.IH[OF _ f]
  have s: "set_slot new a n (m1, b1) = (m', b)" using Suc.prems f by simp
  have e: "array_at m1 a ! n = ?xs ! n" using IH n by (simp add: nth_append)
  have t: "take (Suc n) ?xs = take n ?xs @ [?xs ! n]" using n by (simp add: take_Suc_conv_app_nth)
  have d: "drop n ?xs = ?xs ! n # drop (Suc n) ?xs" using n by (simp add: Cons_nth_drop_Suc)
  show ?case using s e IH n d
    by (auto simp: set_slot_def Let_def t replaced_def list_update_append split: if_splits)
qed auto

lemma set_condition_replaced:
  "set_condition new cs = (if \<exists>e \<in> set cs. c_type e = c_type new then map (replaced new) cs else cs @ [new])"
proof -
  have "map (replaced new) cs = cs" if "\<not> (\<exists>e \<in> set cs. c_type e = c_type new)"
    using that by (intro map_idI) (auto simp: replaced_def)
  moreover have "replaced new = (\<lambda>e. if c_type e \<noteq> c_type new then e else if condition_equal e new then e else new)"
    by (simp add: replaced_def fun_eq_iff)
  ultimately show ?thesis by (auto simp: set_condition_def Let_def list_ex_iff)
qed

lemma append_condition_refines:
  assumes "status_ok m s" "append_condition grow new m s = (m', s')"
  shows "status_ok m' s'" "status_view m' s' = status_view m s @ [new]" "only_changes m s m' s'"
proof -
  have "status_ok m' s' \<and> status_view m' s' = status_view m s @ [new] \<and> only_changes m s m' s'"
  proof (cases s)
    case None
    obtain m1 a where al: "allocate (Array (new # replicate (grow 0) zero_condition)) m = (m1, a)" by fastforce
    show ?thesis using assms(2) None allocate_array[OF al]
      by (auto simp: append_condition_def al status_ok_def status_view_def only_changes_def Let_def)
  next
    case (Some sl)
    then have ok: "sl_addr sl < next_free m" "sl_len sl \<le> length (array_at m (sl_addr sl))"
      using assms(1) by (auto simp: status_ok_def)
    show ?thesis
    proof (cases "sl_len sl < length (array_at m (sl_addr sl))")
      case True
      then show ?thesis using assms(2) Some ok
        by (auto simp: append_condition_def status_ok_def status_view_def only_changes_def Let_def
            take_Suc_conv_app_nth)
    next
      case False
      then have v: "status_view m s = array_at m (sl_addr sl)" "length (array_at m (sl_addr sl)) = sl_len sl"
        using ok Some by (simp_all add: status_view_def)
      obtain m1 a where al: "allocate (Array (array_at m (sl_addr sl) @ new # replicate (grow (sl_len sl)) zero_condition)) m = (m1, a)"
        by fastforce
      have r: "m' = m1" "s' = Some \<lparr>sl_addr = a, sl_len = sl_len sl + 1\<rparr>"
        using assms(2) False v(2) al by (simp_all add: append_condition_def Some Let_def status_view_def)
      show ?thesis unfolding v(1) using r Some v(2) allocate_array[OF al] ok
        by (auto simp: status_ok_def status_view_def only_changes_def)
    qed
  qed
  then show "status_ok m' s'" "status_view m' s' = status_view m s @ [new]" "only_changes m s m' s'" by blast+
qed

lemma set_condition_refines:
  assumes "status_ok m s" "set_condition_at grow new (m, s) = (m', s')"
  shows "status_ok m' s'" "status_view m' s' = set_condition new (status_view m s)" "only_changes m s m' s'"
proof -
  have "status_ok m' s' \<and> status_view m' s' = set_condition new (status_view m s) \<and> only_changes m s m' s'"
  proof (cases s)
    case None
    then show ?thesis using assms append_condition_refines[of m None grow new m' s']
      by (auto simp: set_condition_at_def status_view_def set_condition_def)
  next
    case (Some sl)
    obtain m1 b where f: "fold (set_slot new (sl_addr sl)) [0..<sl_len sl] (m, False) = (m1, b)" by fastforce
    have ok: "sl_len sl \<le> length (array_at m (sl_addr sl))" "sl_addr sl < next_free m"
      using assms(1) Some by (auto simp: status_ok_def)
    have F: "array_at m1 (sl_addr sl) = map (replaced new) (take (sl_len sl) (array_at m (sl_addr sl))) @ drop (sl_len sl) (array_at m (sl_addr sl))"
      "b \<longleftrightarrow> (\<exists>e \<in> set (take (sl_len sl) (array_at m (sl_addr sl))). c_type e = c_type new)"
      "next_free m1 = next_free m" "\<And>c. c \<noteq> sl_addr sl \<Longrightarrow> array_at m1 c = array_at m c"
      using set_slots[OF ok(1) f] by blast+
    have l: "length (array_at m1 (sl_addr sl)) = length (array_at m (sl_addr sl))" using ok by (simp add: F(1))
    have ok1: "status_ok m1 s" using ok l F(3) Some by (auto simp: status_ok_def)
    have v1: "status_view m1 s = map (replaced new) (status_view m s)"
      using Some ok by (simp add: status_view_def F(1) min_absorb2)
    have o1: "only_changes m s m1 s" using Some F(3,4) by (auto simp: only_changes_def)
    have b: "b \<longleftrightarrow> (\<exists>e \<in> set (status_view m s). c_type e = c_type new)" using Some F(2) by (simp add: status_view_def)
    show ?thesis
    proof (cases b)
      case True
      then show ?thesis using assms(2) Some f ok1 v1 o1 b by (auto simp: set_condition_at_def set_condition_replaced)
    next
      case False
      then have "append_condition grow new m1 s = (m', s')" using assms(2) Some f by (simp add: set_condition_at_def)
      note A = append_condition_refines[OF ok1 this]
      have "map (replaced new) (status_view m s) = status_view m s"
        using False b by (intro map_idI) (auto simp: replaced_def)
      then show ?thesis using A v1 False b only_changes_trans[OF o1 A(3)] by (simp add: set_condition_replaced)
    qed
  qed
  then show "status_ok m' s'" "status_view m' s' = set_condition new (status_view m s)" "only_changes m s m' s'" by blast+
qed

lemma set_conditions_refines:
  assumes "status_ok m s" "set_conditions_at grow cs (m, s) = (m', s')"
  shows "status_ok m' s'" "status_view m' s' = set_conditions (status_view m s) cs" "only_changes m s m' s'"
proof -
  have "status_ok m' s' \<and> status_view m' s' = fold set_condition cs (status_view m s) \<and> only_changes m s m' s'"
    using assms unfolding set_conditions_at_def
  proof (induction cs arbitrary: m s)
    case (Cons c cs)
    obtain m1 s1 where s: "set_condition_at grow c (m, s) = (m1, s1)" by fastforce
    note S = set_condition_refines[OF Cons.prems(1) s]
    show ?case using Cons.IH[OF S(1)] Cons.prems(2) s S(2) only_changes_trans[OF S(3)] by simp
  qed (simp add: only_changes_refl)
  then show "status_ok m' s'" "status_view m' s' = set_conditions (status_view m s) cs" "only_changes m s m' s'"
    by (simp_all add: set_conditions_def)
qed

section \<open>Deep copies\<close>

lemma copy_slots:
  assumes "a \<noteq> b" "n \<le> length (array_at m a)" "n \<le> length (array_at m b)"
  shows "array_at (fold (copy_slot a b) [0..<n] m) b = take n (array_at m a) @ drop n (array_at m b)
    \<and> next_free (fold (copy_slot a b) [0..<n] m) = next_free m
    \<and> (\<forall>c. c \<noteq> b \<longrightarrow> array_at (fold (copy_slot a b) [0..<n] m) c = array_at m c)"
  using assms
proof (induction n)
  case (Suc n)
  define M where "M = fold (copy_slot a b) [0..<n] m"
  have n: "n < length (array_at m a)" "n < length (array_at m b)" using Suc.prems by simp_all
  have d: "drop n (array_at m b) = array_at m b ! n # drop (Suc n) (array_at m b)"
    using n(2) by (simp add: Cons_nth_drop_Suc)
  have IH: "array_at M b = take n (array_at m a) @ drop n (array_at m b)" "next_free M = next_free m"
    "\<And>c. c \<noteq> b \<Longrightarrow> array_at M c = array_at m c"
    using Suc by (simp_all add: M_def)
  have f: "fold (copy_slot a b) [0..<Suc n] m = copy_slot a b n M" by (simp add: M_def)
  show ?case unfolding f using n Suc.prems(1)
    by (simp add: copy_slot_def condition_copy_def IH d list_update_append take_Suc_conv_app_nth)
qed simp

lemma status_copy_apart:
  assumes "status_ok m s" "status_copy_into m s = (m', t)"
  shows "status_ok m' s" "status_ok m' t" "apart m' s t" "apart m' t s"
    "status_view m' t = status_view m s" "status_view m' s = status_view m s" "t = None \<longleftrightarrow> s = None"
proof -
  have "status_ok m' s \<and> status_ok m' t \<and> apart m' s t \<and> apart m' t s
    \<and> status_view m' t = status_view m s \<and> status_view m' s = status_view m s \<and> (t = None \<longleftrightarrow> s = None)"
  proof (cases s)
    case None
    then show ?thesis using assms by (simp add: status_copy_into_def status_ok_def apart_def status_view_def)
  next
    case (Some sl)
    obtain m1 b where al: "allocate (Array (replicate (sl_len sl) zero_condition)) m = (m1, b)" by fastforce
    note A = allocate_array[OF al]
    have ok: "sl_addr sl < next_free m" "sl_len sl \<le> length (array_at m (sl_addr sl))"
      using assms(1) Some by (auto simp: status_ok_def)
    then have ne: "sl_addr sl \<noteq> b" using A(1) by simp
    let ?m = "fold (copy_slot (sl_addr sl) b) [0..<sl_len sl] m1"
    have c: "array_at ?m b = take (sl_len sl) (array_at m (sl_addr sl))" "next_free ?m = Suc (next_free m)"
      "array_at ?m (sl_addr sl) = array_at m (sl_addr sl)"
      using copy_slots[OF ne, of "sl_len sl" m1] A ne ok by simp_all
    have "m' = ?m" "t = Some \<lparr>sl_addr = b, sl_len = sl_len sl\<rparr>"
      using assms(2) by (simp_all add: status_copy_into_def Some al)
    then show ?thesis using c ok ne A(1) Some by (auto simp: status_ok_def apart_def status_view_def)
  qed
  then show "status_ok m' s" "status_ok m' t" "apart m' s t" "apart m' t s"
    "status_view m' t = status_view m s" "status_view m' s = status_view m s" "t = None \<longleftrightarrow> s = None" by blast+
qed

text \<open>
  C31: a deep copy of a status is a snapshot.  \<open>DeepCopy\<close> of a status gives one with the same conditions, nil only if
  it was nil.  Conditions set later on either of the two, in place or appended to its array, are what the
  other theories compute on the list of its conditions, and the other of the two reads as it did.
\<close>

theorem deep_copy_is_snapshot:
  assumes "status_ok m s" "conditioned_status_deep_copy m (Some s) = (m1, Some t)"
  shows "status_view m1 t = status_view m s \<and> (t = None \<longleftrightarrow> s = None)
    \<and> (\<forall>cs m2 s2. set_conditions_at grow cs (m1, s) = (m2, s2) \<longrightarrow>
         status_view m2 s2 = set_conditions (status_view m s) cs \<and> status_view m2 t = status_view m s)
    \<and> (\<forall>cs m2 t2. set_conditions_at grow cs (m1, t) = (m2, t2) \<longrightarrow>
         status_view m2 t2 = set_conditions (status_view m s) cs \<and> status_view m2 s = status_view m s)"
proof -
  have "status_copy_into m s = (m1, t)"
    using assms(2) by (cases "status_copy_into m s") (simp add: conditioned_status_deep_copy_def deep_copy_def)
  note C = status_copy_apart[OF assms(1) this]
  show ?thesis
    using C set_conditions_refines[OF C(1), of grow] set_conditions_refines[OF C(2), of grow]
      only_changes_apart(2)[OF _ C(3)] only_changes_apart(2)[OF _ C(4)] by metis
qed

text \<open>A copy of the struct alone is no snapshot: it shares the array, and sees what is set.\<close>

lemma shallow_copy_shares:
  assumes "status_ok m s" "status_view m s = [c]" "c_type new = c_type c" "\<not> condition_equal c new"
  shows "\<exists>m'. set_conditions_at grow [new] (m, s) = (m', s) \<and> status_view m' s = [new]"
proof -
  obtain m' s' where r: "set_conditions_at grow [new] (m, s) = (m', s')" by fastforce
  obtain sl where sl: "s = Some sl" using assms(2) by (cases s) (simp_all add: status_view_def)
  obtain m1 b where f: "fold (set_slot new (sl_addr sl)) [0..<sl_len sl] (m, False) = (m1, b)" by fastforce
  have "b"
    using set_slots[OF _ f] assms sl by (auto simp: status_ok_def status_view_def)
  then have "s' = s" using r sl f by (simp add: set_conditions_at_def set_condition_at_def)
  moreover have "status_view m' s' = [new]"
    using set_conditions_refines(2)[OF assms(1) r] assms by (simp add: set_conditions_def set_condition_def)
  ultimately show ?thesis using r by simp
qed

definition one_ready :: memory where
  "one_ready = \<lparr>cells = Mapping.update 0 (Array [cond_available zero_time]) Mapping.empty, next_free = 1\<rparr>"

theorem deep_copy_is_snapshot_witness:
  "case conditioned_status_deep_copy one_ready (Some (Some \<lparr>sl_addr = 0, sl_len = 1\<rparr>)) of
     (m, Some t) \<Rightarrow>
       (case set_conditions_at (\<lambda>n. n) [cond_unavailable zero_time, cond_reconcile_success zero_time]
           (m, Some \<lparr>sl_addr = 0, sl_len = 1\<rparr>) of
          (m, s) \<Rightarrow> status_view m t = [cond_available zero_time])
   | _ \<Rightarrow> False"
proof -
  let ?s = "Some \<lparr>sl_addr = 0, sl_len = 1\<rparr>"
  have s: "status_ok one_ready ?s" "status_view one_ready ?s = [cond_available zero_time]"
    by (simp_all add: status_ok_def status_view_def one_ready_def array_at_def lookup_update')
  obtain m t where c: "conditioned_status_deep_copy one_ready (Some ?s) = (m, Some t)"
    by (cases "status_copy_into one_ready ?s") (simp add: conditioned_status_deep_copy_def deep_copy_def)
  from deep_copy_is_snapshot[OF s(1) c, of "\<lambda>n. n"] show ?thesis
    by (simp add: c s(2) del: One_nat_def split: prod.split)
qed

end
