(* ===== verification/Spec2Isabelle.thy ===== *)
theory Spec2Isabelle
  imports Data_Props Governor_Props Reconcile_Props Pass_Liveness Pass_Books Api_Props New_Props
    Queue_Props Http_Props Cgroup_Props Controller_Props Telemetry_Props Greeting_Props
    Handshake_Props
    Recorded_Props Logging_Props References Adapters Deep_Copy_Props
begin

text \<open>
  A verification development for provider-runtime, the Go library that controllers of managed
  resources are built on (sources under src/pkg and src/apis).

  \<^bold>\<open>The program.\<close>  A provider registers one \<open>Reconciler\<close> per kind.  The work queue of its controller
  hands objects to \<open>Reconcile\<close>, which reads the object from the API server, connects to the external
  system through the provider's client, observes the resource, and creates, updates or deletes it.
  Three things make this delicate.  A create may land without its outcome being known, so the object
  carries annotations that stamp a create as pending, succeeded or failed, and a pass does not
  create again until an earlier one is resolved.  External calls may be throttled, so a \<open>Governor\<close>
  shared by the reconcilers of a process admits each call or defers it, from signals of the server
  and from the saturation of the process's own cgroup.  And every pass must end in a way that brings
  the object back, with conditions on its status that tell the user what happened.

  \<^bold>\<open>Theories and sources.\<close>
  \<^item> Prelude: signed 64-bit integers, instants and durations of package time, Go maps.
    Float64: exact IEEE doubles as far as the code computes with them.  Rfc3339: formatting and
    parsing of \<open>time.RFC3339\<close>.
  \<^item> Errors: src/pkg/errors/errors.go and the filters of src/pkg/resource/resource.go.
  \<^item> Meta: src/pkg/meta/meta.go; object metadata, the create markers, the policies.
  \<^item> Conditions: src/apis/common/v1/condition.go, src/pkg/resource/conditions.go.
  \<^item> Signals, Saturation, Governor: src/pkg/ratelimit (signal.go, saturation.go, governor.go).  An
    operation of the governor runs under its mutex and is one function on the record \<open>governor\<close>.
  \<^item> Strconv, Http_Date: what strings, strconv and net/http do to the text of headers and files.
    Http_Signal: src/pkg/ratelimit/httpsignal.  Cgroup: the reader of the cgroup files in
    saturation.go.
  \<^item> Effects, Reconciler_State: a monad of the pass (a state, and a result or an early return), the
    record \<open>reconciler\<close> of everything a reconciler is given, the state \<open>rstate\<close> of a pass with the trace
    of its calls, events and metrics.  Gate: src/pkg/reconciler/ratelimit.go and ready.go.
    Reconcile: \<open>Reconciler.Reconcile\<close> in src/pkg/reconciler/reconciler.go, one definition per step of
    the method, composed by \<open>pass\<close> and \<open>reconcile\<close> with its deferred functions.
  \<^item> Api_Helpers: src/pkg/reconciler/api.go and src/pkg/resource/api.go.  New_Reconciler: the options,
    defaults and \<open>NewReconciler\<close>.
  \<^item> Backoff: src/pkg/workqueue/workqueue.go and src/pkg/ratelimiter/reconciler.go.
    Queue_Wait, Controller: src/pkg/controller/queue_wait.go and options.go, default.go of
    src/pkg/ratelimiter.
  \<^item> Telemetry: src/pkg/telemetry/metrics.go, a handle as what was recorded on its instruments.
  \<^item> Recorded: src/pkg/reconciler/reconcilertest/recorded.go and ratelimit.go, the checks of a provider's
    rate-limit reports against recorded responses.  Logging: src/pkg/logging, the handlers over log/slog
    as a codatatype of what a handler does, and the loggers; src/pkg/context.  References, Adapters: the
    lookups and reference statuses of src/pkg/resource, and the function adapters of reconciler.go.
    Deep_Copy: src/apis/common/v1/zz_generated.deepcopy.go and \<open>SetConditions\<close> over an explicit memory.
  \<^item> Greeting: the example provider of src/examples/greeting-controller, and the check of the Ready
    contract in src/pkg/reconciler/reconcilertest.

  \<^bold>\<open>What is shown.\<close>  Data_Props: the create handshake, finalizers, policies and conditions.
  Governor_Facts, Governor_Safety, Governor_Props: the interface of the governor's slots as a locale,
  the step relation of its operations, its invariant by rule induction, and what deferrals, signals
  and samples do.  Pass_Rules: weakest preconditions of the pass's monad.  Protocol and Pass_Safety:
  an automaton that reads the trace of a pass, and the proof that every pass it accepts, from which
  Reconcile_Props reads what is called when.  Pass_Invariant: a locale of properties the calls of a
  pass keep, interpreted for a healthy governor (Pass_Liveness), for the governor's books and for the
  metrics (Pass_Books).  Pass_Metrics: rules that take a call of the pass with what records it, so that
  every measured call is told once.  Handshake, Handshake_Props: the create handshake across passes and processes,
  against an API server with optimistic concurrency whose reads may be stale (\<open>optimistic\<close>, over the log
  of every object it has held): nothing is created on a stale read or while a create is in doubt.  Api_Props, New_Props: the default helpers, and that a reconciler built from
  sensible options never drops an object.  Queue_Props: the limiters, over runs of
  calls for any items, and the queue's telemetry; the
  request limiter's contract with the limiter it uses is the locale \<open>delay_limiter\<close> of Backoff.
  Http_Props: hostile headers, the round trips of Retry-After, and a throttled response that gates
  its key up to the governor.  Cgroup_Props: the process's own cgroup directory, and that the local
  capacity falls only on evidence from the files.  Controller_Props: the whole of a provider, from its
  options to any number of passes.  Telemetry_Props: the kinds of the exported metrics, what those of
  a pass add up to, and that each call is counted and timed on its own instruments.  Greeting_Pass and Greeting_Runs walk the pass of the example's reconciler against
  an API server that keeps its promises (\<open>honest\<close>: what it accepts it stores, and its clock does not
  run backwards); Greeting_Props: its objects converge, and go when they are deleted.
  Recorded_Props: a recording moved to the present keeps its waits, and a provider that reports through the
  transport of Http_Signal passes every check.  Logging_Props: a tee is its handlers, a JSON line in one shot,
  and what any call of a \<open>Logger\<close> over it writes, or when it panics.  Deep_Copy_Props: a status in memory refines the list of conditions of the other
  theories, and a deep copy, such as the one a pass keeps to tell whether a deferral changed anything, is a snapshot of it.

  \<^bold>\<open>What is a parameter.\<close>  The API server's client, the provider's client, the clock, the random
  source, \<open>retry.OnError\<close>, the tests of the Kubernetes libraries on errors and objects, the queue
  under the telemetry, the file system, the embedded recordings and how they are read, log sinks and spans, and
  the machine's time zones are arguments of the definitions; a hypothesis on one of
  them is named in the theorem that needs it.  The client's \<open>Get\<close> is taken to replace the maps of the
  object it fills.  A float converted to an integer out of its range gives the value of a parameter,
  as the language leaves it to the implementation.  A panic of a finalizer within a pass comes back
  as the manager recovers it.

  \<^bold>\<open>Bounds.\<close>  No definition needs fuel: loops of the code are recursions on lists, and the retries of
  the critical update are bounded by the steps of the documented backoff.  Instants are unbounded
  integers; durations, counters and capacities are 64-bit and wrap or saturate where the code does.

  \<^bold>\<open>Not modelled.\<close>  What the pass logs, event recorders beyond the reason and message they are given,
  measured durations, contexts with their deadlines and cancellation, the OpenTelemetry and logr
  libraries, the text of a JSON line beyond its leaves, and the fakes of tests: they are
  calls of other libraries or tests with no state that the rest reads.
\<close>

end
